(* ===== verification/Prelude.thy ===== *)
theory Prelude
  imports Main "HOL-Library.Word" "HOL-Library.AList"
begin

text \<open>
  What every component shares: machine integer names, the model of
  \<^verbatim>\<open>std::collections::HashMap\<close>, the allocation of identifiers, and the propagation of
  errors by the \<^verbatim>\<open>?\<close> operator.

  A \<^verbatim>\<open>HashMap\<close> is an association list whose order stands for the (unspecified) iteration order.
  Its interface is the locale \<open>hash_map\<close>; the components use its laws only through the
  interpretation \<open>hm\<close>.
\<close>

type_synonym u8 = "8 word"
type_synonym u16 = "16 word"
type_synonym u32 = "32 word"
type_synonym u64 = "64 word"

named_theorems model_defs \<open>unfolding of the operations of the model\<close>
named_theorems wf_intros \<open>preservation of the well-formedness of a state\<close>

section \<open>Hash maps\<close>

type_synonym ('k, 'v) hmap = "('k \<times> 'v) list"

abbreviation hm_get :: "('k, 'v) hmap \<Rightarrow> 'k \<Rightarrow> 'v option" where
  "hm_get \<equiv> map_of"

abbreviation hm_insert :: "'k \<Rightarrow> 'v \<Rightarrow> ('k, 'v) hmap \<Rightarrow> ('k, 'v) hmap" where
  "hm_insert \<equiv> AList.update"

abbreviation hm_remove :: "'k \<Rightarrow> ('k, 'v) hmap \<Rightarrow> ('k, 'v) hmap" where
  "hm_remove \<equiv> AList.delete"

definition hm_ok :: "('k, 'v) hmap \<Rightarrow> bool" where
  "hm_ok m \<longleftrightarrow> distinct (map fst m)"

definition hm_values :: "('k, 'v) hmap \<Rightarrow> 'v list" where
  "hm_values m = map snd m"

definition hm_retain :: "('k \<Rightarrow> 'v \<Rightarrow> bool) \<Rightarrow> ('k, 'v) hmap \<Rightarrow> ('k, 'v) hmap" where
  "hm_retain P m = filter (\<lambda>kv. P (fst kv) (snd kv)) m"

definition hm_contains :: "('k, 'v) hmap \<Rightarrow> 'k \<Rightarrow> bool" where
  "hm_contains m k \<longleftrightarrow> hm_get m k \<noteq> None"

text \<open>\<^verbatim>\<open>iter().map(|item| (key(item), item)).collect()\<close>: a later entry replaces an earlier one.\<close>

definition hm_collect :: "('v \<Rightarrow> 'k) \<Rightarrow> 'v list \<Rightarrow> ('k, 'v) hmap" where
  "hm_collect key vs = foldl (\<lambda>m v. hm_insert (key v) v m) [] vs"

text \<open>
  The contract of a hash map, over an arbitrary representation: what a lookup returns after each
  operation, and that an iteration yields exactly the stored values.
\<close>

locale hash_map =
  fixes get :: "'m \<Rightarrow> 'k \<Rightarrow> 'v option"
    and ins :: "'k \<Rightarrow> 'v \<Rightarrow> 'm \<Rightarrow> 'm"
    and del :: "'k \<Rightarrow> 'm \<Rightarrow> 'm"
    and ret :: "('k \<Rightarrow> 'v \<Rightarrow> bool) \<Rightarrow> 'm \<Rightarrow> 'm"
    and vals :: "'m \<Rightarrow> 'v list"
    and ok :: "'m \<Rightarrow> bool"
  assumes get_ins: "get (ins k v m) = (get m)(k \<mapsto> v)"
    and get_del: "get (del k m) = (get m)(k := None)"
    and get_ret: "ok m \<Longrightarrow> get (ret P m) k = (case get m k of Some v \<Rightarrow> if P k v then Some v else None | None \<Rightarrow> None)"
    and vals_iff: "ok m \<Longrightarrow> v \<in> set (vals m) \<longleftrightarrow> (\<exists>k. get m k = Some v)"
    and ok_ins: "ok m \<Longrightarrow> ok (ins k v m)"
    and ok_del: "ok m \<Longrightarrow> ok (del k m)"
    and ok_ret: "ok m \<Longrightarrow> ok (ret P m)"
begin

lemma valsI: "ok m \<Longrightarrow> get m k = Some v \<Longrightarrow> v \<in> set (vals m)"
  using vals_iff by blast

lemma valsE:
  assumes "ok m" and "v \<in> set (vals m)"
  obtains k where "get m k = Some v"
  using assms vals_iff by blast

text \<open>An iteration that looks for one value with \<open>P\<close> finds it in any order, when at most one has it.\<close>

lemma find_unique:
  assumes "ok m" and "get m k = Some v" and "P v"
    and unique: "\<And>k' v'. get m k' = Some v' \<Longrightarrow> P v' \<Longrightarrow> v' = v"
  shows "find P (vals m) = Some v"
proof -
  have "find P (vals m) \<noteq> None"
    using assms(1-3) valsI by (auto simp: find_None_iff)
  then obtain v' where v': "find P (vals m) = Some v'" by blast
  then have "v' \<in> set (vals m)" and "P v'"
    by (auto simp: find_Some_iff)
  with assms(1) unique v' show ?thesis by (metis vals_iff)
qed

lemma find_SomeD:
  assumes "ok m" and "find P (vals m) = Some v"
  shows "P v \<and> (\<exists>k. get m k = Some v)"
proof -
  from assms(2) have "P v" and "v \<in> set (vals m)"
    by (auto simp: find_Some_iff)
  with assms(1) vals_iff show ?thesis by blast
qed

lemma find_None_get: "ok m \<Longrightarrow> find P (vals m) = None \<Longrightarrow> get m k = Some v \<Longrightarrow> \<not> P v"
  using valsI by (fastforce simp: find_None_iff)

end

interpretation hm: hash_map hm_get hm_insert hm_remove hm_retain hm_values hm_ok
proof unfold_locales
  fix m :: "('k, 'v) hmap" and k v P
  show "hm_get (hm_insert k v m) = (hm_get m)(k \<mapsto> v)" by (simp add: update_conv')
  show "hm_get (hm_remove k m) = (hm_get m)(k := None)" by (simp add: delete_conv')
  show "hm_get (hm_retain P m) k = (case hm_get m k of Some v \<Rightarrow> if P k v then Some v else None | None \<Rightarrow> None)"
    if "hm_ok m"
    using that
  proof (induction m)
    case (Cons x m)
    then show ?case
      by (cases x) (force simp: hm_retain_def hm_ok_def split: option.splits dest: map_of_SomeD)
  qed (simp add: hm_retain_def)
  show "v \<in> set (hm_values m) \<longleftrightarrow> (\<exists>k. hm_get m k = Some v)" if "hm_ok m"
    using that by (force simp: hm_values_def hm_ok_def dest: map_of_SomeD)
  show "hm_ok (hm_insert k v m)" if "hm_ok m"
    using that by (simp add: hm_ok_def distinct_update)
  show "hm_ok (hm_remove k m)" if "hm_ok m"
    using that by (simp add: hm_ok_def distinct_delete)
  show "hm_ok (hm_retain P m)" if "hm_ok m"
    using that by (simp add: hm_ok_def hm_retain_def distinct_map_filter)
qed

lemmas hm_gets [simp] = hm.get_ins hm.get_del
lemmas hm_oks [simp, intro] = hm.ok_ins hm.ok_del hm.ok_ret

lemma hm_ok_Nil [simp]: "hm_ok []"
  by (simp add: hm_ok_def)

lemma hm_values_Nil [simp]: "hm_values [] = []"
  by (simp add: hm_values_def)

lemma hm_contains_iff: "hm_contains m k \<longleftrightarrow> k \<in> dom (hm_get m)"
  by (simp add: hm_contains_def domIff)

lemma hm_collect_snoc [simp]:
  "hm_collect key (vs @ [v]) = hm_insert (key v) v (hm_collect key vs)"
  by (simp add: hm_collect_def)

lemma hm_ok_collect [simp, intro]: "hm_ok (hm_collect key vs)"
  by (induction vs rule: rev_induct) (auto simp: hm_collect_def)

lemma hm_collect_get:
  "hm_get (hm_collect key vs) k = Some v \<Longrightarrow> v \<in> set vs \<and> key v = k"
  by (induction vs rule: rev_induct) (auto simp: hm_collect_def split: if_splits)

lemma hm_collect_dom: "dom (hm_get (hm_collect key vs)) = key ` set vs"
proof (induction vs rule: rev_induct)
  case Nil
  then show ?case by (simp add: hm_collect_def)
next
  case (snoc v vs)
  have "dom (hm_get (hm_collect key (vs @ [v]))) = insert (key v) (dom (hm_get (hm_collect key vs)))"
    by (auto simp: domIff split: if_splits)
  with snoc show ?case by (simp del: hm_collect_snoc)
qed

lemma hm_collect_distinct:
  assumes "distinct (map key vs)" and "v \<in> set vs"
  shows "hm_get (hm_collect key vs) (key v) = Some v"
proof -
  from assms(2) hm_collect_dom [of key vs] obtain w where w: "hm_get (hm_collect key vs) (key v) = Some w"
    by blast
  then have "w \<in> set vs" and "key w = key v"
    using hm_collect_get by fastforce+
  with assms have "w = v" by (auto simp: distinct_map inj_on_def)
  with w show ?thesis by simp
qed

text \<open>A hash map holds as many values as keys; two maps with the same lookups hold the same values.\<close>

lemma hm_same_values:
  assumes "hm_ok m" and "hm_ok n" and "hm_get m = hm_get n"
  shows "set (hm_values m) = set (hm_values n)"
  using assms hm.vals_iff by (metis set_eqI)

section \<open>Identifiers\<close>

text \<open>
  \<^verbatim>\<open>let id = self.next_id.max(1); self.next_id = id + 1;\<close> The addition is that of a release
  build, which wraps.
\<close>

definition alloc_id :: "u64 \<Rightarrow> u64 \<times> u64" where
  "alloc_id nxt = (let i = max nxt 1 in (i, i + 1))"

text \<open>A table of values stored under their own identifiers, all of them handed out before.\<close>

definition table_ok :: "('v \<Rightarrow> u64) \<Rightarrow> u64 \<Rightarrow> (u64, 'v) hmap \<Rightarrow> bool" where
  "table_ok idf nxt m \<longleftrightarrow> hm_ok m \<and> (\<forall>k v. hm_get m k = Some v \<longrightarrow> idf v = k \<and> 1 \<le> k \<and> k < nxt)"

lemma table_ok_hm [dest]: "table_ok idf nxt m \<Longrightarrow> hm_ok m"
  by (simp add: table_ok_def)

lemma table_okD: "table_ok idf nxt m \<Longrightarrow> hm_get m k = Some v \<Longrightarrow> idf v = k \<and> 1 \<le> k \<and> k < nxt"
  by (simp add: table_ok_def)

lemma table_ok_Nil [simp]: "table_ok idf nxt []"
  by (simp add: table_ok_def)

lemma word_Suc_less:
  fixes a :: u64
  assumes "a < - 1"
  shows "a < a + 1"
  using assms by unat_arith

lemma word_one_less_max: "(1 :: u64) < - 1"
  by code_simp

lemma max_one_less: "nxt < (- 1 :: u64) \<Longrightarrow> max nxt 1 < - 1"
  using word_one_less_max by (simp add: max_def)

lemma word_le_one_two: "nxt \<le> (1 :: u64) \<Longrightarrow> nxt \<le> 2"
  by (simp add: word_le_nat_alt)

lemma alloc_id_fresh:
  assumes "table_ok idf nxt m" and "alloc_id nxt = (i, nxt')"
  shows "hm_get m i = None"
proof (rule ccontr)
  assume "hm_get m i \<noteq> None"
  then obtain v where "hm_get m i = Some v" by blast
  with assms(1) have "i < nxt" by (auto dest: table_okD)
  with assms(2) show False by (auto simp: alloc_id_def Let_def max_def split: if_splits)
qed

lemma alloc_id_bounds:
  assumes "alloc_id nxt = (i, nxt')" and "nxt < - 1"
  shows "1 \<le> i \<and> i < nxt' \<and> nxt \<le> nxt'"
  using assms max_one_less [OF assms(2)] word_Suc_less [of "max nxt 1"]
  by (auto simp: alloc_id_def Let_def max_def word_le_one_two split: if_splits)

lemma table_ok_mono: "table_ok idf nxt m \<Longrightarrow> nxt \<le> nxt' \<Longrightarrow> table_ok idf nxt' m"
  by (fastforce simp: table_ok_def)

lemma table_ok_alloc:
  assumes "table_ok idf nxt m" and "alloc_id nxt = (i, nxt')" and "nxt < - 1" and "idf v = i"
  shows "table_ok idf nxt' (hm_insert i v m)"
  using assms alloc_id_bounds [OF assms(2,3)] table_ok_mono [OF assms(1)]
  by (auto simp: table_ok_def)

lemma table_ok_update:
  assumes "table_ok idf nxt m" and "hm_get m k = Some v" and "idf v' = idf v"
  shows "table_ok idf nxt (hm_insert k v' m)"
  using assms by (auto simp: table_ok_def)

lemma table_ok_remove: "table_ok idf nxt m \<Longrightarrow> table_ok idf nxt (hm_remove k m)"
  by (auto simp: table_ok_def split: if_splits)

lemma table_ok_retain: "table_ok idf nxt m \<Longrightarrow> table_ok idf nxt (hm_retain P m)"
  by (auto simp: table_ok_def hm.get_ret split: option.splits if_splits)

section \<open>Predicates on tables\<close>

text \<open>Every stored value has a property; every value is stored under its own key; the values of one
  table refer to entries of another.\<close>

definition all_values :: "('v \<Rightarrow> bool) \<Rightarrow> ('k, 'v) hmap \<Rightarrow> bool" where
  "all_values P m \<longleftrightarrow> (\<forall>k v. hm_get m k = Some v \<longrightarrow> P v)"

definition keyed :: "('v \<Rightarrow> 'k) \<Rightarrow> ('k, 'v) hmap \<Rightarrow> bool" where
  "keyed kf m \<longleftrightarrow> hm_ok m \<and> (\<forall>k v. hm_get m k = Some v \<longrightarrow> kf v = k)"

definition refs_to :: "('v \<Rightarrow> 'l) \<Rightarrow> ('k, 'v) hmap \<Rightarrow> ('l, 'w) hmap \<Rightarrow> bool" where
  "refs_to f src tgt \<longleftrightarrow> (\<forall>k v. hm_get src k = Some v \<longrightarrow> hm_get tgt (f v) \<noteq> None)"

lemma all_valuesD: "all_values P m \<Longrightarrow> hm_get m k = Some v \<Longrightarrow> P v"
  by (simp add: all_values_def)

lemma keyedD: "keyed kf m \<Longrightarrow> hm_get m k = Some v \<Longrightarrow> kf v = k"
  by (simp add: keyed_def)

lemma keyed_hm [dest]: "keyed kf m \<Longrightarrow> hm_ok m"
  by (simp add: keyed_def)

lemma refs_toD: "refs_to f src tgt \<Longrightarrow> hm_get src k = Some v \<Longrightarrow> hm_get tgt (f v) \<noteq> None"
  unfolding refs_to_def by blast

lemma table_Nil [simp]: "all_values P []" "keyed kf []" "refs_to f [] tgt"
  by (simp_all add: all_values_def keyed_def refs_to_def)

lemma all_values_insert [simp]: "all_values P m \<Longrightarrow> P v \<Longrightarrow> all_values P (hm_insert k v m)"
  by (simp add: all_values_def)

lemma all_values_remove [simp]: "all_values P m \<Longrightarrow> all_values P (hm_remove k m)"
  by (simp add: all_values_def)

lemma all_values_retain [simp]: "hm_ok m \<Longrightarrow> all_values P m \<Longrightarrow> all_values P (hm_retain Q m)"
  by (simp add: all_values_def hm.get_ret split: option.splits if_splits)

lemma keyed_insert [simp]: "keyed kf m \<Longrightarrow> kf v = k \<Longrightarrow> keyed kf (hm_insert k v m)"
  by (simp add: keyed_def)

lemma keyed_remove [simp]: "keyed kf m \<Longrightarrow> keyed kf (hm_remove k m)"
  by (simp add: keyed_def)

lemma keyed_retain [simp]: "keyed kf m \<Longrightarrow> keyed kf (hm_retain Q m)"
  by (simp add: keyed_def hm.get_ret split: option.splits if_splits)

lemma refs_to_insert_src [simp]:
  "refs_to f src tgt \<Longrightarrow> hm_get tgt (f v) \<noteq> None \<Longrightarrow> refs_to f (hm_insert k v src) tgt"
  by (simp add: refs_to_def)

lemma refs_to_insert_tgt [simp]: "refs_to f src tgt \<Longrightarrow> refs_to f src (hm_insert k w tgt)"
  by (simp add: refs_to_def)

lemma refs_to_remove_src [simp]: "refs_to f src tgt \<Longrightarrow> refs_to f (hm_remove k src) tgt"
  by (simp add: refs_to_def)

lemma refs_to_retain_src [simp]: "hm_ok src \<Longrightarrow> refs_to f src tgt \<Longrightarrow> refs_to f (hm_retain Q src) tgt"
  by (simp add: refs_to_def hm.get_ret split: option.splits if_splits)

lemma refs_to_remove_tgt:
  "refs_to f src tgt \<Longrightarrow> (\<And>k v. hm_get src k = Some v \<Longrightarrow> f v \<noteq> l) \<Longrightarrow> refs_to f src (hm_remove l tgt)"
  by (simp add: refs_to_def)

section \<open>Error propagation\<close>

text \<open>
  \<^verbatim>\<open>r?\<close> inside a method on \<^verbatim>\<open>&mut self\<close>: an error ends the method in the state reached so far,
  a value goes on.
\<close>

fun try_q :: "'e + 'a \<Rightarrow> 's \<Rightarrow> ('a \<Rightarrow> ('e + 'b) \<times> 's) \<Rightarrow> ('e + 'b) \<times> 's" where
  "try_q (Inl e) s k = (Inl e, s)"
| "try_q (Inr a) s k = k a"

lemma try_q_split:
  "P (try_q r s k) \<longleftrightarrow> (\<forall>e. r = Inl e \<longrightarrow> P (Inl e, s)) \<and> (\<forall>a. r = Inr a \<longrightarrow> P (k a))"
  by (cases r) auto

lemma try_q_split_asm:
  "P (try_q r s k) \<longleftrightarrow> \<not> ((\<exists>e. r = Inl e \<and> \<not> P (Inl e, s)) \<or> (\<exists>a. r = Inr a \<and> \<not> P (k a)))"
  by (cases r) auto

lemmas try_q_splits = try_q_split try_q_split_asm

text \<open>\<^verbatim>\<open>Option::ok_or\<close>.\<close>

definition ok_or :: "'a option \<Rightarrow> 'e \<Rightarrow> 'e + 'a" where
  "ok_or x e = (case x of None \<Rightarrow> Inl e | Some a \<Rightarrow> Inr a)"

lemma ok_or_simps [simp]: "ok_or None e = Inl e" "ok_or (Some a) e = Inr a"
  by (simp_all add: ok_or_def)

lemma ok_or_eq [simp]:
  "ok_or x e = Inl e' \<longleftrightarrow> x = None \<and> e' = e" "ok_or x e = Inr a \<longleftrightarrow> x = Some a"
  by (auto simp: ok_or_def split: option.splits)

text \<open>\<^verbatim>\<open>Result::map_err\<close>.\<close>

definition map_err :: "('e \<Rightarrow> 'f) \<Rightarrow> 'e + 'a \<Rightarrow> 'f + 'a" where
  "map_err f r = (case r of Inl e \<Rightarrow> Inl (f e) | Inr a \<Rightarrow> Inr a)"

lemma map_err_simps [simp]: "map_err f (Inl e) = Inl (f e)" "map_err f (Inr a) = Inr a"
  by (simp_all add: map_err_def)

lemma map_err_eq [simp]:
  "map_err f r = Inr a \<longleftrightarrow> r = Inr a" "map_err f r = Inl e' \<longleftrightarrow> (\<exists>e. r = Inl e \<and> e' = f e)"
  by (auto simp: map_err_def split: sum.splits)

definition is_err :: "'e + 'a \<Rightarrow> bool" where
  "is_err r = (case r of Inl _ \<Rightarrow> True | Inr _ \<Rightarrow> False)"

lemma is_err_simps [simp]: "is_err (Inl e)" "\<not> is_err (Inr a)"
  by (simp_all add: is_err_def)

lemma is_err_iff: "is_err r \<longleftrightarrow> (\<exists>e. r = Inl e)"
  by (cases r) auto

end
