(* ===== verification/Rust_Text.thy ===== *)
theory Rust_Text
  imports Prelude
begin

text \<open>
  The parts of Rust's \<^verbatim>\<open>str\<close>, \<^verbatim>\<open>char\<close> and integer parsing that the crate uses.

  A \<^verbatim>\<open>String\<close> is the list of its Unicode scalar values, so \<^verbatim>\<open>chars().count()\<close> is the length
  and the byte order of two strings is the lexicographic order of the lists; its bytes are the
  UTF-8 encoding \<open>as_bytes\<close>. \<open>lit\<close> writes an ASCII literal.
\<close>

type_synonym uchar = nat
type_synonym ustr = "nat list"

definition lit :: "string \<Rightarrow> ustr" where
  "lit s = map of_char s"

section \<open>Whitespace and trimming\<close>

text \<open>\<^verbatim>\<open>char::is_whitespace\<close>: the Unicode property \<^verbatim>\<open>White_Space\<close>.\<close>

definition is_ws :: "uchar \<Rightarrow> bool" where
  "is_ws c \<longleftrightarrow> (9 \<le> c \<and> c \<le> 13) \<or> c = 32 \<or> c = 133 \<or> c = 160 \<or> c = 5760
     \<or> (8192 \<le> c \<and> c \<le> 8202) \<or> c = 8232 \<or> c = 8233 \<or> c = 8239 \<or> c = 8287 \<or> c = 12288"

definition has_ws :: "ustr \<Rightarrow> bool" where
  "has_ws s \<longleftrightarrow> list_ex is_ws s"

definition trim :: "ustr \<Rightarrow> ustr" where
  "trim s = rev (dropWhile is_ws (rev (dropWhile is_ws s)))"

lemma has_ws_Nil [simp]: "\<not> has_ws []"
  by (simp add: has_ws_def)

lemma has_ws_append [simp]: "has_ws (s @ t) \<longleftrightarrow> has_ws s \<or> has_ws t"
  by (simp add: has_ws_def)

lemma has_ws_Cons [simp]: "has_ws (c # t) \<longleftrightarrow> is_ws c \<or> has_ws t"
  by (simp add: has_ws_def)

lemma has_ws_iff: "has_ws s \<longleftrightarrow> (\<exists>c \<in> set s. is_ws c)"
  by (auto simp: has_ws_def list_ex_iff)

lemma trim_Nil [simp]: "trim [] = []"
  by (simp add: trim_def)

lemma trim_eq_Nil_iff: "trim s = [] \<longleftrightarrow> (\<forall>c \<in> set s. is_ws c)"
  by (auto simp: trim_def dropWhile_eq_Nil_conv dest: set_dropWhileD)
    (metis dropWhile_append2 dropWhile_eq_Nil_conv takeWhile_dropWhile_id set_takeWhileD Un_iff set_append)

lemma trim_id:
  assumes "s \<noteq> []" and "\<not> is_ws (hd s)" and "\<not> is_ws (last s)"
  shows "trim s = s"
proof -
  have "dropWhile is_ws s = s" and "dropWhile is_ws (rev s) = rev s"
    using assms by (simp_all add: dropWhile_eq_self_iff hd_rev)
  then show ?thesis by (simp add: trim_def)
qed

lemma trim_no_ws: "\<not> has_ws s \<Longrightarrow> trim s = s"
  by (cases "s = []") (auto intro: trim_id simp: has_ws_iff)

lemma no_ws_trim_Nil: "\<not> has_ws s \<Longrightarrow> trim s = [] \<longleftrightarrow> s = []"
  by (simp add: trim_no_ws)

lemma dropWhile_hd: "dropWhile P xs \<noteq> [] \<Longrightarrow> \<not> P (hd (dropWhile P xs))"
  by (rule hd_dropWhile)

lemma trim_last: "trim s \<noteq> [] \<Longrightarrow> \<not> is_ws (last (trim s))"
  by (simp add: trim_def last_rev dropWhile_hd)

lemma trim_hd:
  assumes "trim s \<noteq> []"
  shows "\<not> is_ws (hd (trim s))"
proof -
  let ?t = "dropWhile is_ws s"
  have "?t = trim s @ rev (takeWhile is_ws (rev ?t))"
    by (metis trim_def rev_append rev_rev_ident takeWhile_dropWhile_id)
  with assms have "hd (trim s) = hd ?t" and "?t \<noteq> []"
    by (metis hd_append2, metis append_is_Nil_conv)
  then show ?thesis using dropWhile_hd by metis
qed

lemma trim_trim [simp]: "trim (trim s) = trim s"
  by (cases "trim s = []") (simp_all add: trim_id trim_hd trim_last)

lemma length_trim: "length (trim s) \<le> length s"
  by (metis trim_def length_dropWhile_le length_rev order_trans)

section \<open>Splitting\<close>

text \<open>\<^verbatim>\<open>s.split(c)\<close>: the pieces between the occurrences of \<open>c\<close>, at least one.\<close>

fun split_on :: "uchar \<Rightarrow> ustr \<Rightarrow> ustr list" where
  "split_on c [] = [[]]"
| "split_on c (x # xs) =
     (if x = c then [] # split_on c xs
      else (case split_on c xs of [] \<Rightarrow> [[x]] | p # ps \<Rightarrow> (x # p) # ps))"

lemma split_on_not_Nil [simp]: "split_on c s \<noteq> []"
  by (induction s) (auto split: list.splits)

lemma Nil_not_split_on [simp]: "[] \<noteq> split_on c s"
  by (metis split_on_not_Nil)

lemma split_on_hd: "hd (split_on c s) = takeWhile (\<lambda>x. x \<noteq> c) s"
  by (induction s) (auto split: list.splits simp: neq_Nil_conv)

lemma split_on_notin: "c \<notin> set s \<Longrightarrow> split_on c s = [s]"
  by (induction s) auto

lemma split_on_append:
  "c \<notin> set a \<Longrightarrow> split_on c (a @ c # b) = a # split_on c b"
  by (induction a) (auto split: list.splits)

lemma split_on_cases:
  obtains "c \<notin> set s" and "split_on c s = [s]"
  | a b where "s = a @ c # b" and "c \<notin> set a" and "split_on c s = a # split_on c b"
proof (cases "c \<in> set s")
  case True
  then obtain a b where "s = a @ c # b" and "c \<notin> set a"
    by (meson split_list_first)
  then show ?thesis using that(2) split_on_append by blast
qed (use that(1) split_on_notin in auto)

lemma split_on_pair_iff:
  "split_on c s = [a, b] \<longleftrightarrow> s = a @ c # b \<and> c \<notin> set a \<and> c \<notin> set b"
proof
  assume *: "split_on c s = [a, b]"
  show "s = a @ c # b \<and> c \<notin> set a \<and> c \<notin> set b"
  proof (cases rule: split_on_cases [of c s])
    case (2 a' b')
    with * have "a' = a" and b': "split_on c b' = [b]" by auto
    from b' have "b' = b \<and> c \<notin> set b"
      by (cases rule: split_on_cases [of c b']) auto
    with 2 \<open>a' = a\<close> show ?thesis by simp
  qed (use * in auto)
qed (auto simp: split_on_append split_on_notin)

text \<open>\<^verbatim>\<open>strip_prefix\<close>, \<^verbatim>\<open>split_once\<close> and \<^verbatim>\<open>rsplit_once\<close>.\<close>

definition strip_prefix :: "ustr \<Rightarrow> ustr \<Rightarrow> ustr option" where
  "strip_prefix p s = (if take (length p) s = p then Some (drop (length p) s) else None)"

definition starts_with :: "ustr \<Rightarrow> ustr \<Rightarrow> bool" where
  "starts_with p s \<longleftrightarrow> take (length p) s = p"

definition split_once :: "uchar \<Rightarrow> ustr \<Rightarrow> (ustr \<times> ustr) option" where
  "split_once c s = (case dropWhile (\<lambda>x. x \<noteq> c) s of [] \<Rightarrow> None
     | _ # r \<Rightarrow> Some (takeWhile (\<lambda>x. x \<noteq> c) s, r))"

definition rsplit_once :: "uchar \<Rightarrow> ustr \<Rightarrow> (ustr \<times> ustr) option" where
  "rsplit_once c s = map_option (\<lambda>(r, l). (rev l, rev r)) (split_once c (rev s))"

lemma strip_prefix_Some: "strip_prefix p s = Some r \<longleftrightarrow> s = p @ r"
  by (auto simp: strip_prefix_def) (metis append_take_drop_id)

lemma strip_prefix_append [simp]: "strip_prefix p (p @ r) = Some r"
  by (simp add: strip_prefix_Some)

lemma split_once_Some: "split_once c s = Some (a, b) \<longleftrightarrow> s = a @ c # b \<and> c \<notin> set a"
proof
  assume "split_once c s = Some (a, b)"
  then obtain x where d: "dropWhile (\<lambda>x. x \<noteq> c) s = x # b" and a: "a = takeWhile (\<lambda>x. x \<noteq> c) s"
    by (auto simp: split_once_def split: list.splits)
  from d have "x = c" using dropWhile_hd [of "\<lambda>x. x \<noteq> c" s] by simp
  with d a show "s = a @ c # b \<and> c \<notin> set a"
    by (metis (mono_tags) takeWhile_dropWhile_id set_takeWhileD)
next
  assume "s = a @ c # b \<and> c \<notin> set a"
  moreover from this have "takeWhile (\<lambda>x. x \<noteq> c) s = a" and "dropWhile (\<lambda>x. x \<noteq> c) s = c # b"
    by (auto simp: takeWhile_append dropWhile_append)
  ultimately show "split_once c s = Some (a, b)" by (simp add: split_once_def)
qed

lemma rsplit_once_Some: "rsplit_once c s = Some (a, b) \<longleftrightarrow> s = a @ c # b \<and> c \<notin> set b"
proof -
  have "rsplit_once c s = Some (a, b) \<longleftrightarrow> split_once c (rev s) = Some (rev b, rev a)"
    unfolding rsplit_once_def by (auto simp: rev_swap)
  also have "\<dots> \<longleftrightarrow> rev s = rev b @ c # rev a \<and> c \<notin> set b"
    by (simp add: split_once_Some)
  also have "\<dots> \<longleftrightarrow> s = a @ c # b \<and> c \<notin> set b"
    by (metis append.assoc append_Cons append_Nil rev.simps(2) rev_append rev_rev_ident)
  finally show ?thesis .
qed

text \<open>\<^verbatim>\<open>split_whitespace\<close>: the maximal non-empty runs of other characters.\<close>

function split_ws :: "ustr \<Rightarrow> ustr list" where
  "split_ws s = (case dropWhile is_ws s of [] \<Rightarrow> []
     | x # xs \<Rightarrow> takeWhile (\<lambda>c. \<not> is_ws c) (x # xs) # split_ws (dropWhile (\<lambda>c. \<not> is_ws c) (x # xs)))"
  by pat_completeness auto
termination
proof (relation "measure length")
  fix s x xs
  assume d: "dropWhile is_ws s = x # xs"
  then have "\<not> is_ws x" using dropWhile_hd [of is_ws s] by simp
  then have "length (dropWhile (\<lambda>c. \<not> is_ws c) (x # xs)) \<le> length xs"
    by (simp add: length_dropWhile_le)
  also have "length xs < length s"
    using d length_dropWhile_le [of is_ws s] by simp
  finally show "(dropWhile (\<lambda>c. \<not> is_ws c) (x # xs), s) \<in> measure length" by simp
qed simp

declare split_ws.simps [simp del]

text \<open>\<^verbatim>\<open>parts.join(sep)\<close>.\<close>

fun join_with :: "ustr \<Rightarrow> ustr list \<Rightarrow> ustr" where
  "join_with sep [] = []"
| "join_with sep [p] = p"
| "join_with sep (p # q # ps) = p @ sep @ join_with sep (q # ps)"

section \<open>Decimal numbers\<close>

definition is_digit :: "uchar \<Rightarrow> bool" where
  "is_digit c \<longleftrightarrow> 48 \<le> c \<and> c \<le> 57"

text \<open>\<^verbatim>\<open>format!("{n}")\<close> of an unsigned integer.\<close>

fun show_dec :: "nat \<Rightarrow> ustr" where
  "show_dec n = (if n < 10 then [48 + n] else show_dec (n div 10) @ [48 + n mod 10])"

declare show_dec.simps [simp del]

definition dec_val :: "ustr \<Rightarrow> nat" where
  "dec_val s = foldl (\<lambda>v c. 10 * v + (c - 48)) 0 s"

text \<open>
  \<^verbatim>\<open>s.parse::<uN>()\<close>: an optional \<^verbatim>\<open>+\<close> (alone it is an error), then at least one digit and nothing
  else, with a value below \<open>2 ^ N\<close>.
\<close>

definition parse_uint :: "nat \<Rightarrow> ustr \<Rightarrow> nat option" where
  "parse_uint w s =
     (let ds = (case s of c # r \<Rightarrow> if c = 43 \<and> r \<noteq> [] then r else s | [] \<Rightarrow> [])
      in if ds = [] \<or> \<not> list_all is_digit ds \<or> 2 ^ w \<le> dec_val ds then None else Some (dec_val ds))"

lemma show_dec_digits: "show_dec n \<noteq> [] \<and> list_all is_digit (show_dec n)"
proof (induction n rule: show_dec.induct)
  case (1 n)
  have "is_digit (48 + n mod 10)"
    by (simp add: is_digit_def)
  with 1 show ?case
    by (subst (1 2) show_dec.simps) (auto simp: is_digit_def [of "48 + n"])
qed

lemma dec_val_snoc: "dec_val (s @ [c]) = 10 * dec_val s + (c - 48)"
  by (simp add: dec_val_def)

lemma dec_val_show_dec [simp]: "dec_val (show_dec n) = n"
proof (induction n rule: show_dec.induct)
  case (1 n)
  show ?case
  proof (cases "n < 10")
    case True
    then show ?thesis by (subst show_dec.simps) (simp add: dec_val_def)
  next
    case False
    with 1 show ?thesis by (subst show_dec.simps) (simp add: dec_val_snoc)
  qed
qed

lemma show_dec_not_plus: "show_dec n = c # r \<Longrightarrow> c \<noteq> 43"
  using show_dec_digits [of n] by (auto simp: is_digit_def)

lemma parse_uint_show_dec: "n < 2 ^ w \<Longrightarrow> parse_uint w (show_dec n) = Some n"
  using show_dec_digits [of n] show_dec_not_plus [of n] dec_val_show_dec [of n]
  by (cases "show_dec n") (simp_all add: parse_uint_def)

lemma parse_uint_bound: "parse_uint w s = Some n \<Longrightarrow> n < 2 ^ w"
  by (auto simp: parse_uint_def Let_def split: if_splits)

lemma parse_uint_Nil [simp]: "parse_uint w [] = None"
  by (simp add: parse_uint_def)

lemma show_dec_inj: "show_dec m = show_dec n \<Longrightarrow> m = n"
  by (metis dec_val_show_dec)

section \<open>UTF-8\<close>

text \<open>A Unicode scalar value: what a \<^verbatim>\<open>char\<close> can hold.\<close>

definition scalar :: "uchar \<Rightarrow> bool" where
  "scalar c \<longleftrightarrow> c < 55296 \<or> (57344 \<le> c \<and> c < 1114112)"

definition utf8_char :: "uchar \<Rightarrow> nat list" where
  "utf8_char c =
     (if c < 128 then [c]
      else if c < 2048 then [192 + c div 64, 128 + c mod 64]
      else if c < 65536 then [224 + c div 4096, 128 + c div 64 mod 64, 128 + c mod 64]
      else [240 + c div 262144, 128 + c div 4096 mod 64, 128 + c div 64 mod 64, 128 + c mod 64])"

definition utf8 :: "ustr \<Rightarrow> nat list" where
  "utf8 s = concat (map utf8_char s)"

text \<open>\<^verbatim>\<open>str::as_bytes\<close>.\<close>

definition as_bytes :: "ustr \<Rightarrow> u8 list" where
  "as_bytes s = map of_nat (utf8 s)"

definition cont_byte :: "nat \<Rightarrow> bool" where
  "cont_byte b \<longleftrightarrow> 128 \<le> b \<and> b < 192"

text \<open>
  \<^verbatim>\<open>str::from_utf8\<close>: refuses stray and missing continuation bytes, overlong forms, surrogates and
  values past U+10FFFF.
\<close>

fun utf8_decode :: "nat list \<Rightarrow> ustr option" where
  "utf8_decode [] = Some []"
| "utf8_decode (b # bs) =
     (if b < 128 then map_option ((#) b) (utf8_decode bs)
      else if 192 \<le> b \<and> b < 224 then
        (case bs of b1 # r \<Rightarrow>
           let c = (b - 192) * 64 + (b1 - 128)
           in if cont_byte b1 \<and> 128 \<le> c then map_option ((#) c) (utf8_decode r) else None
         | _ \<Rightarrow> None)
      else if 224 \<le> b \<and> b < 240 then
        (case bs of b1 # b2 # r \<Rightarrow>
           let c = (b - 224) * 4096 + (b1 - 128) * 64 + (b2 - 128)
           in if cont_byte b1 \<and> cont_byte b2 \<and> 2048 \<le> c \<and> scalar c
              then map_option ((#) c) (utf8_decode r) else None
         | _ \<Rightarrow> None)
      else if 240 \<le> b \<and> b < 248 then
        (case bs of b1 # b2 # b3 # r \<Rightarrow>
           let c = (b - 240) * 262144 + (b1 - 128) * 4096 + (b2 - 128) * 64 + (b3 - 128)
           in if cont_byte b1 \<and> cont_byte b2 \<and> cont_byte b3 \<and> 65536 \<le> c \<and> scalar c
              then map_option ((#) c) (utf8_decode r) else None
         | _ \<Rightarrow> None)
      else None)"

declare utf8_decode.simps(2) [simp del]

definition from_utf8 :: "u8 list \<Rightarrow> ustr option" where
  "from_utf8 bs = utf8_decode (map unat bs)"

lemma mod64_parts:
  fixes c :: nat
  shows "c div 64 * 64 + c mod 64 = c"
    and "c div 4096 * 4096 + c div 64 mod 64 * 64 + c mod 64 = c"
    and "c div 262144 * 262144 + c div 4096 mod 64 * 4096 + c div 64 mod 64 * 64 + c mod 64 = c"
proof -
  show 1: "c div 64 * 64 + c mod 64 = c" by simp
  have 2: "c div 4096 * 64 + c div 64 mod 64 = c div 64"
    using div_mult_mod_eq [of "c div 64" 64] by (simp add: div_mult2_eq [symmetric])
  have 3: "c div 262144 * 64 + c div 4096 mod 64 = c div 4096"
    using div_mult_mod_eq [of "c div 4096" 64] by (simp add: div_mult2_eq [symmetric])
  show 4: "c div 4096 * 4096 + c div 64 mod 64 * 64 + c mod 64 = c"
    using 1 2 by linarith
  show "c div 262144 * 262144 + c div 4096 mod 64 * 4096 + c div 64 mod 64 * 64 + c mod 64 = c"
    using 4 3 by linarith
qed

lemma cont_byte_mod [simp]: "cont_byte (128 + n mod 64)"
  using mod_less_divisor [of 64 n] by (simp add: cont_byte_def)

lemma utf8_decode_char:
  assumes "scalar c"
  shows "utf8_decode (utf8_char c @ r) = map_option ((#) c) (utf8_decode r)"
proof -
  consider "c < 128" | "128 \<le> c" "c < 2048" | "2048 \<le> c" "c < 65536" | "65536 \<le> c" by linarith
  then show ?thesis
  proof cases
    case 2
    then have "c div 64 < 32" by (simp add: less_mult_imp_div_less)
    with 2 show ?thesis by (simp add: utf8_char_def utf8_decode.simps(2) mod64_parts)
  next
    case 3
    then have "c div 4096 < 16" by (simp add: less_mult_imp_div_less)
    with 3 assms show ?thesis by (simp add: utf8_char_def utf8_decode.simps(2) mod64_parts)
  next
    case 4
    with assms have "c div 262144 < 8" by (simp add: scalar_def less_mult_imp_div_less)
    with 4 assms show ?thesis by (simp add: utf8_char_def utf8_decode.simps(2) mod64_parts)
  qed (simp add: utf8_char_def utf8_decode.simps(2))
qed

lemma utf8_char_byte: "scalar c \<Longrightarrow> b \<in> set (utf8_char c) \<Longrightarrow> b < 256"
proof -
  assume c: "scalar c" and b: "b \<in> set (utf8_char c)"
  have m: "n mod 64 < 64" for n :: nat by simp
  have "c < 2048 \<Longrightarrow> c div 64 < 32" and "c < 65536 \<Longrightarrow> c div 4096 < 16" and "c div 262144 < 8"
    using c by (auto simp: scalar_def less_mult_imp_div_less)
  then show "b < 256"
    using b m [of c] m [of "c div 64"] m [of "c div 4096"]
    by (auto simp: utf8_char_def split: if_splits)
qed

theorem utf8_roundtrip:
  assumes "\<forall>c \<in> set s. scalar c"
  shows "from_utf8 (as_bytes s) = Some s"
proof -
  have bytes: "\<forall>b \<in> set (utf8 s). b < 256"
    using assms utf8_char_byte by (auto simp: utf8_def)
  then have "map unat (as_bytes s) = utf8 s"
    by (auto simp: as_bytes_def unat_of_nat intro!: map_idI)
  moreover have "utf8_decode (utf8 s) = Some s"
    using assms
  proof (induction s)
    case (Cons c s)
    then show ?case by (simp add: utf8_def utf8_decode_char)
  qed (simp add: utf8_def)
  ultimately show ?thesis by (simp add: from_utf8_def)
qed

lemma length_utf8_char: "1 \<le> length (utf8_char c) \<and> length (utf8_char c) \<le> 4"
  by (simp add: utf8_char_def)

lemma length_as_bytes: "length s \<le> length (as_bytes s)"
proof (induction s)
  case (Cons c s)
  then show ?case using length_utf8_char [of c] by (simp add: as_bytes_def utf8_def)
qed simp

lemma as_bytes_append [simp]: "as_bytes (s @ t) = as_bytes s @ as_bytes t"
  by (simp add: as_bytes_def utf8_def)

lemma as_bytes_Nil [simp]: "as_bytes [] = []"
  by (simp add: as_bytes_def utf8_def)

end
