(* ===== verification/Domain_Types.thy ===== *)
theory Domain_Types
  imports Rust_Text
begin

text \<open>
  The data model: the enums and structs of \<^verbatim>\<open>crates/mindchat-core/src/lib.rs\<close>, of
  \<^verbatim>\<open>transport.rs\<close>, and the proxy configuration of \<^verbatim>\<open>proxy.rs\<close> that an account stores.

  Constructors carry a prefix for their enum (several enums share variant names), record fields
  one for their struct. A \<^verbatim>\<open>BTreeSet\<close> is a set; its iteration order is the order of the enum's
  variants, which is the instance of \<open>linorder\<close> below.
\<close>

section \<open>Enums\<close>

type_synonym account_id = u64
type_synonym conversation_id = u64
type_synonym message_id = u64
type_synonym reaction_id = u64

datatype connection_state = CS_Offline | CS_Connecting | CS_Online | CS_Failed

datatype disconnect_kind =
    DK_AuthenticationFailed
  | DK_TlsVerificationFailed
  | DK_ServerRefused
  | DK_NetworkLost
  | DK_Cancelled
  | DK_Unknown

datatype contact_presence = CP_Online | CP_Away | CP_DoNotDisturb | CP_Offline

datatype roster_subscription = RS_None | RS_Inbound | RS_Outbound | RS_Mutual | RS_PendingOutbound

datatype conversation_kind = CK_Direct | CK_MultiUserChat

datatype message_direction = MD_Incoming | MD_Outgoing

datatype delivery_state = DS_Pending | DS_Sent | DS_Delivered | DS_Read | DS_Failed

datatype message_kind = MK_Text | MK_Attachment | MK_Voice

datatype protocol_capability =
    Cap_MultiUserChat
  | Cap_MessageArchiveManagement
  | Cap_StreamManagement
  | Cap_HttpFileUpload
  | Cap_Omemo
  | Cap_PushNotifications
  | Cap_Receipts
  | Cap_ChatMarkers
  | Cap_ChatStates
  | Cap_MessageReactions
  | Cap_MessageCorrections
  | Cap_MessageReplies
  | Cap_SharedPins

text \<open>The derived order of the enum: the position of the variant.\<close>

fun cap_index :: "protocol_capability \<Rightarrow> nat" where
  "cap_index Cap_MultiUserChat = 0"
| "cap_index Cap_MessageArchiveManagement = 1"
| "cap_index Cap_StreamManagement = 2"
| "cap_index Cap_HttpFileUpload = 3"
| "cap_index Cap_Omemo = 4"
| "cap_index Cap_PushNotifications = 5"
| "cap_index Cap_Receipts = 6"
| "cap_index Cap_ChatMarkers = 7"
| "cap_index Cap_ChatStates = 8"
| "cap_index Cap_MessageReactions = 9"
| "cap_index Cap_MessageCorrections = 10"
| "cap_index Cap_MessageReplies = 11"
| "cap_index Cap_SharedPins = 12"

lemma cap_index_inj [simp]: "cap_index a = cap_index b \<longleftrightarrow> a = b"
  by (cases a; cases b) auto

instantiation protocol_capability :: linorder
begin

definition less_eq_protocol_capability :: "protocol_capability \<Rightarrow> protocol_capability \<Rightarrow> bool" where
  "less_eq_protocol_capability a b \<longleftrightarrow> cap_index a \<le> cap_index b"

definition less_protocol_capability :: "protocol_capability \<Rightarrow> protocol_capability \<Rightarrow> bool" where
  "less_protocol_capability a b \<longleftrightarrow> cap_index a < cap_index b"

instance
  by standard (auto simp: less_eq_protocol_capability_def less_protocol_capability_def)

end

lemma UNIV_capability: "(UNIV :: protocol_capability set) =
  {Cap_MultiUserChat, Cap_MessageArchiveManagement, Cap_StreamManagement, Cap_HttpFileUpload,
   Cap_Omemo, Cap_PushNotifications, Cap_Receipts, Cap_ChatMarkers, Cap_ChatStates,
   Cap_MessageReactions, Cap_MessageCorrections, Cap_MessageReplies, Cap_SharedPins}"
  by (auto intro: protocol_capability.exhaust)

instance protocol_capability :: finite
  by standard (simp add: UNIV_capability)

section \<open>Proxy configuration\<close>

datatype proxy_kind = PK_Socks5 | PK_HttpConnect

record proxy_config =
  px_host :: ustr
  px_port :: u16
  px_kind :: proxy_kind

section \<open>Structs of the domain\<close>

record account_setup =
  setup_jid :: ustr
  setup_server :: ustr
  setup_display_name :: ustr

record account =
  acct_id :: account_id
  acct_jid :: ustr
  acct_server :: ustr
  acct_display_name :: ustr
  acct_connection_state :: connection_state
  acct_capabilities :: "protocol_capability set"
  acct_connection_error :: "ustr option"
  acct_disconnect_kind :: "disconnect_kind option"
  acct_auto_reconnect :: bool
  acct_proxies :: "proxy_config list"

record contact =
  ct_account_id :: account_id
  ct_jid :: ustr
  ct_display_name :: ustr
  ct_presence :: contact_presence
  ct_status :: "ustr option"
  ct_subscription :: roster_subscription

record conversation =
  cv_id :: conversation_id
  cv_account_id :: account_id
  cv_kind :: conversation_kind
  cv_address :: ustr
  cv_title :: ustr
  cv_unread_count :: u32
  cv_last_activity_epoch_ms :: u64

record attachment =
  att_id :: ustr
  att_filename :: ustr
  att_mime_type :: ustr
  att_byte_count :: u64
  att_remote_url :: "ustr option"

record message =
  msg_id :: message_id
  msg_conversation_id :: conversation_id
  msg_sender :: ustr
  msg_body :: ustr
  msg_direction :: message_direction
  msg_kind :: message_kind
  msg_sent_at_epoch_ms :: u64
  msg_delivery_state :: delivery_state
  msg_in_reply_to :: "message_id option"
  msg_attachment :: "attachment option"

record reaction =
  rx_id :: reaction_id
  rx_message_id :: message_id
  rx_emoji :: ustr
  rx_actor :: ustr

record core_snapshot =
  snap_accounts :: "account list"
  snap_contacts :: "contact list"
  snap_conversations :: "conversation list"
  snap_messages :: "message list"
  snap_reactions :: "reaction list"

text \<open>\<^verbatim>\<open>CoreSnapshot::default()\<close>.\<close>

definition empty_snapshot :: core_snapshot where
  "empty_snapshot = \<lparr>snap_accounts = [], snap_contacts = [], snap_conversations = [],
     snap_messages = [], snap_reactions = []\<rparr>"

section \<open>Events, commands and errors\<close>

datatype core_event =
    AccountChanged account_id
  | RosterChanged account_id
  | ConversationChanged conversation_id
  | MessageAdded message_id
  | MessageChanged message_id

datatype core_command =
    SendText conversation_id ustr "message_id option"
  | MarkConversationRead conversation_id
  | AddReaction message_id ustr

datatype core_error =
    InvalidJid
  | InvalidServer
  | InvalidConversationAddress
  | EmptyMessage
  | MessageTooLong
  | EmptyReaction
  | EmptyDisplayName
  | InvalidReplyTarget
  | UnknownAccount account_id
  | UnknownConversation conversation_id
  | UnknownMessage message_id
  | CapabilityUnavailable protocol_capability

text \<open>The derived \<^verbatim>\<open>Debug\<close> of a capability: the name of its variant.\<close>

fun cap_debug :: "protocol_capability \<Rightarrow> ustr" where
  "cap_debug Cap_MultiUserChat = lit ''MultiUserChat''"
| "cap_debug Cap_MessageArchiveManagement = lit ''MessageArchiveManagement''"
| "cap_debug Cap_StreamManagement = lit ''StreamManagement''"
| "cap_debug Cap_HttpFileUpload = lit ''HttpFileUpload''"
| "cap_debug Cap_Omemo = lit ''Omemo''"
| "cap_debug Cap_PushNotifications = lit ''PushNotifications''"
| "cap_debug Cap_Receipts = lit ''Receipts''"
| "cap_debug Cap_ChatMarkers = lit ''ChatMarkers''"
| "cap_debug Cap_ChatStates = lit ''ChatStates''"
| "cap_debug Cap_MessageReactions = lit ''MessageReactions''"
| "cap_debug Cap_MessageCorrections = lit ''MessageCorrections''"
| "cap_debug Cap_MessageReplies = lit ''MessageReplies''"
| "cap_debug Cap_SharedPins = lit ''SharedPins''"

definition show_u64 :: "u64 \<Rightarrow> ustr" where
  "show_u64 n = show_dec (unat n)"

text \<open>\<^verbatim>\<open>impl Display for CoreError\<close>.\<close>

fun core_error_display :: "core_error \<Rightarrow> ustr" where
  "core_error_display InvalidJid = lit ''a full JID is required''"
| "core_error_display InvalidServer = lit ''a server hostname is required''"
| "core_error_display InvalidConversationAddress = lit ''a full conversation address is required''"
| "core_error_display EmptyMessage = lit ''a message cannot be empty''"
| "core_error_display MessageTooLong = lit ''message exceeds the configured length limit''"
| "core_error_display EmptyReaction = lit ''a reaction cannot be empty''"
| "core_error_display EmptyDisplayName = lit ''a display name is required''"
| "core_error_display InvalidReplyTarget = lit ''a reply must target a message in the same conversation''"
| "core_error_display (UnknownAccount i) = lit ''unknown account '' @ show_u64 i"
| "core_error_display (UnknownConversation i) = lit ''unknown conversation '' @ show_u64 i"
| "core_error_display (UnknownMessage i) = lit ''unknown message '' @ show_u64 i"
| "core_error_display (CapabilityUnavailable c) = lit ''server does not advertise '' @ cap_debug c"

section \<open>The transport boundary\<close>

text \<open>\<^verbatim>\<open>SecretString\<close>: the wrapped password; \<open>secret_debug\<close> is its \<^verbatim>\<open>Debug\<close>.\<close>

datatype secret_string = SecretString (into_inner: ustr)

definition secret_debug :: "secret_string \<Rightarrow> ustr" where
  "secret_debug s = lit ''SecretString([redacted])''"

record connection_request =
  cr_account_id :: account_id
  cr_jid :: ustr
  cr_server :: ustr
  cr_password :: secret_string
  cr_auto_reconnect :: bool
  cr_proxy :: "proxy_config option"
  cr_proxy_password :: "secret_string option"

record outgoing_message =
  om_account_id :: account_id
  om_conversation_id :: conversation_id
  om_message_id :: message_id
  om_kind :: conversation_kind
  om_recipient :: ustr
  om_body :: ustr
  om_in_reply_to :: "message_id option"

datatype transport_event =
    Connected (ev_account: account_id) "protocol_capability set"
  | Disconnected (ev_account: account_id) bool "ustr option" disconnect_kind
  | CapabilitiesDiscovered (ev_account: account_id) "protocol_capability set"
  | RosterContactUpsert (ev_account: account_id) ustr ustr roster_subscription
  | RosterContactRemoved (ev_account: account_id) ustr
  | ContactPresenceUpdated (ev_account: account_id) ustr contact_presence "ustr option"
  | IncomingText (ev_account: account_id) conversation_kind ustr ustr ustr u64
  | DeliveryUpdated (ev_account: account_id) ustr message_id delivery_state

datatype transport_error =
    TE_AuthenticationFailed
  | TE_TlsVerification ustr
  | TE_ConnectionFailed ustr
  | TE_ProtocolViolation ustr
  | TE_Unsupported ustr

fun transport_error_display :: "transport_error \<Rightarrow> ustr" where
  "transport_error_display TE_AuthenticationFailed = lit ''authentication failed''"
| "transport_error_display (TE_TlsVerification d) = lit ''TLS verification failed: '' @ d"
| "transport_error_display (TE_ConnectionFailed d) = lit ''connection failed: '' @ d"
| "transport_error_display (TE_ProtocolViolation d) = lit ''protocol violation: '' @ d"
| "transport_error_display (TE_Unsupported d) = lit ''unsupported by transport: '' @ d"

text \<open>The four operations of the trait \<^verbatim>\<open>XmppTransport\<close>, over the adapter's own state \<open>'t\<close>.\<close>

record 't xmpp_transport =
  tr_connect :: "'t \<Rightarrow> connection_request \<Rightarrow> (transport_error + unit) \<times> 't"
  tr_disconnect :: "'t \<Rightarrow> account_id \<Rightarrow> (transport_error + unit) \<times> 't"
  tr_send :: "'t \<Rightarrow> outgoing_message \<Rightarrow> (transport_error + unit) \<times> 't"
  tr_next_event :: "'t \<Rightarrow> (transport_error + transport_event option) \<times> 't"

text \<open>\<^verbatim>\<open>TransportCoordinatorError\<close>.\<close>

datatype coordinator_error = CE_Core core_error | CE_Transport transport_error

fun coordinator_error_display :: "coordinator_error \<Rightarrow> ustr" where
  "coordinator_error_display (CE_Core e) = lit ''core error: '' @ core_error_display e"
| "coordinator_error_display (CE_Transport e) = lit ''transport error: '' @ transport_error_display e"

end
