(* ===== verification/Net_Addr.thy ===== *)
theory Net_Addr
  imports Rust_Text
begin

text \<open>
  The parsers of \<^verbatim>\<open>std::net::Ipv4Addr\<close> and \<^verbatim>\<open>Ipv6Addr\<close>, which the proxy and the endpoint code use to
  tell IP literals from host names. A reader takes the text left and returns what it read with the
  rest, or \<open>None\<close>; the caller then still has the text it started from.
\<close>

type_synonym 'a reader = "ustr \<Rightarrow> ('a \<times> ustr) option"

definition colon :: uchar where "colon = 58"
definition dot :: uchar where "dot = 46"

text \<open>\<^verbatim>\<open>char::to_digit(radix)\<close> for the radices 10 and 16.\<close>

definition to_digit :: "nat \<Rightarrow> uchar \<Rightarrow> nat option" where
  "to_digit radix c =
     (let d = (if 48 \<le> c \<and> c \<le> 57 then Some (c - 48)
               else if 97 \<le> c \<and> c \<le> 122 then Some (c - 87)
               else if 65 \<le> c \<and> c \<le> 90 then Some (c - 55) else None)
      in case d of None \<Rightarrow> None | Some v \<Rightarrow> if v < radix then Some v else None)"

text \<open>The loop of \<^verbatim>\<open>read_number\<close>: the value so far and the number of digits; a value past \<open>bound\<close> or a
  digit too many is a failure.\<close>

fun read_digits :: "nat \<Rightarrow> nat \<Rightarrow> nat \<Rightarrow> nat \<Rightarrow> nat \<Rightarrow> (nat \<times> nat) reader" where
  "read_digits radix bound max_digits v n [] = Some ((v, n), [])"
| "read_digits radix bound max_digits v n (c # s) =
     (case to_digit radix c of
        None \<Rightarrow> Some ((v, n), c # s)
      | Some d \<Rightarrow>
          if bound < v * radix + d \<or> max_digits < n + 1 then None
          else read_digits radix bound max_digits (v * radix + d) (n + 1) s)"

definition read_number :: "nat \<Rightarrow> nat \<Rightarrow> nat \<Rightarrow> bool \<Rightarrow> nat reader" where
  "read_number radix bound max_digits allow_zero_prefix s =
     (case read_digits radix bound max_digits 0 0 s of
        None \<Rightarrow> None
      | Some ((v, n), r) \<Rightarrow>
          if n = 0 \<or> (\<not> allow_zero_prefix \<and> hd s = 48 \<and> 1 < n) then None else Some (v, r))"

text \<open>\<^verbatim>\<open>read_separator(sep, index, inner)\<close>.\<close>

definition read_separator :: "uchar \<Rightarrow> nat \<Rightarrow> 'a reader \<Rightarrow> 'a reader" where
  "read_separator sep index inner s =
     (if 0 < index then (case s of c # r \<Rightarrow> if c = sep then inner r else None | [] \<Rightarrow> None)
      else inner s)"

fun read_octets :: "nat \<Rightarrow> nat \<Rightarrow> u8 list reader" where
  "read_octets 0 i s = Some ([], s)"
| "read_octets (Suc k) i s =
     (case read_separator dot i (read_number 10 255 3 False) s of
        None \<Rightarrow> None
      | Some (v, r) \<Rightarrow> (case read_octets k (i + 1) r of
            None \<Rightarrow> None
          | Some (os, r') \<Rightarrow> Some (of_nat v # os, r')))"

definition read_ipv4 :: "u8 list reader" where
  "read_ipv4 = read_octets 4 0"

definition u16_bytes :: "nat \<Rightarrow> u8 list" where
  "u16_bytes v = [of_nat (v div 256), of_nat (v mod 256)]"

text \<open>\<^verbatim>\<open>read_groups\<close> with \<open>left\<close> slots left, at position \<open>i\<close>: the bytes of the groups read, whether
  the last two came from an IPv4 address, and the rest.\<close>

fun read_groups :: "nat \<Rightarrow> nat \<Rightarrow> ustr \<Rightarrow> u8 list \<times> bool \<times> ustr" where
  "read_groups 0 i s = ([], False, s)"
| "read_groups (Suc left) i s =
     (case (if 0 < left then read_separator colon i read_ipv4 s else None) of
        Some (v4, r) \<Rightarrow> (v4, True, r)
      | None \<Rightarrow>
          (case read_separator colon i (read_number 16 65535 4 True) s of
             None \<Rightarrow> ([], False, s)
           | Some (g, r) \<Rightarrow> (case read_groups left (i + 1) r of
                 (gs, b, r') \<Rightarrow> (u16_bytes g @ gs, b, r'))))"

definition read_ipv6 :: "u8 list reader" where
  "read_ipv6 s =
     (case read_groups 8 0 s of (head, head_ipv4, r) \<Rightarrow>
        if length head = 16 then Some (head, r)
        else if head_ipv4 then None
        else (case r of
            a # b # r1 \<Rightarrow>
              if a = colon \<and> b = colon
              then (case read_groups (8 - (length head div 2 + 1)) 0 r1 of (tail, _, r2) \<Rightarrow>
                     Some (head @ replicate (16 - length head - length tail) 0 @ tail, r2))
              else None
          | _ \<Rightarrow> None))"

text \<open>\<^verbatim>\<open>parse::<Ipv4Addr>()\<close> and \<^verbatim>\<open>parse::<Ipv6Addr>()\<close> with \<^verbatim>\<open>octets()\<close>: the reader has to use up the
  text, and an IPv4 text is at most 15 bytes long.\<close>

definition parse_ipv4 :: "ustr \<Rightarrow> u8 list option" where
  "parse_ipv4 s = (if 15 < length (as_bytes s) then None
     else case read_ipv4 s of Some (os, []) \<Rightarrow> Some os | _ \<Rightarrow> None)"

definition parse_ipv6 :: "ustr \<Rightarrow> u8 list option" where
  "parse_ipv6 s = (case read_ipv6 s of Some (os, []) \<Rightarrow> Some os | _ \<Rightarrow> None)"

section \<open>Lengths\<close>

lemma read_octets_length: "read_octets k i s = Some (os, r) \<Longrightarrow> length os = k"
  by (induction k arbitrary: i s os r) (auto split: option.splits)

lemma parse_ipv4_length: "parse_ipv4 s = Some os \<Longrightarrow> length os = 4"
  by (auto simp: parse_ipv4_def read_ipv4_def dest: read_octets_length split: if_splits option.splits list.splits)

lemma read_separator_length:
  assumes "\<And>t x r. inner t = Some (x, r) \<Longrightarrow> P x" and "read_separator c i inner s = Some (x, r)"
  shows "P x"
  using assms by (auto simp: read_separator_def split: if_splits list.splits)

lemma read_groups_length:
  "read_groups n i s = (gs, b, r) \<Longrightarrow> even (length gs) \<and> length gs \<le> 2 * n"
proof (induction n arbitrary: i s gs b r)
  case (Suc n)
  show ?case
  proof (cases "if 0 < n then read_separator colon i read_ipv4 s else None")
    case (Some p)
    then obtain v4 q where "read_separator colon i read_ipv4 s = Some (v4, q)" "0 < n" "p = (v4, q)"
      by (cases p) (auto split: if_splits)
    moreover have "length v4 = 4" if "read_separator colon i read_ipv4 s = Some (v4, q)" for v4 q
      using read_separator_length [where P = "\<lambda>x. length x = 4", OF _ that]
      by (auto simp: read_ipv4_def dest: read_octets_length)
    ultimately show ?thesis using Suc.prems by auto
  next
    case None
    with Suc.prems show ?thesis
      by (cases "read_separator colon i (read_number 16 65535 4 True) s")
        (auto simp: u16_bytes_def split: prod.splits dest!: Suc.IH)
  qed
qed simp

lemma parse_ipv6_length: "parse_ipv6 s = Some os \<Longrightarrow> length os = 16"
proof -
  assume p: "parse_ipv6 s = Some os"
  obtain head h4 r where h: "read_groups 8 0 s = (head, h4, r)" by (metis prod_cases3)
  have "even (length head)" "length head \<le> 16" using read_groups_length [OF h] by simp_all
  then obtain k where k: "length head = 2 * k" "k \<le> 8" by (auto elim: evenE)
  show "length os = 16"
  proof (cases "length head = 16")
    case True
    with p h show ?thesis by (auto simp: parse_ipv6_def read_ipv6_def split: list.splits)
  next
    case False
    then obtain r1 where r1: "r = colon # colon # r1" "\<not> h4"
      using p h by (auto simp: parse_ipv6_def read_ipv6_def split: list.splits if_splits)
    obtain tail t4 r2 where t: "read_groups (7 - k) 0 r1 = (tail, t4, r2)" by (metis prod_cases3)
    have "length tail \<le> 2 * (7 - k)" using read_groups_length [OF t] by simp
    with k False have "length head + length tail \<le> 16" by linarith
    with p h r1 t k False show ?thesis
      by (auto simp: parse_ipv6_def read_ipv6_def split: list.splits if_splits)
  qed
qed

text \<open>A name whose first character is neither a hexadecimal digit nor a colon is not an IP literal.\<close>

lemma not_ip_literal:
  assumes "to_digit 16 c = None" and "c \<noteq> colon"
  shows "parse_ipv4 (c # s) = None" and "parse_ipv6 (c # s) = None"
proof -
  have "to_digit 10 c = None"
    using assms(1) by (auto simp: to_digit_def Let_def split: if_splits)
  then have "read_number 10 255 3 False (c # s) = None"
    by (simp add: read_number_def)
  then have v4: "read_ipv4 (c # s) = None"
    using read_octets.simps(2) [of 3 0 "c # s"] by (simp add: read_ipv4_def read_separator_def)
  then show "parse_ipv4 (c # s) = None" by (simp add: parse_ipv4_def)
  have "read_number 16 65535 4 True (c # s) = None"
    using assms(1) by (simp add: read_number_def)
  with v4 have "read_groups 8 0 (c # s) = ([], False, c # s)"
    using read_groups.simps(2) [of 7 0 "c # s"] by (simp add: read_separator_def)
  with assms(2) show "parse_ipv6 (c # s) = None"
    by (simp add: parse_ipv6_def read_ipv6_def split: list.splits)
qed

lemma parse_ipv4_examples:
  "parse_ipv4 (lit ''127.0.0.1'') = Some [127, 0, 0, 1]" "parse_ipv4 (lit ''127.0.0.01'') = None"
  "parse_ipv4 (lit ''256.0.0.1'') = None"
  by (simp_all add: parse_ipv4_def read_ipv4_def numeral_eq_Suc read_number_def read_separator_def to_digit_def lit_def dot_def as_bytes_def
      utf8_def utf8_char_def)

end
