(* ===== verification/Proxy_Config.thy ===== *)
theory Proxy_Config
  imports Domain_Types Net_Addr
begin

text \<open>
  The configuration side of \<^verbatim>\<open>proxy.rs\<close>: connect strategies, proxy configurations, tunnel targets,
  their validation, and the proxy errors. A text constant of the source is written with \<open>lit\<close>.
\<close>

section \<open>Strategies and kinds\<close>

datatype connect_strategy = ST_Direct | ST_HttpConnect | ST_Socks5

fun strategy_as_str :: "connect_strategy \<Rightarrow> ustr" where
  "strategy_as_str ST_Direct = lit ''direct''"
| "strategy_as_str ST_HttpConnect = lit ''http_connect''"
| "strategy_as_str ST_Socks5 = lit ''socks5''"

definition strategy_from_name :: "ustr \<Rightarrow> connect_strategy option" where
  "strategy_from_name name =
     (if name = lit ''direct'' then Some ST_Direct
      else if name = lit ''http_connect'' then Some ST_HttpConnect
      else if name = lit ''socks5'' then Some ST_Socks5
      else None)"

datatype unknown_connect_strategy = UnknownConnectStrategy

definition strategy_from_str :: "ustr \<Rightarrow> unknown_connect_strategy + connect_strategy" where
  "strategy_from_str name = ok_or (strategy_from_name name) UnknownConnectStrategy"

fun proxy_kind_as_str :: "proxy_kind \<Rightarrow> ustr" where
  "proxy_kind_as_str PK_Socks5 = lit ''socks5''"
| "proxy_kind_as_str PK_HttpConnect = lit ''http_connect''"

fun strategy_of_kind :: "proxy_kind \<Rightarrow> connect_strategy" where
  "strategy_of_kind PK_Socks5 = ST_Socks5"
| "strategy_of_kind PK_HttpConnect = ST_HttpConnect"

section \<open>Errors and probes\<close>

datatype proxy_error =
    PE_Io ustr
  | PE_InvalidConfig ustr
  | PE_SocksProtocol ustr
  | PE_SocksMethodRejected
  | PE_SocksAuthRejected
  | PE_SocksConnectFailed u8
  | PE_HttpStatus u16 ustr
  | PE_HttpMalformed ustr

fun proxy_error_display :: "proxy_error \<Rightarrow> ustr" where
  "proxy_error_display (PE_Io detail) = lit ''proxy I/O error: '' @ detail"
| "proxy_error_display (PE_InvalidConfig detail) = lit ''invalid proxy configuration: '' @ detail"
| "proxy_error_display (PE_SocksProtocol detail) = lit ''SOCKS5 protocol error: '' @ detail"
| "proxy_error_display PE_SocksMethodRejected =
     lit ''the SOCKS5 proxy rejected every offered authentication method''"
| "proxy_error_display PE_SocksAuthRejected = lit ''the SOCKS5 proxy refused the supplied credentials''"
| "proxy_error_display (PE_SocksConnectFailed reply) =
     lit ''the SOCKS5 proxy refused the tunnel (reply code '' @ show_dec (unat reply) @ lit '')''"
| "proxy_error_display (PE_HttpStatus status reason) =
     lit ''the HTTP proxy refused the tunnel (status '' @ show_dec (unat status)
       @ (if reason = [] then [] else lit '': '') @ reason @ lit '')''"
| "proxy_error_display (PE_HttpMalformed detail) = lit ''malformed HTTP proxy response: '' @ detail"

record probe_outcome =
  pp_ok :: bool
  pp_latency_ms :: u64
  pp_error :: "ustr option"

text \<open>\<^verbatim>\<open>probe_from_result\<close>: the latency in milliseconds saturates at \<^verbatim>\<open>u64::MAX\<close>.\<close>

definition probe_from_result :: "proxy_error + unit \<Rightarrow> nat \<Rightarrow> probe_outcome" where
  "probe_from_result result latency_millis =
     (let latency_ms = (if latency_millis < 2 ^ 64 then of_nat latency_millis else - 1)
      in case result of
           Inr _ \<Rightarrow> \<lparr>pp_ok = True, pp_latency_ms = latency_ms, pp_error = None\<rparr>
         | Inl e \<Rightarrow> \<lparr>pp_ok = False, pp_latency_ms = latency_ms, pp_error = Some (proxy_error_display e)\<rparr>)"

section \<open>Configurations and targets\<close>

definition PROXY_DEFAULT_TLS_PORT :: u16 where
  "PROXY_DEFAULT_TLS_PORT = 5223"

text \<open>The check looks at the trimmed host, the callers keep the host they were given.\<close>

definition validate_host :: "ustr \<Rightarrow> proxy_error + unit" where
  "validate_host host =
     (let host = trim host
      in if host = [] then Inl (PE_InvalidConfig (lit ''a proxy or tunnel host is required''))
         else if has_ws host \<or> 13 \<in> set host \<or> 10 \<in> set host
         then Inl (PE_InvalidConfig (lit ''a proxy or tunnel host must not contain whitespace or line breaks''))
         else Inr ())"

definition proxy_config_new :: "ustr \<Rightarrow> u16 \<Rightarrow> proxy_kind \<Rightarrow> proxy_error + proxy_config" where
  "proxy_config_new host port kind =
     (case validate_host host of
        Inl e \<Rightarrow> Inl e
      | Inr _ \<Rightarrow>
          if port = 0 then Inl (PE_InvalidConfig (lit ''a proxy port must not be zero''))
          else Inr \<lparr>px_host = host, px_port = port, px_kind = kind\<rparr>)"

record proxy_target =
  pt_host :: ustr
  pt_port :: u16

definition proxy_target_new :: "ustr \<Rightarrow> u16 \<Rightarrow> proxy_error + proxy_target" where
  "proxy_target_new host port =
     (case validate_host host of
        Inl e \<Rightarrow> Inl e
      | Inr _ \<Rightarrow>
          if port = 0 then Inl (PE_InvalidConfig (lit ''a tunnel port must not be zero''))
          else Inr \<lparr>pt_host = host, pt_port = port\<rparr>)"

text \<open>\<^verbatim>\<open>port.parse::<u16>()\<close> with the error of \<^verbatim>\<open>split_host_and_port\<close>.\<close>

definition parse_port :: "ustr \<Rightarrow> proxy_error + u16" where
  "parse_port port =
     (case parse_uint 16 port of
        None \<Rightarrow> Inl (PE_InvalidConfig (lit ''invalid server port''))
      | Some n \<Rightarrow> Inr (of_nat n))"

definition split_host_and_port :: "ustr \<Rightarrow> proxy_error + (ustr \<times> u16) option" where
  "split_host_and_port server =
     (case strip_prefix (lit ''['') server of
        Some rest \<Rightarrow>
          (case split_once 93 rest of
             None \<Rightarrow> Inl (PE_InvalidConfig (lit ''invalid bracketed server''))
           | Some (host, suffix) \<Rightarrow>
               if suffix = [] then Inr None
               else (case strip_prefix [colon] suffix of
                   None \<Rightarrow> Inl (PE_InvalidConfig (lit ''invalid server port''))
                 | Some port \<Rightarrow> (case parse_port port of Inl e \<Rightarrow> Inl e | Inr p \<Rightarrow> Inr (Some (host, p)))))
      | None \<Rightarrow>
          (if length (filter (\<lambda>c. c = colon) server) = 1
           then (case rsplit_once colon server of
                   None \<Rightarrow> Inr None
                 | Some (host, port) \<Rightarrow>
                     (case parse_port port of Inl e \<Rightarrow> Inl e | Inr p \<Rightarrow> Inr (Some (host, p))))
           else Inr None))"

definition proxy_target_from_server :: "ustr \<Rightarrow> proxy_error + proxy_target" where
  "proxy_target_from_server server =
     (let server = trim server
      in if server = [] then Inl (PE_InvalidConfig (lit ''the XMPP server is empty''))
         else (case split_host_and_port server of
             Inl e \<Rightarrow> Inl e
           | Inr (Some (host, port)) \<Rightarrow> proxy_target_new host port
           | Inr None \<Rightarrow> proxy_target_new server PROXY_DEFAULT_TLS_PORT))"

section \<open>What the configuration functions accept\<close>

lemma strategy_literals [simp]:
  "lit ''direct'' \<noteq> lit ''http_connect''" "lit ''direct'' \<noteq> lit ''socks5''" "lit ''http_connect'' \<noteq> lit ''socks5''"
  by (simp_all add: lit_def)

text \<open>The name of a connect strategy, which the settings and the bindings store, is parsed back to
  the strategy it came from, and no other text is the name of a strategy.\<close>

lemma strategy_name_roundtrip:
  "strategy_from_str n = Inr s \<longleftrightarrow> n = strategy_as_str s"
  by (cases s) (auto simp: strategy_from_str_def strategy_from_name_def)

text \<open>A host field that can stand in a server field as it is: no whitespace, no colon, no bracket.\<close>

definition plain_host :: "ustr \<Rightarrow> bool" where
  "plain_host h \<longleftrightarrow> h \<noteq> [] \<and> \<not> has_ws h \<and> colon \<notin> set h \<and> 91 \<notin> set h"

lemma crlf_ws: "\<not> has_ws s \<Longrightarrow> 13 \<notin> set s \<and> 10 \<notin> set s"
proof -
  have "is_ws 13" "is_ws 10" by (simp_all add: is_ws_def)
  then show "\<not> has_ws s \<Longrightarrow> 13 \<notin> set s \<and> 10 \<notin> set s" unfolding has_ws_iff by blast
qed

lemma validate_plain: "h \<noteq> [] \<Longrightarrow> \<not> has_ws h \<Longrightarrow> validate_host h = Inr ()"
  using crlf_ws [of h] by (simp add: validate_host_def trim_no_ws Let_def)

lemma digit_plain: "is_digit c \<Longrightarrow> \<not> is_ws c \<and> c \<noteq> colon"
  unfolding is_digit_def is_ws_def colon_def by presburger

lemma digits_no_ws: "\<not> has_ws (show_dec n)"
  using show_dec_digits [of n] digit_plain by (fastforce simp: has_ws_iff list_all_iff)

lemma digits_no_colon: "colon \<notin> set (show_dec n)"
  using show_dec_digits [of n] digit_plain by (auto simp: list_all_iff)

lemma plain_not_bracket: "91 \<notin> set h \<Longrightarrow> h \<noteq> [] \<Longrightarrow> strip_prefix (lit ''['') (h @ r) = None"
  by (cases h) (auto simp: strip_prefix_def lit_def)

lemma filter_none: "c \<notin> set xs \<Longrightarrow> filter (\<lambda>x. x = c) xs = []"
  by (induction xs) auto

lemma split_plain_port:
  assumes "plain_host h" and "n < 65536"
  shows "split_host_and_port (h @ [colon] @ show_dec n) = Inr (Some (h, of_nat n))"
proof -
  have "strip_prefix (lit ''['') (h @ [colon] @ show_dec n) = None"
    using assms(1) by (intro plain_not_bracket) (auto simp: plain_host_def)
  moreover have "filter (\<lambda>c. c = colon) (h @ [colon] @ show_dec n) = [colon]"
    using assms(1) digits_no_colon [of n] by (simp add: filter_none plain_host_def)
  moreover have "rsplit_once colon (h @ [colon] @ show_dec n) = Some (h, show_dec n)"
    using digits_no_colon [of n] by (simp add: rsplit_once_Some)
  moreover have "parse_port (show_dec n) = Inr (of_nat n)"
    using parse_uint_show_dec [of n 16] assms(2) by (simp add: parse_port_def)
  ultimately show ?thesis by (simp add: split_host_and_port_def del: append_Cons)
qed

lemma split_plain:
  assumes "plain_host h"
  shows "split_host_and_port h = Inr None"
proof -
  have "strip_prefix (lit ''['') h = None"
    using plain_not_bracket [of h "[]"] assms by (simp add: plain_host_def)
  with assms show ?thesis by (simp add: split_host_and_port_def filter_none plain_host_def)
qed

text \<open>A server field that is a host, or a host and a decimal port, becomes that host verbatim and
  that port, with the direct-TLS port 5223 when none is given; port 0 is refused.\<close>

lemma target_from_server_spec:
  assumes "plain_host h" and "n < 65536"
  shows "proxy_target_from_server h = Inr \<lparr>pt_host = h, pt_port = 5223\<rparr>
    \<and> proxy_target_from_server (h @ [colon] @ show_dec n) =
       (if n = 0 then Inl (PE_InvalidConfig (lit ''a tunnel port must not be zero''))
        else Inr \<lparr>pt_host = h, pt_port = of_nat n\<rparr>)"
proof -
  have h: "h \<noteq> []" "\<not> has_ws h" using assms(1) by (simp_all add: plain_host_def)
  have t: "trim h = h" "trim (h @ [colon] @ show_dec n) = h @ [colon] @ show_dec n"
    using h digits_no_ws [of n] by (auto intro!: trim_no_ws simp: colon_def is_ws_def)
  have zero: "(of_nat n :: u16) = 0 \<longleftrightarrow> n = 0"
    using assms(2) nat_dvd_not_less [of n 65536] by (auto simp: word_of_nat_eq_0_iff)
  show ?thesis
    using h t split_plain [OF assms(1)] split_plain_port [OF assms] zero
    by (simp add: proxy_target_from_server_def proxy_target_new_def validate_plain PROXY_DEFAULT_TLS_PORT_def Let_def
        del: append_Cons)
qed

end
