(* ===== verification/Validation.thy ===== *)
theory Validation
  imports Domain_Types
begin

text \<open>
  The input validation and normalisation functions at the end of \<^verbatim>\<open>lib.rs\<close>. Each check is
  characterised by the inputs it accepts, and each normalisation by what it returns.
\<close>

section \<open>Definitions\<close>

definition MAX_MESSAGE_CHARS :: nat where
  "MAX_MESSAGE_CHARS = 16384"

definition at_sign :: uchar where "at_sign = 64"

definition slash :: uchar where "slash = 47"

fun delivery_rank :: "delivery_state \<Rightarrow> nat" where
  "delivery_rank DS_Pending = 0"
| "delivery_rank DS_Failed = 1"
| "delivery_rank DS_Sent = 2"
| "delivery_rank DS_Delivered = 3"
| "delivery_rank DS_Read = 4"

text \<open>\<^verbatim>\<open>iterator.next().unwrap_or_default()\<close> for the piece at a position.\<close>

definition piece :: "ustr list \<Rightarrow> nat \<Rightarrow> ustr" where
  "piece ps i = (if i < length ps then ps ! i else [])"

definition validate_jid :: "ustr \<Rightarrow> core_error + unit" where
  "validate_jid jid =
     (let split = split_on at_sign jid; local = piece split 0; domain = piece split 1
      in if trim local = [] \<or> trim domain = [] \<or> has_ws local \<or> has_ws domain
            \<or> slash \<in> set domain \<or> 2 < length split
         then Inl InvalidJid else Inr ())"

definition validate_server :: "ustr \<Rightarrow> core_error + unit" where
  "validate_server server =
     (if trim server \<noteq> [] \<and> \<not> has_ws server then Inr () else Inl InvalidServer)"

definition validate_conversation_address :: "ustr \<Rightarrow> core_error + unit" where
  "validate_conversation_address address =
     map_err (\<lambda>_. InvalidConversationAddress) (validate_jid address)"

definition normalize_contact_name :: "ustr \<Rightarrow> ustr \<Rightarrow> ustr" where
  "normalize_contact_name display_name jid =
     (case trim display_name of [] \<Rightarrow> hd (split_on at_sign jid) | value \<Rightarrow> value)"

definition normalize_status :: "ustr option \<Rightarrow> ustr option" where
  "normalize_status status =
     (case status of None \<Rightarrow> None | Some value \<Rightarrow> (case trim value of [] \<Rightarrow> None | v \<Rightarrow> Some v))"

definition validate_body :: "ustr \<Rightarrow> core_error + ustr" where
  "validate_body body =
     (let trimmed = trim body
      in if trimmed = [] then Inl EmptyMessage
         else if MAX_MESSAGE_CHARS < length trimmed then Inl MessageTooLong
         else Inr trimmed)"

section \<open>What the checks accept\<close>

text \<open>A bare JID: one \<^verbatim>\<open>@\<close> between a local part and a domain, neither empty nor with whitespace.\<close>

definition bare_jid :: "ustr \<Rightarrow> bool" where
  "bare_jid jid \<longleftrightarrow> (\<exists>local domain. jid = local @ at_sign # domain \<and> local \<noteq> [] \<and> domain \<noteq> []
     \<and> at_sign \<notin> set local \<and> at_sign \<notin> set domain \<and> slash \<notin> set domain
     \<and> \<not> has_ws local \<and> \<not> has_ws domain)"

lemma piece_simps [simp]:
  "piece (a # b # ps) 1 = b" "piece (a # ps) 0 = a" "piece [a] 1 = []"
  "piece (a # b # ps) (Suc 0) = b" "piece [a] (Suc 0) = []"
  by (simp_all add: piece_def)

lemma validate_jid_iff: "validate_jid jid = Inr () \<longleftrightarrow> bare_jid jid"
proof
  assume v: "validate_jid jid = Inr ()"
  show "bare_jid jid"
  proof (cases "split_on at_sign jid")
    case (Cons a ps)
    show ?thesis
    proof (cases ps)
      case Nil
      with v Cons show ?thesis by (simp add: validate_jid_def Let_def)
    next
      case (Cons b qs)
      with v \<open>split_on at_sign jid = a # ps\<close> have "split_on at_sign jid = [a, b]"
        and ab: "trim a \<noteq> []" "trim b \<noteq> []" "\<not> has_ws a" "\<not> has_ws b" "slash \<notin> set b"
        by (auto simp: validate_jid_def Let_def split: if_splits)
      then have "jid = a @ at_sign # b \<and> at_sign \<notin> set a \<and> at_sign \<notin> set b"
        by (simp add: split_on_pair_iff)
      with ab show ?thesis unfolding bare_jid_def by (metis trim_Nil)
    qed
  qed simp
next
  assume "bare_jid jid"
  then obtain l d where "split_on at_sign jid = [l, d]" "l \<noteq> []" "d \<noteq> []" "slash \<notin> set d"
    "\<not> has_ws l" "\<not> has_ws d"
    unfolding bare_jid_def by (metis split_on_pair_iff)
  then show "validate_jid jid = Inr ()"
    by (simp add: validate_jid_def trim_no_ws)
qed

lemma validate_jid_cases: "validate_jid jid = (if bare_jid jid then Inr () else Inl InvalidJid)"
  using validate_jid_iff [of jid] by (auto simp: validate_jid_def Let_def split: if_splits)

lemma validate_address_cases:
  "validate_conversation_address a = (if bare_jid a then Inr () else Inl InvalidConversationAddress)"
  by (simp add: validate_conversation_address_def validate_jid_cases)

definition server_name :: "ustr \<Rightarrow> bool" where
  "server_name s \<longleftrightarrow> s \<noteq> [] \<and> \<not> has_ws s"

lemma validate_server_cases: "validate_server s = (if server_name s then Inr () else Inl InvalidServer)"
  by (auto simp: validate_server_def server_name_def trim_no_ws)

lemma bare_jid_local: "bare_jid jid \<Longrightarrow> hd (split_on at_sign jid) \<noteq> [] \<and> \<not> has_ws (hd (split_on at_sign jid))"
  unfolding bare_jid_def by (metis list.sel(1) split_on_pair_iff)

text \<open>A text as it is stored: not empty and without surrounding whitespace.\<close>

definition trimmed :: "ustr \<Rightarrow> bool" where
  "trimmed s \<longleftrightarrow> s \<noteq> [] \<and> trim s = s"

lemma normalize_contact_name_trimmed:
  assumes "bare_jid jid"
  shows "trimmed (normalize_contact_name name jid)"
proof (cases "trim name")
  case Nil
  with bare_jid_local [OF assms] show ?thesis
    by (simp add: normalize_contact_name_def trimmed_def trim_no_ws)
next
  case (Cons c cs)
  moreover have "trim (trim name) = trim name" by simp
  ultimately show ?thesis by (simp add: normalize_contact_name_def trimmed_def)
qed

lemma normalize_status_trimmed: "normalize_status st = Some s \<Longrightarrow> trimmed s"
  using trim_trim [of "the st"]
  by (auto simp: normalize_status_def trimmed_def split: option.splits list.splits)

definition body_ok :: "ustr \<Rightarrow> bool" where
  "body_ok b \<longleftrightarrow> trimmed b \<and> length b \<le> MAX_MESSAGE_CHARS"

lemma validate_body_Inr: "validate_body b = Inr t \<longleftrightarrow> t = trim b \<and> body_ok (trim b)"
  by (auto simp: validate_body_def body_ok_def trimmed_def Let_def)

lemma validate_body_errors:
  "validate_body b = Inl e \<longleftrightarrow>
     (trim b = [] \<and> e = EmptyMessage) \<or> (MAX_MESSAGE_CHARS < length (trim b) \<and> e = MessageTooLong)"
  by (auto simp: validate_body_def MAX_MESSAGE_CHARS_def Let_def)

lemma validate_body_idem: "validate_body b = Inr t \<Longrightarrow> validate_body t = Inr t"
  by (simp add: validate_body_Inr)

end
