(* ===== verification/Core_State.thy ===== *)
theory Core_State
  imports Validation "HOL-Library.Product_Lexorder" "HOL-Library.List_Lexorder"
begin

text \<open>
  The state of \<^verbatim>\<open>MindChatCore\<close> (\<^verbatim>\<open>lib.rs\<close>), its private helpers, its snapshots, and the
  well-formedness invariant \<open>wf_core\<close> that the operations of the later theories keep.

  A method on \<^verbatim>\<open>&mut self\<close> is a function that returns its result beside the new state; a
  \<^verbatim>\<open>Result\<close> is a sum with the error on the left.
\<close>

section \<open>State\<close>

record mindchat_core =
  next_account_id :: account_id
  next_conversation_id :: conversation_id
  next_message_id :: message_id
  next_reaction_id :: reaction_id
  core_accounts :: "(account_id, account) hmap"
  core_contacts :: "(account_id \<times> ustr, contact) hmap"
  core_conversations :: "(conversation_id, conversation) hmap"
  core_messages :: "(message_id, message) hmap"
  core_reactions :: "(reaction_id, reaction) hmap"
  core_events :: "core_event list"

type_synonym 'a core_result = "(core_error + 'a) \<times> mindchat_core"

definition default_core :: mindchat_core where
  "default_core = \<lparr>next_account_id = 0, next_conversation_id = 0, next_message_id = 0,
     next_reaction_id = 0, core_accounts = [], core_contacts = [], core_conversations = [],
     core_messages = [], core_reactions = [], core_events = []\<rparr>"

definition push_event :: "core_event \<Rightarrow> mindchat_core \<Rightarrow> mindchat_core" where
  "push_event e c = c\<lparr>core_events := core_events c @ [e]\<rparr>"

section \<open>Snapshots\<close>

text \<open>\<^verbatim>\<open>items.map(|item| item.id).max().unwrap_or(0) + 1\<close>, which wraps past the last identifier.\<close>

definition next_id :: "('v \<Rightarrow> u64) \<Rightarrow> 'v list \<Rightarrow> u64" where
  "next_id idf vs = fold max (map idf vs) 0 + 1"

definition contact_key :: "contact \<Rightarrow> account_id \<times> ustr" where
  "contact_key item = (ct_account_id item, ct_jid item)"

definition from_snapshot :: "core_snapshot \<Rightarrow> mindchat_core" where
  "from_snapshot snapshot = \<lparr>
     next_account_id = next_id acct_id (snap_accounts snapshot),
     next_conversation_id = next_id cv_id (snap_conversations snapshot),
     next_message_id = next_id msg_id (snap_messages snapshot),
     next_reaction_id = next_id rx_id (snap_reactions snapshot),
     core_accounts = hm_collect acct_id (snap_accounts snapshot),
     core_contacts = hm_collect contact_key (snap_contacts snapshot),
     core_conversations = hm_collect cv_id (snap_conversations snapshot),
     core_messages = hm_collect msg_id (snap_messages snapshot),
     core_reactions = hm_collect rx_id (snap_reactions snapshot),
     core_events = []\<rparr>"

definition snapshot :: "mindchat_core \<Rightarrow> core_snapshot" where
  "snapshot c = \<lparr>
     snap_accounts = sort_key acct_id (hm_values (core_accounts c)),
     snap_contacts = sort_key contact_key (hm_values (core_contacts c)),
     snap_conversations = sort_key cv_id (hm_values (core_conversations c)),
     snap_messages = sort_key msg_id (hm_values (core_messages c)),
     snap_reactions = sort_key rx_id (hm_values (core_reactions c))\<rparr>"

section \<open>Accessors\<close>

definition accounts :: "mindchat_core \<Rightarrow> account list" where
  "accounts c = snap_accounts (snapshot c)"

definition conversations :: "mindchat_core \<Rightarrow> account_id \<Rightarrow> conversation list" where
  "conversations c account_id = filter (\<lambda>item. cv_account_id item = account_id) (snap_conversations (snapshot c))"

definition contacts :: "mindchat_core \<Rightarrow> account_id \<Rightarrow> contact list" where
  "contacts c account_id = filter (\<lambda>item. ct_account_id item = account_id) (snap_contacts (snapshot c))"

definition messages :: "mindchat_core \<Rightarrow> conversation_id \<Rightarrow> message list" where
  "messages c conversation_id =
     filter (\<lambda>item. msg_conversation_id item = conversation_id) (snap_messages (snapshot c))"

definition reactions :: "mindchat_core \<Rightarrow> message_id \<Rightarrow> reaction list" where
  "reactions c message_id = filter (\<lambda>item. rx_message_id item = message_id) (snap_reactions (snapshot c))"

section \<open>Private helpers\<close>

definition allocate_account_id :: "mindchat_core \<Rightarrow> account_id \<times> mindchat_core" where
  "allocate_account_id c =
     (let i = max (next_account_id c) 1 in (i, c\<lparr>next_account_id := i + 1\<rparr>))"

definition allocate_conversation_id :: "mindchat_core \<Rightarrow> conversation_id \<times> mindchat_core" where
  "allocate_conversation_id c =
     (let i = max (next_conversation_id c) 1 in (i, c\<lparr>next_conversation_id := i + 1\<rparr>))"

definition allocate_message_id :: "mindchat_core \<Rightarrow> message_id \<times> mindchat_core" where
  "allocate_message_id c =
     (let i = max (next_message_id c) 1 in (i, c\<lparr>next_message_id := i + 1\<rparr>))"

definition allocate_reaction_id :: "mindchat_core \<Rightarrow> reaction_id \<times> mindchat_core" where
  "allocate_reaction_id c =
     (let i = max (next_reaction_id c) 1 in (i, c\<lparr>next_reaction_id := i + 1\<rparr>))"

definition ensure_conversation :: "mindchat_core \<Rightarrow> conversation_id \<Rightarrow> core_error + unit" where
  "ensure_conversation c conversation_id =
     (if hm_contains (core_conversations c) conversation_id then Inr ()
      else Inl (UnknownConversation conversation_id))"

definition ensure_account :: "mindchat_core \<Rightarrow> account_id \<Rightarrow> core_error + unit" where
  "ensure_account c account_id =
     (if hm_contains (core_accounts c) account_id then Inr () else Inl (UnknownAccount account_id))"

definition ensure_conversation_capability ::
  "mindchat_core \<Rightarrow> conversation_id \<Rightarrow> protocol_capability \<Rightarrow> core_error + unit" where
  "ensure_conversation_capability c conversation_id capability =
     (case hm_get (core_conversations c) conversation_id of
        None \<Rightarrow> Inl (UnknownConversation conversation_id)
      | Some conv \<Rightarrow>
          (case hm_get (core_accounts c) (cv_account_id conv) of
             None \<Rightarrow> Inl (UnknownAccount (cv_account_id conv))
           | Some account \<Rightarrow>
               if capability \<in> acct_capabilities account then Inr ()
               else Inl (CapabilityUnavailable capability)))"

text \<open>\<^verbatim>\<open>u32::saturating_add(1)\<close>.\<close>

definition saturating_inc :: "u32 \<Rightarrow> u32" where
  "saturating_inc n = (if n = - 1 then - 1 else n + 1)"

definition touch_conversation :: "mindchat_core \<Rightarrow> conversation_id \<Rightarrow> u64 \<Rightarrow> bool \<Rightarrow> unit core_result" where
  "touch_conversation c conversation_id now_epoch_ms increment_unread =
     (case hm_get (core_conversations c) conversation_id of
        None \<Rightarrow> (Inl (UnknownConversation conversation_id), c)
      | Some conv \<Rightarrow>
          (let conv1 = conv\<lparr>cv_last_activity_epoch_ms := now_epoch_ms\<rparr>;
               conv2 = (if increment_unread
                        then conv1\<lparr>cv_unread_count := saturating_inc (cv_unread_count conv1)\<rparr>
                        else conv1)
           in (Inr (), push_event (ConversationChanged conversation_id)
                (c\<lparr>core_conversations := hm_insert conversation_id conv2 (core_conversations c)\<rparr>))))"

text \<open>
  \<^verbatim>\<open>remove_conversation_state\<close>: first the identifiers of the conversation's messages are
  collected, then each message goes with the reactions on it.
\<close>

definition remove_message_state :: "mindchat_core \<Rightarrow> message_id \<Rightarrow> mindchat_core" where
  "remove_message_state c message_id =
     c\<lparr>core_reactions := hm_retain (\<lambda>_ r. rx_message_id r \<noteq> message_id) (core_reactions c),
       core_messages := hm_remove message_id (core_messages c)\<rparr>"

definition remove_conversation_state :: "mindchat_core \<Rightarrow> conversation_id \<Rightarrow> mindchat_core" where
  "remove_conversation_state c conversation_id =
     (let message_ids = map msg_id (filter (\<lambda>m. msg_conversation_id m = conversation_id)
                                     (hm_values (core_messages c)));
          c1 = foldl remove_message_state c message_ids
      in c1\<lparr>core_conversations := hm_remove conversation_id (core_conversations c1)\<rparr>)"

text \<open>\<^verbatim>\<open>drain_events\<close>: the events in the order of the mutations, which are then forgotten.\<close>

definition drain_events :: "mindchat_core \<Rightarrow> core_event list \<times> mindchat_core" where
  "drain_events c = (core_events c, c\<lparr>core_events := []\<rparr>)"

section \<open>Well-formed states\<close>

text \<open>
  \<open>tables_ok\<close>: every value is stored under its own key, and identifiers are positive and below the
  next one. \<open>refs_ok\<close>: what a value refers to is there; a reply stays in its conversation.
  \<open>data_ok\<close>: the stored texts are the validated ones. \<open>convs_unique\<close>: one conversation per account,
  kind and address.
\<close>

definition tables_ok :: "mindchat_core \<Rightarrow> bool" where
  "tables_ok c \<longleftrightarrow>
     table_ok acct_id (next_account_id c) (core_accounts c) \<and>
     keyed contact_key (core_contacts c) \<and>
     table_ok cv_id (next_conversation_id c) (core_conversations c) \<and>
     table_ok msg_id (next_message_id c) (core_messages c) \<and>
     table_ok rx_id (next_reaction_id c) (core_reactions c)"

definition replies_ok :: "(message_id, message) hmap \<Rightarrow> bool" where
  "replies_ok m \<longleftrightarrow> (\<forall>k v r. hm_get m k = Some v \<longrightarrow> msg_in_reply_to v = Some r \<longrightarrow>
     (\<exists>w. hm_get m r = Some w \<and> msg_conversation_id w = msg_conversation_id v))"

definition refs_ok :: "mindchat_core \<Rightarrow> bool" where
  "refs_ok c \<longleftrightarrow>
     refs_to ct_account_id (core_contacts c) (core_accounts c) \<and>
     refs_to cv_account_id (core_conversations c) (core_accounts c) \<and>
     refs_to msg_conversation_id (core_messages c) (core_conversations c) \<and>
     refs_to rx_message_id (core_reactions c) (core_messages c) \<and>
     replies_ok (core_messages c)"

definition account_data :: "account \<Rightarrow> bool" where
  "account_data a \<longleftrightarrow> bare_jid (acct_jid a) \<and> server_name (acct_server a)"

definition contact_data :: "contact \<Rightarrow> bool" where
  "contact_data v \<longleftrightarrow> bare_jid (ct_jid v) \<and> trimmed (ct_display_name v) \<and>
     (\<forall>s. ct_status v = Some s \<longrightarrow> trimmed s)"

definition message_data :: "message \<Rightarrow> bool" where
  "message_data m \<longleftrightarrow> body_ok (msg_body m) \<and> (msg_attachment m = None \<longleftrightarrow> msg_kind m = MK_Text)"

definition data_ok :: "mindchat_core \<Rightarrow> bool" where
  "data_ok c \<longleftrightarrow>
     all_values account_data (core_accounts c) \<and>
     all_values contact_data (core_contacts c) \<and>
     all_values (\<lambda>v. bare_jid (cv_address v)) (core_conversations c) \<and>
     all_values message_data (core_messages c) \<and>
     all_values (\<lambda>v. trim (rx_emoji v) \<noteq> []) (core_reactions c)"

definition conv_key :: "conversation \<Rightarrow> account_id \<times> conversation_kind \<times> ustr" where
  "conv_key v = (cv_account_id v, cv_kind v, cv_address v)"

definition convs_unique :: "(conversation_id, conversation) hmap \<Rightarrow> bool" where
  "convs_unique m \<longleftrightarrow> (\<forall>k v k' v'. hm_get m k = Some v \<longrightarrow> hm_get m k' = Some v' \<longrightarrow>
     conv_key v = conv_key v' \<longrightarrow> k = k')"

definition wf_core :: "mindchat_core \<Rightarrow> bool" where
  "wf_core c \<longleftrightarrow> tables_ok c \<and> refs_ok c \<and> data_ok c \<and> convs_unique (core_conversations c)"

text \<open>No counter has reached the last identifier: the next allocation does not wrap.\<close>

definition headroom :: "mindchat_core \<Rightarrow> bool" where
  "headroom c \<longleftrightarrow> next_account_id c < - 1 \<and> next_conversation_id c < - 1 \<and>
     next_message_id c < - 1 \<and> next_reaction_id c < - 1"

lemma wf_default: "wf_core default_core"
  by (simp add: wf_core_def tables_ok_def refs_ok_def data_ok_def convs_unique_def
      replies_ok_def default_core_def)

lemma wf_push_event [simp]: "wf_core (push_event e c) = wf_core c"
  by (simp add: wf_core_def tables_ok_def refs_ok_def data_ok_def push_event_def)

lemma wf_events [simp]: "wf_core (c\<lparr>core_events := es\<rparr>) = wf_core c"
  by (simp add: wf_core_def tables_ok_def refs_ok_def data_ok_def)

end
