(* ===== verification/Core_Wf.thy ===== *)
theory Core_Wf
  imports Core_State
begin

text \<open>
  How the invariant \<open>wf_core\<close> survives the primitive updates the operations are made of: a value
  replaced under its key, a value added under a fresh identifier, a contact removed, and a
  conversation removed with everything in it. The operations' own lemmas apply these rules
  (collected in \<open>wf_intros\<close>) and never unfold the invariant.
\<close>

lemmas wf_defs = wf_core_def tables_ok_def refs_ok_def data_ok_def

section \<open>Reading the invariant\<close>

lemma wf_hm_ok:
  assumes "wf_core c"
  shows "hm_ok (core_accounts c)" "hm_ok (core_contacts c)" "hm_ok (core_conversations c)"
    "hm_ok (core_messages c)" "hm_ok (core_reactions c)"
  using assms by (auto simp: wf_core_def tables_ok_def)

lemma wf_account:
  assumes "wf_core c" and "hm_get (core_accounts c) k = Some v"
  shows "acct_id v = k" and "account_data v"
  using assms by (auto simp: wf_defs dest: table_okD all_valuesD)

lemma wf_contact:
  assumes "wf_core c" and "hm_get (core_contacts c) k = Some v"
  shows "contact_key v = k" and "contact_data v" and "hm_get (core_accounts c) (ct_account_id v) \<noteq> None"
proof -
  have k: "keyed contact_key (core_contacts c)" and d: "all_values contact_data (core_contacts c)"
    and r: "refs_to ct_account_id (core_contacts c) (core_accounts c)"
    using assms(1) by (simp_all add: wf_defs)
  show "contact_key v = k" by (rule keyedD [OF k assms(2)])
  show "contact_data v" by (rule all_valuesD [OF d assms(2)])
  show "hm_get (core_accounts c) (ct_account_id v) \<noteq> None" by (rule refs_toD [OF r assms(2)])
qed

lemma wf_conversation:
  assumes "wf_core c" and "hm_get (core_conversations c) k = Some v"
  shows "cv_id v = k" and "bare_jid (cv_address v)" and "hm_get (core_accounts c) (cv_account_id v) \<noteq> None"
proof -
  have r: "refs_to cv_account_id (core_conversations c) (core_accounts c)"
    using assms(1) by (simp add: wf_defs)
  show "hm_get (core_accounts c) (cv_account_id v) \<noteq> None" by (rule refs_toD [OF r assms(2)])
qed (use assms in \<open>auto simp: wf_defs dest: table_okD all_valuesD\<close>)

lemma wf_message:
  assumes "wf_core c" and "hm_get (core_messages c) k = Some v"
  shows "msg_id v = k" and "message_data v" and "hm_get (core_conversations c) (msg_conversation_id v) \<noteq> None"
proof -
  have r: "refs_to msg_conversation_id (core_messages c) (core_conversations c)"
    using assms(1) by (simp add: wf_defs)
  show "hm_get (core_conversations c) (msg_conversation_id v) \<noteq> None" by (rule refs_toD [OF r assms(2)])
qed (use assms in \<open>auto simp: wf_defs dest: table_okD all_valuesD\<close>)

lemma wf_reply:
  assumes "wf_core c" and "hm_get (core_messages c) k = Some v" and "msg_in_reply_to v = Some r"
  shows "\<exists>w. hm_get (core_messages c) r = Some w \<and> msg_conversation_id w = msg_conversation_id v"
  using assms by (simp add: wf_defs replies_ok_def)

lemma wf_reaction:
  assumes "wf_core c" and "hm_get (core_reactions c) k = Some v"
  shows "rx_id v = k" and "trim (rx_emoji v) \<noteq> []" and "hm_get (core_messages c) (rx_message_id v) \<noteq> None"
proof -
  have r: "refs_to rx_message_id (core_reactions c) (core_messages c)"
    using assms(1) by (simp add: wf_defs)
  show "hm_get (core_messages c) (rx_message_id v) \<noteq> None" by (rule refs_toD [OF r assms(2)])
qed (use assms in \<open>auto simp: wf_defs dest: table_okD all_valuesD\<close>)

lemma wf_conv_unique:
  assumes "wf_core c" and "hm_get (core_conversations c) k = Some v"
    and "hm_get (core_conversations c) k' = Some v'" and "conv_key v = conv_key v'"
  shows "k = k'"
  using assms unfolding wf_core_def convs_unique_def by blast

section \<open>Values replaced under their key\<close>

lemma replies_ok_put:
  assumes "replies_ok m" and "hm_get m k = Some v"
    and "msg_conversation_id v' = msg_conversation_id v" and "msg_in_reply_to v' = msg_in_reply_to v"
  shows "replies_ok (hm_insert k v' m)"
proof -
  let ?n = "hm_insert k v' m"
  have old: "\<exists>b'. hm_get m a = Some b' \<and> msg_conversation_id b' = msg_conversation_id b \<and> msg_in_reply_to b' = msg_in_reply_to b"
    if "hm_get ?n a = Some b" for a b
    using that assms(2-4) by (auto split: if_splits)
  have new: "\<exists>b'. hm_get ?n a = Some b' \<and> msg_conversation_id b' = msg_conversation_id b"
    if "hm_get m a = Some b" for a b
    using that assms(2-4) by auto
  show ?thesis
    unfolding replies_ok_def
  proof (intro allI impI)
    fix a b r
    assume "hm_get ?n a = Some b" and r: "msg_in_reply_to b = Some r"
    then obtain b' where "hm_get m a = Some b'" "msg_conversation_id b' = msg_conversation_id b" "msg_in_reply_to b' = Some r"
      using old by fastforce
    then obtain w where "hm_get m r = Some w" "msg_conversation_id w = msg_conversation_id b"
      using assms(1) unfolding replies_ok_def by metis
    with new show "\<exists>w. hm_get ?n r = Some w \<and> msg_conversation_id w = msg_conversation_id b"
      by metis
  qed
qed

lemma convs_unique_put:
  assumes "convs_unique m" and "hm_get m k = Some v" and "conv_key v' = conv_key v"
  shows "convs_unique (hm_insert k v' m)"
  using assms unfolding convs_unique_def by (simp add: fun_upd_apply) metis

lemma wf_put_account [wf_intros]:
  assumes "wf_core c" and "hm_get (core_accounts c) k = Some v" and "acct_id v' = acct_id v" and "account_data v'"
  shows "wf_core (c\<lparr>core_accounts := hm_insert k v' (core_accounts c)\<rparr>)"
  using assms table_ok_update [OF _ assms(2,3)] by (simp add: wf_defs)

lemma wf_put_conversation [wf_intros]:
  assumes "wf_core c" and "hm_get (core_conversations c) k = Some v" and "cv_id v' = cv_id v"
    and "conv_key v' = conv_key v"
  shows "wf_core (c\<lparr>core_conversations := hm_insert k v' (core_conversations c)\<rparr>)"
proof -
  have "bare_jid (cv_address v')" and "hm_get (core_accounts c) (cv_account_id v') \<noteq> None"
    using wf_conversation [OF assms(1,2)] assms(4) by (simp_all add: conv_key_def)
  with assms show ?thesis
    using table_ok_update [OF _ assms(2,3)] convs_unique_put [OF _ assms(2,4)] by (simp add: wf_defs)
qed

lemma wf_put_message [wf_intros]:
  assumes "wf_core c" and "hm_get (core_messages c) k = Some v" and "msg_id v' = msg_id v"
    and "msg_conversation_id v' = msg_conversation_id v" and "msg_in_reply_to v' = msg_in_reply_to v"
    and "message_data v'"
  shows "wf_core (c\<lparr>core_messages := hm_insert k v' (core_messages c)\<rparr>)"
proof -
  have "hm_get (core_conversations c) (msg_conversation_id v') \<noteq> None"
    using wf_message [OF assms(1,2)] assms(4) by simp
  with assms show ?thesis
    using table_ok_update [OF _ assms(2,3)] replies_ok_put [OF _ assms(2,4,5)] by (simp add: wf_defs)
qed

lemma wf_put_contact [wf_intros]:
  assumes "wf_core c" and "contact_key v = k" and "contact_data v"
    and "hm_get (core_accounts c) (ct_account_id v) \<noteq> None"
  shows "wf_core (c\<lparr>core_contacts := hm_insert k v (core_contacts c)\<rparr>)"
  using assms by (simp add: wf_defs)

lemma wf_remove_contact [wf_intros]:
  assumes "wf_core c"
  shows "wf_core (c\<lparr>core_contacts := hm_remove k (core_contacts c)\<rparr>)"
  using assms by (simp add: wf_defs)

section \<open>Values added under a fresh identifier\<close>

lemma replies_ok_new:
  assumes "replies_ok m" and "hm_get m i = None"
    and "\<And>r. msg_in_reply_to v = Some r \<Longrightarrow>
      \<exists>w. hm_get m r = Some w \<and> msg_conversation_id w = msg_conversation_id v"
  shows "replies_ok (hm_insert i v m)"
  using assms unfolding replies_ok_def by (simp add: fun_upd_apply) (metis option.distinct(1))

lemma convs_unique_new:
  assumes "convs_unique m" and "\<And>k w. hm_get m k = Some w \<Longrightarrow> conv_key w \<noteq> conv_key v"
  shows "convs_unique (hm_insert i v m)"
  using assms unfolding convs_unique_def by (simp add: fun_upd_apply) metis

lemma alloc_table:
  assumes "table_ok idf nxt m" and "i = max nxt 1" and "nxt < - 1" and "idf v = i"
  shows "table_ok idf (i + 1) (hm_insert i v m)" and "hm_get m i = None"
proof -
  have al: "alloc_id nxt = (i, i + 1)"
    using assms(2) by (simp add: alloc_id_def Let_def)
  show "table_ok idf (i + 1) (hm_insert i v m)" by (rule table_ok_alloc [OF assms(1) al assms(3,4)])
  show "hm_get m i = None" by (rule alloc_id_fresh [OF assms(1) al])
qed

lemma wf_new_account [wf_intros]:
  assumes "wf_core c" and "i = max (next_account_id c) 1" and "next_account_id c < - 1"
    and "acct_id v = i" and "account_data v"
  shows "wf_core (c\<lparr>next_account_id := i + 1, core_accounts := hm_insert i v (core_accounts c)\<rparr>)"
  using assms(1,5) alloc_table(1) [where idf = acct_id, OF _ assms(2-4)] by (simp add: wf_defs)

lemma wf_new_conversation [wf_intros]:
  assumes "wf_core c" and "i = max (next_conversation_id c) 1" and "next_conversation_id c < - 1"
    and "cv_id v = i" and "bare_jid (cv_address v)" and "hm_get (core_accounts c) (cv_account_id v) \<noteq> None"
    and "\<And>k w. hm_get (core_conversations c) k = Some w \<Longrightarrow> conv_key w \<noteq> conv_key v"
  shows "wf_core (c\<lparr>next_conversation_id := i + 1,
     core_conversations := hm_insert i v (core_conversations c)\<rparr>)"
  using assms(1,5,6) alloc_table(1) [where idf = cv_id, OF _ assms(2-4)] convs_unique_new [OF _ assms(7)]
  by (simp add: wf_defs)

lemma wf_new_message [wf_intros]:
  assumes "wf_core c" and "i = max (next_message_id c) 1" and "next_message_id c < - 1"
    and "msg_id v = i" and "message_data v"
    and "hm_get (core_conversations c) (msg_conversation_id v) \<noteq> None"
    and "\<And>r. msg_in_reply_to v = Some r \<Longrightarrow>
      \<exists>w. hm_get (core_messages c) r = Some w \<and> msg_conversation_id w = msg_conversation_id v"
  shows "wf_core (c\<lparr>next_message_id := i + 1, core_messages := hm_insert i v (core_messages c)\<rparr>)"
  using assms(1,5,6) alloc_table [where idf = msg_id, OF _ assms(2-4)] replies_ok_new [OF _ _ assms(7)]
  by (simp add: wf_defs)

lemma wf_new_reaction [wf_intros]:
  assumes "wf_core c" and "i = max (next_reaction_id c) 1" and "next_reaction_id c < - 1"
    and "rx_id v = i" and "trim (rx_emoji v) \<noteq> []"
    and "hm_get (core_messages c) (rx_message_id v) \<noteq> None"
  shows "wf_core (c\<lparr>next_reaction_id := i + 1, core_reactions := hm_insert i v (core_reactions c)\<rparr>)"
  using assms(1,5,6) alloc_table(1) [where idf = rx_id, OF _ assms(2-4)] by (simp add: wf_defs)

section \<open>A conversation removed with its messages and reactions\<close>

lemma hm_remove_all_get:
  "hm_get (foldl (\<lambda>m i. hm_remove i m) m ids) k = (if k \<in> set ids then None else hm_get m k)"
  by (induction ids arbitrary: m) auto

lemma hm_remove_all_ok: "hm_ok m \<Longrightarrow> hm_ok (foldl (\<lambda>m i. hm_remove i m) m ids)"
  by (induction ids arbitrary: m) auto

lemma foldl_remove_message:
  "foldl remove_message_state c ids =
     c\<lparr>core_reactions := hm_retain (\<lambda>_ r. rx_message_id r \<notin> set ids) (core_reactions c),
       core_messages := foldl (\<lambda>m i. hm_remove i m) (core_messages c) ids\<rparr>"
proof (induction ids arbitrary: c)
  case Nil
  then show ?case by (simp add: hm_retain_def)
next
  case (Cons i ids)
  have "hm_retain (\<lambda>_ r. rx_message_id r \<notin> set ids) (hm_retain (\<lambda>_ r. rx_message_id r \<noteq> i) m)
      = hm_retain (\<lambda>_ r. rx_message_id r \<notin> set (i # ids)) m" for m :: "(reaction_id, reaction) hmap"
    by (auto simp: hm_retain_def intro!: filter_cong)
  with Cons show ?case by (simp add: remove_message_state_def)
qed

text \<open>What is left in each table once conversation \<open>i\<close> is removed.\<close>

definition conv_msg_ids :: "mindchat_core \<Rightarrow> conversation_id \<Rightarrow> message_id set" where
  "conv_msg_ids c i = {k. \<exists>m. hm_get (core_messages c) k = Some m \<and> msg_conversation_id m = i}"

lemma remove_conversation_tables:
  assumes "wf_core c"
  shows "core_accounts (remove_conversation_state c i) = core_accounts c"
    and "core_contacts (remove_conversation_state c i) = core_contacts c"
    and "core_events (remove_conversation_state c i) = core_events c"
    and "next_account_id (remove_conversation_state c i) = next_account_id c"
    and "next_conversation_id (remove_conversation_state c i) = next_conversation_id c"
    and "next_message_id (remove_conversation_state c i) = next_message_id c"
    and "next_reaction_id (remove_conversation_state c i) = next_reaction_id c"
    and "core_conversations (remove_conversation_state c i) = hm_remove i (core_conversations c)"
    and "hm_ok (core_messages (remove_conversation_state c i))"
    and "hm_get (core_messages (remove_conversation_state c i)) k =
      (if k \<in> conv_msg_ids c i then None else hm_get (core_messages c) k)"
    and "core_reactions (remove_conversation_state c i) =
      hm_retain (\<lambda>_ r. rx_message_id r \<notin> conv_msg_ids c i) (core_reactions c)"
proof -
  let ?ids = "map msg_id (filter (\<lambda>m. msg_conversation_id m = i) (hm_values (core_messages c)))"
  have ids: "set ?ids = conv_msg_ids c i"
    using hm.vals_iff [OF wf_hm_ok(4) [OF assms]] wf_message(1) [OF assms]
    by (fastforce simp: conv_msg_ids_def image_iff)
  note unf = remove_conversation_state_def Let_def foldl_remove_message
  show "core_accounts (remove_conversation_state c i) = core_accounts c"
    "core_contacts (remove_conversation_state c i) = core_contacts c"
    "core_events (remove_conversation_state c i) = core_events c"
    "next_account_id (remove_conversation_state c i) = next_account_id c"
    "next_conversation_id (remove_conversation_state c i) = next_conversation_id c"
    "next_message_id (remove_conversation_state c i) = next_message_id c"
    "next_reaction_id (remove_conversation_state c i) = next_reaction_id c"
    "core_conversations (remove_conversation_state c i) = hm_remove i (core_conversations c)"
    by (simp_all add: unf)
  show "hm_ok (core_messages (remove_conversation_state c i))"
    using hm_remove_all_ok [OF wf_hm_ok(4) [OF assms]] by (simp add: unf)
  show "hm_get (core_messages (remove_conversation_state c i)) k =
      (if k \<in> conv_msg_ids c i then None else hm_get (core_messages c) k)"
    unfolding ids [symmetric] by (simp add: unf hm_remove_all_get)
  show "core_reactions (remove_conversation_state c i) =
      hm_retain (\<lambda>_ r. rx_message_id r \<notin> conv_msg_ids c i) (core_reactions c)"
    unfolding ids [symmetric] by (simp add: unf)
qed

lemma wf_remove_conversation [wf_intros]:
  assumes "wf_core c"
  shows "wf_core (remove_conversation_state c i)"
proof -
  let ?d = "remove_conversation_state c i"
  note tabs = remove_conversation_tables [OF assms]
  have ok: "hm_ok (core_reactions c)" using assms by (rule wf_hm_ok)
  have msgs: "hm_get (core_messages ?d) k = Some m \<longleftrightarrow>
      hm_get (core_messages c) k = Some m \<and> msg_conversation_id m \<noteq> i" for k m
    by (auto simp: tabs conv_msg_ids_def)
  have "table_ok msg_id (next_message_id c) (core_messages ?d)"
    using assms msgs tabs(9) by (simp add: wf_defs table_ok_def)
  moreover have "refs_to msg_conversation_id (core_messages ?d) (hm_remove i (core_conversations c))"
    using wf_message(3) [OF assms] by (auto simp: refs_to_def msgs)
  moreover have "all_values message_data (core_messages ?d)"
    using wf_message(2) [OF assms] by (auto simp: all_values_def msgs)
  moreover have "replies_ok (core_messages ?d)"
    unfolding replies_ok_def msgs using wf_reply [OF assms] by metis
  moreover have "refs_to rx_message_id (core_reactions ?d) (core_messages ?d)"
    using wf_reaction(3) [OF assms] ok
    by (auto simp: refs_to_def tabs hm.get_ret split: option.splits if_splits)
  moreover have "convs_unique (hm_remove i (core_conversations c))"
    using assms unfolding wf_core_def convs_unique_def by (simp add: fun_upd_apply)
  ultimately show ?thesis
    using assms ok by (simp add: wf_defs tabs table_ok_remove table_ok_retain)
qed

end
