(* ===== verification/Core_Contract.thy ===== *)
theory Core_Contract
  imports Core_Wf
begin

text \<open>
  The contract every public operation of the core keeps, as the locale \<open>core_operation\<close>, and what a
  client may conclude from it. The theories of the operations interpret it on each of them.
\<close>

section \<open>How many identifiers were handed out\<close>

text \<open>\<open>budget\<close> bounds every identifier counter; one operation uses up one at most.\<close>

definition budget :: "mindchat_core \<Rightarrow> nat" where
  "budget c = Max {1, unat (next_account_id c), unat (next_conversation_id c),
     unat (next_message_id c), unat (next_reaction_id c)}"

lemma budget_le_iff:
  "budget c \<le> n \<longleftrightarrow> 1 \<le> n \<and> unat (next_account_id c) \<le> n \<and> unat (next_conversation_id c) \<le> n \<and>
     unat (next_message_id c) \<le> n \<and> unat (next_reaction_id c) \<le> n"
  by (auto simp: budget_def)

lemma budget_ge:
  "unat (next_account_id c) \<le> budget c" "unat (next_conversation_id c) \<le> budget c"
  "unat (next_message_id c) \<le> budget c" "unat (next_reaction_id c) \<le> budget c" "1 \<le> budget c"
  by (simp_all add: budget_def)

lemma budget_default: "budget default_core = 1"
  by (simp add: budget_def default_core_def)

lemma unat_max_word: "unat (- 1 :: u64) = 2 ^ 64 - 1"
  by (simp add: unsigned_minus_1_eq_mask mask_eq_exp_minus_1)

lemma headroom_budget:
  assumes "budget c < 2 ^ 64 - 1"
  shows "headroom c"
proof -
  have "unat (next_account_id c) < 2 ^ 64 - 1" "unat (next_conversation_id c) < 2 ^ 64 - 1"
    "unat (next_message_id c) < 2 ^ 64 - 1" "unat (next_reaction_id c) < 2 ^ 64 - 1"
    using budget_ge [of c] assms by linarith+
  then show ?thesis by (simp add: headroom_def word_less_nat_alt unat_max_word)
qed

lemma unat_alloc_le: "unat (max (n :: u64) 1 + 1) \<le> max 1 (unat n) + 1"
proof -
  have "unat (max n 1 + 1) \<le> unat (max n 1) + 1"
    by (simp add: unat_word_ariths)
  also have "unat (max n 1) = max 1 (unat n)"
    by (auto simp: max_def word_le_nat_alt)
  finally show ?thesis by simp
qed

lemma unat_alloc_budget:
  "unat (max (next_account_id c) 1 + 1) \<le> budget c + 1"
  "unat (max (next_conversation_id c) 1 + 1) \<le> budget c + 1"
  "unat (max (next_message_id c) 1 + 1) \<le> budget c + 1"
  "unat (max (next_reaction_id c) 1 + 1) \<le> budget c + 1"
  using unat_alloc_le [of "next_account_id c"] unat_alloc_le [of "next_conversation_id c"]
    unat_alloc_le [of "next_message_id c"] unat_alloc_le [of "next_reaction_id c"] budget_ge [of c]
  by linarith+

text \<open>A counter is left alone or moved by one allocation; the rest of the state does not matter.\<close>

lemma budget_step:
  assumes "next_account_id d \<in> {next_account_id c, max (next_account_id c) 1 + 1}"
    and "next_conversation_id d \<in> {next_conversation_id c, max (next_conversation_id c) 1 + 1}"
    and "next_message_id d \<in> {next_message_id c, max (next_message_id c) 1 + 1}"
    and "next_reaction_id d \<in> {next_reaction_id c, max (next_reaction_id c) 1 + 1}"
  shows "budget d \<le> Suc (budget c)"
  unfolding budget_le_iff using assms unat_alloc_budget [of c] budget_ge [of c]
  by (elim insertE emptyE) simp_all

lemma push_event_sel [simp]:
  "next_account_id (push_event e c) = next_account_id c"
  "next_conversation_id (push_event e c) = next_conversation_id c"
  "next_message_id (push_event e c) = next_message_id c"
  "next_reaction_id (push_event e c) = next_reaction_id c"
  "core_accounts (push_event e c) = core_accounts c"
  "core_contacts (push_event e c) = core_contacts c"
  "core_conversations (push_event e c) = core_conversations c"
  "core_messages (push_event e c) = core_messages c"
  "core_reactions (push_event e c) = core_reactions c"
  "core_events (push_event e c) = core_events c @ [e]"
  by (simp_all add: push_event_def)

section \<open>The contract\<close>

locale core_operation =
  fixes oper :: "mindchat_core \<Rightarrow> (core_error + 'a) \<times> mindchat_core"
  assumes op_wf: "wf_core c \<Longrightarrow> headroom c \<Longrightarrow> wf_core (snd (oper c))"
    and op_atomic: "wf_core c \<Longrightarrow> fst (oper c) = Inl e \<Longrightarrow> snd (oper c) = c"
    and op_log: "\<exists>es. core_events (snd (oper c)) = core_events c @ es"
    and op_budget: "budget (snd (oper c)) \<le> budget c + 1"
begin

text \<open>An operation that fails may as well not have been called; one that is tried until it
  succeeds has the effect of its last call.\<close>

lemma op_error_no_event: "wf_core c \<Longrightarrow> fst (oper c) = Inl e \<Longrightarrow> core_events (snd (oper c)) = core_events c"
  by (simp add: op_atomic)

lemma op_error_stable:
  assumes "wf_core c" and "fst (oper c) = Inl e"
  shows "oper (snd (oper c)) = oper c"
  using op_atomic [OF assms] by simp

lemma op_event_kept: "i < length (core_events c) \<Longrightarrow> core_events (snd (oper c)) ! i = core_events c ! i"
  using op_log [of c] by (auto simp: nth_append)

lemma op_wf_bounded: "wf_core c \<Longrightarrow> budget c < 2 ^ 64 - 1 \<Longrightarrow> wf_core (snd (oper c))"
  by (rule op_wf) (auto intro: headroom_budget)

end

text \<open>An operation that only reads its arguments and the state keeps the contract.\<close>

lemma core_operation_read: "core_operation (\<lambda>c. (f c, c))"
  by unfold_locales (simp_all add: le_SucI)

lemma core_operation_map:
  assumes "core_operation f"
  shows "core_operation (\<lambda>c. (map_sum (\<lambda>e. e) g (fst (f c)), snd (f c)))"
proof -
  have inl: "map_sum (\<lambda>e. e) g r = Inl e \<longleftrightarrow> r = Inl e" for r :: "core_error + 'a" and e
    by (cases r) auto
  show ?thesis
    using assms unfolding core_operation_def by (simp add: inl)
qed

lemma try_q_done: "try_q r s (\<lambda>_. (Inr x, s)) = (map_sum (\<lambda>e. e) (\<lambda>_. x) r, s)"
  by (cases r) auto

lemma core_operation_then:
  assumes "core_operation f"
  shows "core_operation (\<lambda>c. let (r, d) = f c in try_q r d (\<lambda>_. (Inr x, d)))"
  using core_operation_map [OF assms, of "\<lambda>_. x"] by (simp add: Let_def case_prod_beta try_q_done)

lemma core_operation_if:
  assumes "core_operation f" and "core_operation g"
  shows "core_operation (\<lambda>c. if P c then f c else g c)"
  using assms unfolding core_operation_def by simp

end
