(* ===== verification/Core_Accounts.thy ===== *)
theory Core_Accounts
  imports Core_Contract
begin

text \<open>
  The operations of \<^verbatim>\<open>MindChatCore\<close> on accounts and on the contact list (\<^verbatim>\<open>lib.rs\<close>): configuration,
  connection state, capabilities, display name, proxies, roster and presence.
\<close>

section \<open>Accounts\<close>

definition add_account :: "mindchat_core \<Rightarrow> account_setup \<Rightarrow> account_id core_result" where
  "add_account c su =
     try_q (validate_jid (setup_jid su)) c (\<lambda>_.
     try_q (validate_server (setup_server su)) c (\<lambda>_.
       let (i, c1) = allocate_account_id c;
           account = \<lparr>acct_id = i, acct_jid = setup_jid su, acct_server = setup_server su,
             acct_display_name = setup_display_name su, acct_connection_state = CS_Offline,
             acct_capabilities = {}, acct_connection_error = None, acct_disconnect_kind = None,
             acct_auto_reconnect = True, acct_proxies = []\<rparr>;
           c2 = c1\<lparr>core_accounts := hm_insert i account (core_accounts c1)\<rparr>
       in (Inr i, push_event (AccountChanged i) c2)))"

text \<open>\<^verbatim>\<open>self.accounts.get_mut(&id).ok_or(UnknownAccount(id))?\<close>, the account changed in place, and the
  event pushed.\<close>

definition modify_account ::
  "mindchat_core \<Rightarrow> account_id \<Rightarrow> (account \<Rightarrow> account) \<Rightarrow> unit core_result" where
  "modify_account c account_id f =
     try_q (ok_or (hm_get (core_accounts c) account_id) (UnknownAccount account_id)) c (\<lambda>account.
       (Inr (), push_event (AccountChanged account_id)
          (c\<lparr>core_accounts := hm_insert account_id (f account) (core_accounts c)\<rparr>)))"

definition set_connection_state ::
  "mindchat_core \<Rightarrow> account_id \<Rightarrow> connection_state \<Rightarrow> unit core_result" where
  "set_connection_state c account_id state =
     modify_account c account_id (\<lambda>account.
       let account1 = account\<lparr>acct_connection_state := state\<rparr>
       in if state = CS_Connecting \<or> state = CS_Online
          then account1\<lparr>acct_connection_error := None, acct_disconnect_kind := None\<rparr>
          else account1)"

definition set_capabilities ::
  "mindchat_core \<Rightarrow> account_id \<Rightarrow> protocol_capability list \<Rightarrow> unit core_result" where
  "set_capabilities c account_id capabilities =
     modify_account c account_id (\<lambda>account. account\<lparr>acct_capabilities := set capabilities\<rparr>)"

definition update_account_display_name :: "mindchat_core \<Rightarrow> account_id \<Rightarrow> ustr \<Rightarrow> unit core_result" where
  "update_account_display_name c account_id display_name =
     (if trim display_name = [] then (Inl EmptyDisplayName, c)
      else modify_account c account_id (\<lambda>account. account\<lparr>acct_display_name := display_name\<rparr>))"

definition set_account_proxies :: "mindchat_core \<Rightarrow> account_id \<Rightarrow> proxy_config list \<Rightarrow> unit core_result" where
  "set_account_proxies c account_id proxies =
     modify_account c account_id (\<lambda>account. account\<lparr>acct_proxies := proxies\<rparr>)"

definition account_proxies :: "mindchat_core \<Rightarrow> account_id \<Rightarrow> core_error + proxy_config list" where
  "account_proxies c account_id =
     ok_or (map_option acct_proxies (hm_get (core_accounts c) account_id)) (UnknownAccount account_id)"

section \<open>Contacts\<close>

definition upsert_contact ::
  "mindchat_core \<Rightarrow> account_id \<Rightarrow> ustr \<Rightarrow> ustr \<Rightarrow> contact_presence \<Rightarrow> ustr option \<Rightarrow> unit core_result" where
  "upsert_contact c account_id jid display_name presence status =
     try_q (ensure_account c account_id) c (\<lambda>_.
     try_q (validate_jid jid) c (\<lambda>_.
       let contact = \<lparr>ct_account_id = account_id, ct_jid = jid,
             ct_display_name = normalize_contact_name display_name jid, ct_presence = presence,
             ct_status = normalize_status status, ct_subscription = RS_None\<rparr>
       in (Inr (), push_event (RosterChanged account_id)
            (c\<lparr>core_contacts := hm_insert (account_id, jid) contact (core_contacts c)\<rparr>))))"

definition sync_roster_contact ::
  "mindchat_core \<Rightarrow> account_id \<Rightarrow> ustr \<Rightarrow> ustr \<Rightarrow> roster_subscription \<Rightarrow> bool core_result" where
  "sync_roster_contact c account_id jid display_name subscription =
     (if \<not> hm_contains (core_accounts c) account_id then (Inr False, c)
      else if is_err (validate_jid jid) then (Inr False, c)
      else
        let existing = hm_get (core_contacts c) (account_id, jid);
            contact = \<lparr>ct_account_id = account_id, ct_jid = jid,
              ct_display_name = normalize_contact_name display_name jid,
              ct_presence = (case existing of None \<Rightarrow> CP_Offline | Some x \<Rightarrow> ct_presence x),
              ct_status = Option.bind existing ct_status, ct_subscription = subscription\<rparr>
        in (Inr True, push_event (RosterChanged account_id)
             (c\<lparr>core_contacts := hm_insert (account_id, jid) contact (core_contacts c)\<rparr>)))"

definition remove_contact :: "mindchat_core \<Rightarrow> account_id \<Rightarrow> ustr \<Rightarrow> bool core_result" where
  "remove_contact c account_id jid =
     (if \<not> hm_contains (core_accounts c) account_id then (Inr False, c)
      else if is_err (validate_jid jid) then (Inr False, c)
      else
        let removed = hm_contains (core_contacts c) (account_id, jid);
            c1 = c\<lparr>core_contacts := hm_remove (account_id, jid) (core_contacts c)\<rparr>
        in (Inr removed, if removed then push_event (RosterChanged account_id) c1 else c1))"

definition update_contact_presence ::
  "mindchat_core \<Rightarrow> account_id \<Rightarrow> ustr \<Rightarrow> contact_presence \<Rightarrow> ustr option \<Rightarrow> bool core_result" where
  "update_contact_presence c account_id jid presence status =
     (if \<not> hm_contains (core_accounts c) account_id then (Inr False, c)
      else if is_err (validate_jid jid) then (Inr False, c)
      else (case hm_get (core_contacts c) (account_id, jid) of
              None \<Rightarrow> (Inr False, c)
            | Some contact \<Rightarrow> (Inr True, push_event (RosterChanged account_id)
                (c\<lparr>core_contacts := hm_insert (account_id, jid)
                   (contact\<lparr>ct_presence := presence, ct_status := normalize_status status\<rparr>)
                   (core_contacts c)\<rparr>))))"

section \<open>Every account operation keeps the contract\<close>

text \<open>An update in place of one account keeps the contract when it keeps the identity, the JID and
  the server.\<close>

definition keeps_identity :: "(account \<Rightarrow> account) \<Rightarrow> bool" where
  "keeps_identity f \<longleftrightarrow> (\<forall>a. acct_id (f a) = acct_id a \<and> acct_jid (f a) = acct_jid a \<and> acct_server (f a) = acct_server a)"

lemma modify_account_contract:
  assumes "keeps_identity f"
  shows "core_operation (\<lambda>c. modify_account c i f)"
proof
  fix c
  show "wf_core (snd (modify_account c i f))" if "wf_core c"
    using that assms wf_account [OF that]
    by (auto simp: modify_account_def keeps_identity_def account_data_def split: try_q_splits intro!: wf_put_account)
qed (auto simp: modify_account_def split: try_q_splits intro!: budget_step)

lemma keeps_identity_simps [simp]:
  "keeps_identity (\<lambda>a. a\<lparr>acct_capabilities := x\<rparr>)" "keeps_identity (\<lambda>a. a\<lparr>acct_display_name := y\<rparr>)"
  "keeps_identity (\<lambda>a. a\<lparr>acct_proxies := z\<rparr>)"
  by (simp_all add: keeps_identity_def)

interpretation op_add_account: core_operation "\<lambda>c. add_account c su" for su
proof
  note unf = add_account_def allocate_account_id_def Let_def
  fix c
  show "wf_core (snd (add_account c su))" if "wf_core c" "headroom c"
    using that
    by (auto simp: unf headroom_def account_data_def validate_jid_cases validate_server_cases
        split: try_q_splits if_splits intro!: wf_new_account)
qed (auto simp: add_account_def allocate_account_id_def Let_def split: try_q_splits intro!: budget_step)

interpretation op_set_connection_state: core_operation "\<lambda>c. set_connection_state c i s" for i s
  unfolding set_connection_state_def
  by (rule modify_account_contract) (simp add: keeps_identity_def Let_def)

interpretation op_set_capabilities: core_operation "\<lambda>c. set_capabilities c i caps" for i caps
  unfolding set_capabilities_def by (rule modify_account_contract) simp

interpretation op_set_proxies: core_operation "\<lambda>c. set_account_proxies c i ps" for i ps
  unfolding set_account_proxies_def by (rule modify_account_contract) simp

interpretation op_rename: core_operation "\<lambda>c. update_account_display_name c i n" for i n
proof (cases "trim n = []")
  case True
  then show "core_operation (\<lambda>c. update_account_display_name c i n)"
    using core_operation_read [of "\<lambda>_. Inl EmptyDisplayName"] by (simp add: update_account_display_name_def)
next
  case False
  then show "core_operation (\<lambda>c. update_account_display_name c i n)"
    by (simp add: update_account_display_name_def modify_account_contract)
qed

interpretation op_upsert_contact: core_operation "\<lambda>c. upsert_contact c i jid name p st" for i jid name p st
proof
  fix c
  show "wf_core (snd (upsert_contact c i jid name p st))" if "wf_core c"
    using that
    by (auto simp: upsert_contact_def ensure_account_def hm_contains_def validate_jid_cases contact_key_def
        contact_data_def normalize_contact_name_trimmed normalize_status_trimmed
        split: try_q_splits if_splits intro!: wf_put_contact)
qed (auto simp: upsert_contact_def split: try_q_splits intro!: budget_step)

interpretation op_sync_roster: core_operation "\<lambda>c. sync_roster_contact c i jid name sub" for i jid name sub
proof
  fix c
  show "wf_core (snd (sync_roster_contact c i jid name sub))" if "wf_core c"
    using that wf_contact(2) [OF that]
    by (auto simp: sync_roster_contact_def Let_def hm_contains_def validate_jid_cases contact_key_def
        contact_data_def normalize_contact_name_trimmed
        split: if_splits bind_splits intro!: wf_put_contact)
qed (auto simp: sync_roster_contact_def Let_def intro!: budget_step)

interpretation op_remove_contact: core_operation "\<lambda>c. remove_contact c i jid" for i jid
proof
  fix c
  show "wf_core (snd (remove_contact c i jid))" if "wf_core c"
    using that by (simp add: remove_contact_def Let_def wf_remove_contact)
qed (auto simp: remove_contact_def Let_def intro!: budget_step)

interpretation op_presence: core_operation "\<lambda>c. update_contact_presence c i jid p st" for i jid p st
proof
  fix c
  show "wf_core (snd (update_contact_presence c i jid p st))" if "wf_core c"
    using that wf_contact [OF that]
    by (auto simp: update_contact_presence_def contact_key_def contact_data_def normalize_status_trimmed
        split: option.splits intro!: wf_put_contact)
qed (auto simp: update_contact_presence_def split: option.splits intro!: budget_step)

end
