(* ===== verification/Core_Chats.thy ===== *)
theory Core_Chats
  imports Core_Contract
begin

text \<open>
  The operations of \<^verbatim>\<open>MindChatCore\<close> on conversations, messages and reactions (\<^verbatim>\<open>lib.rs\<close>): opening,
  sending, receiving, attaching, delivery states, reactions, read markers and deletion.
\<close>

section \<open>Definitions\<close>

definition open_conversation ::
  "mindchat_core \<Rightarrow> account_id \<Rightarrow> conversation_kind \<Rightarrow> ustr \<Rightarrow> ustr \<Rightarrow> u64 \<Rightarrow> conversation_id core_result" where
  "open_conversation c account_id kind address title now_epoch_ms =
     try_q (validate_conversation_address address) c (\<lambda>_.
     try_q (ok_or (hm_get (core_accounts c) account_id) (UnknownAccount account_id)) c (\<lambda>account.
       if kind = CK_MultiUserChat \<and> Cap_MultiUserChat \<notin> acct_capabilities account
       then (Inl (CapabilityUnavailable Cap_MultiUserChat), c)
       else (case find (\<lambda>item. cv_account_id item = account_id \<and> cv_kind item = kind \<and> cv_address item = address)
                    (hm_values (core_conversations c)) of
               Some existing \<Rightarrow> (Inr (cv_id existing), c)
             | None \<Rightarrow>
                 let (i, c1) = allocate_conversation_id c;
                     conv = \<lparr>cv_id = i, cv_account_id = account_id, cv_kind = kind, cv_address = address,
                       cv_title = title, cv_unread_count = 0, cv_last_activity_epoch_ms = now_epoch_ms\<rparr>;
                     c2 = c1\<lparr>core_conversations := hm_insert i conv (core_conversations c1)\<rparr>
                 in (Inr i, push_event (ConversationChanged i) c2))))"

text \<open>The check of a reply target in \<^verbatim>\<open>send_text\<close>.\<close>

definition check_reply ::
  "mindchat_core \<Rightarrow> conversation_id \<Rightarrow> message_id option \<Rightarrow> core_error + unit" where
  "check_reply c conversation_id in_reply_to =
     (case in_reply_to of
        None \<Rightarrow> Inr ()
      | Some reply_id \<Rightarrow>
          (case hm_get (core_messages c) reply_id of
             None \<Rightarrow> Inl (UnknownMessage reply_id)
           | Some reply \<Rightarrow>
               if msg_conversation_id reply \<noteq> conversation_id then Inl InvalidReplyTarget else Inr ()))"

definition send_text ::
  "mindchat_core \<Rightarrow> conversation_id \<Rightarrow> ustr \<Rightarrow> ustr \<Rightarrow> message_id option \<Rightarrow> u64 \<Rightarrow> message_id core_result" where
  "send_text c conversation_id sender body in_reply_to now_epoch_ms =
     try_q (ensure_conversation c conversation_id) c (\<lambda>_.
     try_q (check_reply c conversation_id in_reply_to) c (\<lambda>_.
     try_q (validate_body body) c (\<lambda>body.
       let (i, c1) = allocate_message_id c;
           message = \<lparr>msg_id = i, msg_conversation_id = conversation_id, msg_sender = sender,
             msg_body = body, msg_direction = MD_Outgoing, msg_kind = MK_Text,
             msg_sent_at_epoch_ms = now_epoch_ms, msg_delivery_state = DS_Pending,
             msg_in_reply_to = in_reply_to, msg_attachment = None\<rparr>;
           c2 = c1\<lparr>core_messages := hm_insert i message (core_messages c1)\<rparr>;
           (touched, c3) = touch_conversation c2 conversation_id now_epoch_ms False
       in try_q touched c3 (\<lambda>_. (Inr i, push_event (MessageAdded i) c3)))))"

definition receive_text ::
  "mindchat_core \<Rightarrow> conversation_id \<Rightarrow> ustr \<Rightarrow> ustr \<Rightarrow> u64 \<Rightarrow> message_id core_result" where
  "receive_text c conversation_id sender body now_epoch_ms =
     try_q (ensure_conversation c conversation_id) c (\<lambda>_.
     try_q (validate_body body) c (\<lambda>body.
       let (i, c1) = allocate_message_id c;
           message = \<lparr>msg_id = i, msg_conversation_id = conversation_id, msg_sender = sender,
             msg_body = body, msg_direction = MD_Incoming, msg_kind = MK_Text,
             msg_sent_at_epoch_ms = now_epoch_ms, msg_delivery_state = DS_Delivered,
             msg_in_reply_to = None, msg_attachment = None\<rparr>;
           c2 = c1\<lparr>core_messages := hm_insert i message (core_messages c1)\<rparr>;
           (touched, c3) = touch_conversation c2 conversation_id now_epoch_ms True
       in try_q touched c3 (\<lambda>_. (Inr i, push_event (MessageAdded i) c3))))"

text \<open>The second lookup of the message, which the source repeats, is kept.\<close>

definition attach :: "mindchat_core \<Rightarrow> message_id \<Rightarrow> message_kind \<Rightarrow> attachment \<Rightarrow> unit core_result" where
  "attach c message_id kind att =
     (if kind \<noteq> MK_Attachment \<and> kind \<noteq> MK_Voice
      then (Inl (CapabilityUnavailable Cap_HttpFileUpload), c)
      else
        try_q (ok_or (hm_get (core_messages c) message_id) (UnknownMessage message_id)) c (\<lambda>m.
        try_q (ensure_conversation_capability c (msg_conversation_id m) Cap_HttpFileUpload) c (\<lambda>_.
        try_q (ok_or (hm_get (core_messages c) message_id) (UnknownMessage message_id)) c (\<lambda>message.
          (Inr (), push_event (MessageChanged message_id)
             (c\<lparr>core_messages := hm_insert message_id
                (message\<lparr>msg_kind := kind, msg_attachment := Some att\<rparr>) (core_messages c)\<rparr>))))))"

definition set_delivery_state :: "mindchat_core \<Rightarrow> message_id \<Rightarrow> delivery_state \<Rightarrow> unit core_result" where
  "set_delivery_state c message_id delivery_state =
     try_q (ok_or (hm_get (core_messages c) message_id) (UnknownMessage message_id)) c (\<lambda>message.
       (Inr (), push_event (MessageChanged message_id)
          (c\<lparr>core_messages := hm_insert message_id
             (message\<lparr>msg_delivery_state := delivery_state\<rparr>) (core_messages c)\<rparr>)))"

definition add_reaction :: "mindchat_core \<Rightarrow> message_id \<Rightarrow> ustr \<Rightarrow> ustr \<Rightarrow> reaction_id core_result" where
  "add_reaction c message_id actor emoji =
     try_q (ok_or (hm_get (core_messages c) message_id) (UnknownMessage message_id)) c (\<lambda>m.
     try_q (ensure_conversation_capability c (msg_conversation_id m) Cap_MessageReactions) c (\<lambda>_.
       if trim emoji = [] then (Inl EmptyReaction, c)
       else
         let (i, c1) = allocate_reaction_id c;
             c2 = c1\<lparr>core_reactions := hm_insert i
               \<lparr>rx_id = i, rx_message_id = message_id, rx_emoji = emoji, rx_actor = actor\<rparr> (core_reactions c1)\<rparr>
         in (Inr i, push_event (MessageChanged message_id) c2)))"

definition mark_conversation_read :: "mindchat_core \<Rightarrow> conversation_id \<Rightarrow> unit core_result" where
  "mark_conversation_read c conversation_id =
     try_q (ok_or (hm_get (core_conversations c) conversation_id) (UnknownConversation conversation_id)) c (\<lambda>conv.
       (Inr (), push_event (ConversationChanged conversation_id)
          (c\<lparr>core_conversations := hm_insert conversation_id (conv\<lparr>cv_unread_count := 0\<rparr>)
             (core_conversations c)\<rparr>)))"

definition delete_account :: "mindchat_core \<Rightarrow> account_id \<Rightarrow> unit core_result" where
  "delete_account c account_id =
     (if \<not> hm_contains (core_accounts c) account_id then (Inl (UnknownAccount account_id), c)
      else
        let conversation_ids = map cv_id (filter (\<lambda>v. cv_account_id v = account_id)
                                            (hm_values (core_conversations c)));
            c1 = foldl remove_conversation_state c conversation_ids;
            c2 = c1\<lparr>core_contacts := hm_retain (\<lambda>k _. fst k \<noteq> account_id) (core_contacts c1)\<rparr>;
            c3 = c2\<lparr>core_accounts := hm_remove account_id (core_accounts c2)\<rparr>
        in (Inr (), push_event (AccountChanged account_id) c3))"

definition delete_conversation :: "mindchat_core \<Rightarrow> conversation_id \<Rightarrow> unit core_result" where
  "delete_conversation c conversation_id =
     (if \<not> hm_contains (core_conversations c) conversation_id
      then (Inl (UnknownConversation conversation_id), c)
      else (Inr (), push_event (ConversationChanged conversation_id)
                      (remove_conversation_state c conversation_id)))"

text \<open>\<^verbatim>\<open>execute\<close>: the commands of the first-party interface.\<close>

definition execute ::
  "mindchat_core \<Rightarrow> core_command \<Rightarrow> ustr \<Rightarrow> u64 \<Rightarrow> message_id option core_result" where
  "execute c command actor now_epoch_ms =
     (case command of
        SendText conversation_id body in_reply_to \<Rightarrow>
          let (r, c1) = send_text c conversation_id actor body in_reply_to now_epoch_ms
          in (map_sum (\<lambda>e. e) Some r, c1)
      | MarkConversationRead conversation_id \<Rightarrow>
          let (r, c1) = mark_conversation_read c conversation_id
          in try_q r c1 (\<lambda>_. (Inr None, c1))
      | AddReaction message_id emoji \<Rightarrow>
          let (r, c1) = add_reaction c message_id actor emoji
          in try_q r c1 (\<lambda>_. (Inr None, c1)))"

section \<open>Helper facts\<close>

lemma ensure_conversation_iff [simp]:
  "ensure_conversation c i = Inr u \<longleftrightarrow> (\<exists>v. hm_get (core_conversations c) i = Some v)"
  "ensure_conversation c i = Inl e \<longleftrightarrow> hm_get (core_conversations c) i = None \<and> e = UnknownConversation i"
  by (auto simp: ensure_conversation_def hm_contains_def)

lemma touch_unfold:
  assumes "hm_get (core_conversations c) i = Some v"
  shows "touch_conversation c i now b = (Inr (), push_event (ConversationChanged i)
     (c\<lparr>core_conversations := hm_insert i
        (v\<lparr>cv_last_activity_epoch_ms := now,
           cv_unread_count := (if b then saturating_inc (cv_unread_count v) else cv_unread_count v)\<rparr>)
        (core_conversations c)\<rparr>))"
  using assms by (simp add: touch_conversation_def)

lemma wf_touch:
  assumes "wf_core c"
  shows "wf_core (snd (touch_conversation c i now b))"
  using assms
  by (auto simp: touch_conversation_def Let_def conv_key_def split: option.splits intro!: wf_put_conversation)

lemma check_reply_Inr:
  "check_reply c i rep = Inr u \<Longrightarrow> rep = Some r \<Longrightarrow>
     \<exists>w. hm_get (core_messages c) r = Some w \<and> msg_conversation_id w = i"
  by (auto simp: check_reply_def split: option.splits if_splits)

text \<open>A message stored under the next identifier, and its conversation touched.\<close>

lemma wf_add_message:
  assumes "wf_core c" and "next_message_id c < - 1" and "message_data m" and "msg_id m = max (next_message_id c) 1"
    and "hm_get (core_conversations c) (msg_conversation_id m) \<noteq> None"
    and "\<And>r. msg_in_reply_to m = Some r \<Longrightarrow>
      \<exists>w. hm_get (core_messages c) r = Some w \<and> msg_conversation_id w = msg_conversation_id m"
  shows "wf_core (snd (touch_conversation
     (c\<lparr>next_message_id := msg_id m + 1, core_messages := hm_insert (msg_id m) m (core_messages c)\<rparr>) i now b))"
  using assms by (intro wf_touch wf_new_message) simp_all

lemma next_touch [simp]:
  "next_account_id (snd (touch_conversation c i now b)) = next_account_id c"
  "next_conversation_id (snd (touch_conversation c i now b)) = next_conversation_id c"
  "next_message_id (snd (touch_conversation c i now b)) = next_message_id c"
  "next_reaction_id (snd (touch_conversation c i now b)) = next_reaction_id c"
  by (simp_all add: touch_conversation_def Let_def split: option.splits)

lemma remove_conversation_sel [simp]:
  "core_accounts (remove_conversation_state c i) = core_accounts c"
  "core_contacts (remove_conversation_state c i) = core_contacts c"
  "core_events (remove_conversation_state c i) = core_events c"
  "next_account_id (remove_conversation_state c i) = next_account_id c"
  "next_conversation_id (remove_conversation_state c i) = next_conversation_id c"
  "next_message_id (remove_conversation_state c i) = next_message_id c"
  "next_reaction_id (remove_conversation_state c i) = next_reaction_id c"
  "core_conversations (remove_conversation_state c i) = hm_remove i (core_conversations c)"
  by (simp_all add: remove_conversation_state_def Let_def foldl_remove_message)

lemma foldl_remove_conversation_sel [simp]:
  "core_accounts (foldl remove_conversation_state c ids) = core_accounts c"
  "core_contacts (foldl remove_conversation_state c ids) = core_contacts c"
  "core_events (foldl remove_conversation_state c ids) = core_events c"
  "next_account_id (foldl remove_conversation_state c ids) = next_account_id c"
  "next_conversation_id (foldl remove_conversation_state c ids) = next_conversation_id c"
  "next_message_id (foldl remove_conversation_state c ids) = next_message_id c"
  "next_reaction_id (foldl remove_conversation_state c ids) = next_reaction_id c"
  "core_conversations (foldl remove_conversation_state c ids) =
     foldl (\<lambda>m i. hm_remove i m) (core_conversations c) ids"
  by (induction ids arbitrary: c) simp_all

lemma wf_foldl_remove_conversation:
  "wf_core c \<Longrightarrow> wf_core (foldl remove_conversation_state c ids)"
  by (induction ids arbitrary: c) (simp_all add: wf_remove_conversation)

lemma conv_key_make [simp]:
  "conv_key \<lparr>cv_id = n, cv_account_id = i, cv_kind = k, cv_address = a, cv_title = t,
     cv_unread_count = u, cv_last_activity_epoch_ms = l\<rparr> = (i, k, a)"
  by (simp add: conv_key_def)

text \<open>What the search of a conversation by account, kind and address tells.\<close>

abbreviation conv_matches :: "account_id \<Rightarrow> conversation_kind \<Rightarrow> ustr \<Rightarrow> conversation \<Rightarrow> bool" where
  "conv_matches i k a \<equiv> (\<lambda>item. cv_account_id item = i \<and> cv_kind item = k \<and> cv_address item = a)"

lemma find_conv_None:
  assumes "wf_core c" and "find (conv_matches i k a) (hm_values (core_conversations c)) = None"
    and "hm_get (core_conversations c) j = Some w"
  shows "conv_key w \<noteq> (i, k, a)"
  using hm.find_None_get [OF wf_hm_ok(3) [OF assms(1)] assms(2,3)] by (simp add: conv_key_def)

lemma find_conv_Some:
  assumes "wf_core c" and "find (conv_matches i k a) (hm_values (core_conversations c)) = Some w"
  shows "hm_get (core_conversations c) (cv_id w) = Some w" and "conv_key w = (i, k, a)"
  using hm.find_SomeD [OF wf_hm_ok(3) [OF assms(1)] assms(2)] wf_conversation(1) [OF assms(1)]
  by (auto simp: conv_key_def)

section \<open>Every operation on chats keeps the contract\<close>

interpretation op_open: core_operation "\<lambda>c. open_conversation c i k a t now" for i k a t now
proof
  fix c
  show "wf_core (snd (open_conversation c i k a t now))" if "wf_core c" "headroom c"
    using that find_conv_None [OF that(1)]
    by (auto simp: open_conversation_def allocate_conversation_id_def Let_def headroom_def
        validate_address_cases split: try_q_splits option.splits if_splits
        intro!: wf_new_conversation)
qed (auto simp: open_conversation_def allocate_conversation_id_def Let_def
    split: try_q_splits option.splits intro!: budget_step)

interpretation op_attach: core_operation "\<lambda>c. attach c i k a" for i k a
proof
  fix c
  show "wf_core (snd (attach c i k a))" if "wf_core c"
    using that wf_message [OF that]
    by (auto simp: attach_def message_data_def split: try_q_splits if_splits intro!: wf_put_message)
qed (auto simp: attach_def split: try_q_splits intro!: budget_step)

interpretation op_delivery: core_operation "\<lambda>c. set_delivery_state c i s" for i s
proof
  fix c
  show "wf_core (snd (set_delivery_state c i s))" if "wf_core c"
    using that wf_message [OF that]
    by (auto simp: set_delivery_state_def message_data_def split: try_q_splits intro!: wf_put_message)
qed (auto simp: set_delivery_state_def split: try_q_splits intro!: budget_step)

interpretation op_reaction: core_operation "\<lambda>c. add_reaction c i actor emoji" for i actor emoji
proof
  fix c
  show "wf_core (snd (add_reaction c i actor emoji))" if "wf_core c" "headroom c"
    using that
    by (auto simp: add_reaction_def allocate_reaction_id_def Let_def headroom_def
        split: try_q_splits if_splits intro!: wf_new_reaction)
qed (auto simp: add_reaction_def allocate_reaction_id_def Let_def split: try_q_splits intro!: budget_step)

interpretation op_mark_read: core_operation "\<lambda>c. mark_conversation_read c i" for i
proof
  fix c
  show "wf_core (snd (mark_conversation_read c i))" if "wf_core c"
    using that
    by (auto simp: mark_conversation_read_def conv_key_def split: try_q_splits intro!: wf_put_conversation)
qed (auto simp: mark_conversation_read_def split: try_q_splits intro!: budget_step)

interpretation op_delete_conversation: core_operation "\<lambda>c. delete_conversation c i" for i
proof
  fix c
  show "wf_core (snd (delete_conversation c i))" if "wf_core c"
    using that by (simp add: delete_conversation_def wf_remove_conversation)
qed (auto simp: delete_conversation_def intro!: budget_step)

lemma receive_text_wf:
  assumes "wf_core c" and "next_message_id c < - 1"
  shows "wf_core (snd (receive_text c i s b now))"
  using assms wf_add_message [OF assms, of "\<lparr>msg_id = max (next_message_id c) 1, msg_conversation_id = i,
      msg_sender = s, msg_body = trim b, msg_direction = MD_Incoming, msg_kind = MK_Text,
      msg_sent_at_epoch_ms = now, msg_delivery_state = DS_Delivered, msg_in_reply_to = None,
      msg_attachment = None\<rparr>" i now True]
  by (auto simp: receive_text_def allocate_message_id_def Let_def validate_body_Inr message_data_def
      touch_unfold split: try_q_splits)

interpretation op_receive: core_operation "\<lambda>c. receive_text c i s b now" for i s b now
proof
  fix c
  show "wf_core (snd (receive_text c i s b now))" if "wf_core c" "headroom c"
    using that receive_text_wf by (simp add: headroom_def)
qed (auto simp: receive_text_def allocate_message_id_def Let_def touch_unfold
    split: try_q_splits intro!: budget_step)

interpretation op_send: core_operation "\<lambda>c. send_text c i s b rep now" for i s b rep now
proof
  fix c
  show "wf_core (snd (send_text c i s b rep now))" if "wf_core c" "headroom c"
  proof (cases "check_reply c i rep")
    case (Inr u)
    then show ?thesis
      using that check_reply_Inr [OF Inr] wf_add_message [OF that(1), of "\<lparr>msg_id = max (next_message_id c) 1, msg_conversation_id = i,
        msg_sender = s, msg_body = trim b, msg_direction = MD_Outgoing, msg_kind = MK_Text,
        msg_sent_at_epoch_ms = now, msg_delivery_state = DS_Pending, msg_in_reply_to = rep,
        msg_attachment = None\<rparr>" i now False]
      by (auto simp: send_text_def allocate_message_id_def Let_def validate_body_Inr message_data_def headroom_def
          touch_unfold split: try_q_splits)
  qed (use that in \<open>auto simp: send_text_def split: try_q_splits\<close>)
qed (auto simp: send_text_def allocate_message_id_def Let_def touch_unfold
    split: try_q_splits intro!: budget_step)

section \<open>What a deletion leaves\<close>

lemma remove_conv_message:
  assumes "wf_core c"
  shows "hm_get (core_messages (remove_conversation_state c i)) k = Some m \<longleftrightarrow>
    hm_get (core_messages c) k = Some m \<and> msg_conversation_id m \<noteq> i"
  using remove_conversation_tables(10) [OF assms, of i k] by (auto simp: conv_msg_ids_def)

lemma remove_conv_reaction:
  assumes "wf_core c"
  shows "hm_get (core_reactions (remove_conversation_state c i)) k = Some r \<longleftrightarrow>
    hm_get (core_reactions c) k = Some r \<and> rx_message_id r \<notin> conv_msg_ids c i"
  using remove_conversation_tables(11) [OF assms, of i] wf_hm_ok(5) [OF assms]
  by (auto simp: hm.get_ret split: option.splits if_splits)

lemma conv_msg_ids_remove:
  "wf_core c \<Longrightarrow> conv_msg_ids (remove_conversation_state c i) j = (if j = i then {} else conv_msg_ids c j)"
  by (auto simp: conv_msg_ids_def remove_conv_message)

lemma foldl_remove_conv_message:
  "wf_core c \<Longrightarrow> hm_get (core_messages (foldl remove_conversation_state c ids)) k = Some m \<longleftrightarrow>
    hm_get (core_messages c) k = Some m \<and> msg_conversation_id m \<notin> set ids"
  by (induction ids arbitrary: c) (auto simp: wf_remove_conversation remove_conv_message)

lemma foldl_remove_conv_reaction:
  "wf_core c \<Longrightarrow> hm_get (core_reactions (foldl remove_conversation_state c ids)) k = Some r \<longleftrightarrow>
    hm_get (core_reactions c) k = Some r \<and> (\<forall>j \<in> set ids. rx_message_id r \<notin> conv_msg_ids c j)"
  by (induction ids arbitrary: c)
    (auto simp: wf_remove_conversation remove_conv_reaction conv_msg_ids_remove split: if_splits)

lemma wf_remove_account:
  assumes "wf_core d" and "\<And>k v. hm_get (core_conversations d) k = Some v \<Longrightarrow> cv_account_id v \<noteq> i"
  shows "wf_core (d\<lparr>core_contacts := hm_retain (\<lambda>k _. fst k \<noteq> i) (core_contacts d),
     core_accounts := hm_remove i (core_accounts d)\<rparr>)"
proof -
  have ok: "hm_ok (core_contacts d)" using assms(1) by (rule wf_hm_ok)
  have own: "ct_account_id v = fst k" if "hm_get (core_contacts d) k = Some v" for k v
    using wf_contact(1) [OF assms(1) that] by (auto simp: contact_key_def)
  have "refs_to ct_account_id (hm_retain (\<lambda>k _. fst k \<noteq> i) (core_contacts d)) (hm_remove i (core_accounts d))"
    using assms(1) ok own
    by (intro refs_to_remove_tgt) (auto simp: wf_defs hm.get_ret split: option.splits if_splits)
  moreover have "refs_to cv_account_id (core_conversations d) (hm_remove i (core_accounts d))"
    using assms by (intro refs_to_remove_tgt) (auto simp: wf_defs)
  ultimately show ?thesis
    using assms(1) ok by (simp add: wf_defs table_ok_remove)
qed

text \<open>The conversations of an account, as \<^verbatim>\<open>delete_account\<close> collects them.\<close>

abbreviation account_conv_ids :: "mindchat_core \<Rightarrow> account_id \<Rightarrow> conversation_id list" where
  "account_conv_ids c i \<equiv> map cv_id (filter (\<lambda>v. cv_account_id v = i) (hm_values (core_conversations c)))"

lemma account_conv_ids_iff:
  assumes "wf_core c"
  shows "j \<in> set (account_conv_ids c i) \<longleftrightarrow>
    (\<exists>v. hm_get (core_conversations c) j = Some v \<and> cv_account_id v = i)"
  using hm.vals_iff [OF wf_hm_ok(3) [OF assms]] wf_conversation(1) [OF assms] by fastforce

interpretation op_delete_account: core_operation "\<lambda>c. delete_account c i" for i
proof
  fix c
  show "wf_core (snd (delete_account c i))" if "wf_core c"
  proof -
    let ?d = "foldl remove_conversation_state c (account_conv_ids c i)"
    have "cv_account_id v \<noteq> i" if "hm_get (core_conversations ?d) k = Some v" for k v
    proof -
      have "k \<notin> set (account_conv_ids c i)" and "hm_get (core_conversations c) k = Some v"
        using that unfolding foldl_remove_conversation_sel hm_remove_all_get
        by (metis option.distinct(1))+
      then show ?thesis
        unfolding account_conv_ids_iff [OF \<open>wf_core c\<close>] by blast
    qed
    from wf_remove_account [OF wf_foldl_remove_conversation [OF that] this] that show ?thesis
      by (simp add: delete_account_def Let_def del: set_map)
  qed
qed (auto simp: delete_account_def Let_def intro!: budget_step)

interpretation op_execute: core_operation "\<lambda>c. execute c cmd actor now" for cmd actor now
proof (cases cmd)
  case (SendText i b rep)
  then show "core_operation (\<lambda>c. execute c cmd actor now)"
    using core_operation_map [OF op_send.core_operation_axioms, of Some i actor b rep now]
    by (simp add: execute_def Let_def case_prod_beta)
next
  case (MarkConversationRead i)
  with core_operation_then [OF op_mark_read.core_operation_axioms, of i None]
  show "core_operation (\<lambda>c. execute c cmd actor now)"
    by (simp add: execute_def)
next
  case (AddReaction i e)
  with core_operation_then [OF op_reaction.core_operation_axioms, of i actor e None]
  show "core_operation (\<lambda>c. execute c cmd actor now)"
    by (simp add: execute_def)
qed

end
