(* ===== verification/Core_Events.thy ===== *)
theory Core_Events
  imports Core_Accounts Core_Chats
begin

text \<open>
  The transport side of \<^verbatim>\<open>MindChatCore\<close> (\<^verbatim>\<open>lib.rs\<close>): the projection of transport events
  (\<^verbatim>\<open>apply_transport_event\<close> with \<^verbatim>\<open>apply_delivery_update\<close> and \<^verbatim>\<open>receive_transport_text\<close>) and the
  queue of outgoing messages (\<^verbatim>\<open>pending_outgoing_messages\<close>).
\<close>

section \<open>Definitions\<close>

definition apply_delivery_update ::
  "mindchat_core \<Rightarrow> account_id \<Rightarrow> ustr \<Rightarrow> message_id \<Rightarrow> delivery_state \<Rightarrow> bool core_result" where
  "apply_delivery_update c account_id sender message_id delivery_state =
     (if \<not> hm_contains (core_accounts c) account_id \<or> is_err (validate_jid sender) then (Inr False, c)
      else (case hm_get (core_messages c) message_id of
        None \<Rightarrow> (Inr False, c)
      | Some message \<Rightarrow>
          if msg_direction message \<noteq> MD_Outgoing then (Inr False, c)
          else (case hm_get (core_conversations c) (msg_conversation_id message) of
            None \<Rightarrow> (Inr False, c)
          | Some conv \<Rightarrow>
              if cv_account_id conv \<noteq> account_id \<or> cv_kind conv \<noteq> CK_Direct \<or> cv_address conv \<noteq> sender
              then (Inr False, c)
              else if delivery_rank delivery_state \<le> delivery_rank (msg_delivery_state message)
              then (Inr False, c)
              else let (r, c1) = set_delivery_state c message_id delivery_state
                   in try_q r c1 (\<lambda>_. (Inr True, c1)))))"

text \<open>The iterator chain of \<^verbatim>\<open>pending_outgoing_messages\<close>: filter, then filter and map in one.\<close>

definition is_pending :: "message \<Rightarrow> bool" where
  "is_pending message \<longleftrightarrow> msg_direction message = MD_Outgoing \<and>
     (msg_delivery_state message = DS_Pending \<or> msg_delivery_state message = DS_Failed)"

definition outgoing_of :: "mindchat_core \<Rightarrow> account_id \<Rightarrow> message \<Rightarrow> outgoing_message option" where
  "outgoing_of c account_id message =
     (case hm_get (core_conversations c) (msg_conversation_id message) of
        None \<Rightarrow> None
      | Some conv \<Rightarrow>
          if cv_account_id conv = account_id
          then Some \<lparr>om_account_id = account_id, om_conversation_id = cv_id conv,
                 om_message_id = msg_id message, om_kind = cv_kind conv,
                 om_recipient = cv_address conv, om_body = msg_body message,
                 om_in_reply_to = msg_in_reply_to message\<rparr>
          else None)"

definition pending_outgoing_messages ::
  "mindchat_core \<Rightarrow> account_id \<Rightarrow> core_error + outgoing_message list" where
  "pending_outgoing_messages c account_id =
     (if \<not> hm_contains (core_accounts c) account_id then Inl (UnknownAccount account_id)
      else Inr (sort_key om_message_id
        (List.map_filter (outgoing_of c account_id) (filter is_pending (hm_values (core_messages c))))))"

definition receive_transport_text ::
  "mindchat_core \<Rightarrow> account_id \<Rightarrow> conversation_kind \<Rightarrow> ustr \<Rightarrow> ustr \<Rightarrow> ustr \<Rightarrow> u64
    \<Rightarrow> message_id option core_result" where
  "receive_transport_text c account_id kind address sender body received_at_epoch_ms =
     (if \<not> hm_contains (core_accounts c) account_id then (Inr None, c)
      else if is_err (validate_conversation_address address) then (Inr None, c)
      else try_q (validate_body body) c (\<lambda>_.
        let existing_conversation_id = map_option cv_id
              (find (conv_matches account_id kind address) (hm_values (core_conversations c)));
            (conversation_id, c1) =
              (case existing_conversation_id of
                 Some i \<Rightarrow> (i, c)
               | None \<Rightarrow>
                   let (i, c1) = allocate_conversation_id c;
                       title = hd (split_on at_sign address);
                       conv = \<lparr>cv_id = i, cv_account_id = account_id, cv_kind = kind,
                         cv_address = address, cv_title = title, cv_unread_count = 0,
                         cv_last_activity_epoch_ms = received_at_epoch_ms\<rparr>;
                       c2 = c1\<lparr>core_conversations := hm_insert i conv (core_conversations c1)\<rparr>
                   in (i, push_event (ConversationChanged i) c2));
            (r, c3) = receive_text c1 conversation_id sender body received_at_epoch_ms
        in (map_sum (\<lambda>e. e) Some r, c3)))"

definition apply_transport_event ::
  "mindchat_core \<Rightarrow> transport_event \<Rightarrow> message_id option core_result" where
  "apply_transport_event c event =
     (case event of
        Connected account_id capabilities \<Rightarrow>
          (case hm_get (core_accounts c) account_id of
             None \<Rightarrow> (Inr None, c)
           | Some account \<Rightarrow> (Inr None, push_event (AccountChanged account_id)
               (c\<lparr>core_accounts := hm_insert account_id
                  (account\<lparr>acct_connection_state := CS_Online, acct_capabilities := capabilities,
                     acct_connection_error := None, acct_disconnect_kind := None\<rparr>)
                  (core_accounts c)\<rparr>)))
      | Disconnected account_id recoverable detail kind \<Rightarrow>
          (case hm_get (core_accounts c) account_id of
             None \<Rightarrow> (Inr None, c)
           | Some account \<Rightarrow> (Inr None, push_event (AccountChanged account_id)
               (c\<lparr>core_accounts := hm_insert account_id
                  (account\<lparr>acct_connection_state := (if recoverable then CS_Offline else CS_Failed),
                     acct_connection_error := detail, acct_disconnect_kind := Some kind\<rparr>)
                  (core_accounts c)\<rparr>)))
      | CapabilitiesDiscovered account_id capabilities \<Rightarrow>
          (if hm_contains (core_accounts c) account_id
           then let (r, c1) = set_capabilities c account_id (sorted_list_of_set capabilities)
                in try_q r c1 (\<lambda>_. (Inr None, c1))
           else (Inr None, c))
      | RosterContactUpsert account_id jid display_name subscription \<Rightarrow>
          let (r, c1) = sync_roster_contact c account_id jid display_name subscription
          in try_q r c1 (\<lambda>_. (Inr None, c1))
      | RosterContactRemoved account_id jid \<Rightarrow>
          let (r, c1) = remove_contact c account_id jid in try_q r c1 (\<lambda>_. (Inr None, c1))
      | ContactPresenceUpdated account_id jid presence status \<Rightarrow>
          let (r, c1) = update_contact_presence c account_id jid presence status
          in try_q r c1 (\<lambda>_. (Inr None, c1))
      | IncomingText account_id kind address sender body received_at_epoch_ms \<Rightarrow>
          receive_transport_text c account_id kind address sender body received_at_epoch_ms
      | DeliveryUpdated account_id sender message_id state \<Rightarrow>
          let (r, c1) = apply_delivery_update c account_id sender message_id state
          in try_q r c1 (\<lambda>_. (Inr None, c1)))"

section \<open>Every transport operation keeps the contract\<close>

interpretation op_delivery_update: core_operation "\<lambda>c. apply_delivery_update c i s m d" for i s m d
proof
  fix c
  show "wf_core (snd (apply_delivery_update c i s m d))" if "wf_core c" "headroom c"
    using that op_delivery.op_wf [OF that, of m d]
    by (auto simp: apply_delivery_update_def Let_def try_q_done split: option.splits prod.splits)
  show "snd (apply_delivery_update c i s m d) = c" if "fst (apply_delivery_update c i s m d) = Inl e" for e
    using that op_delivery.op_atomic [of c m d]
    by (auto simp: apply_delivery_update_def Let_def try_q_done set_delivery_state_def split: option.splits if_splits)
  show "\<exists>es. core_events (snd (apply_delivery_update c i s m d)) = core_events c @ es"
    using op_delivery.op_log [of c m d]
    by (auto simp: apply_delivery_update_def Let_def try_q_done split: option.splits prod.splits)
  show "budget (snd (apply_delivery_update c i s m d)) \<le> budget c + 1"
    using op_delivery.op_budget [of c m d]
    by (auto simp: apply_delivery_update_def Let_def try_q_done split: option.splits prod.splits)
qed

text \<open>The conversation an incoming text goes to, found or created.\<close>

definition inbound_conversation ::
  "mindchat_core \<Rightarrow> account_id \<Rightarrow> conversation_kind \<Rightarrow> ustr \<Rightarrow> u64 \<Rightarrow> conversation_id \<times> mindchat_core" where
  "inbound_conversation c i k a now =
     (case find (conv_matches i k a) (hm_values (core_conversations c)) of
        Some v \<Rightarrow> (cv_id v, c)
      | None \<Rightarrow> (max (next_conversation_id c) 1, push_event (ConversationChanged (max (next_conversation_id c) 1))
          (c\<lparr>next_conversation_id := max (next_conversation_id c) 1 + 1,
             core_conversations := hm_insert (max (next_conversation_id c) 1)
               \<lparr>cv_id = max (next_conversation_id c) 1, cv_account_id = i, cv_kind = k, cv_address = a,
                 cv_title = hd (split_on at_sign a), cv_unread_count = 0, cv_last_activity_epoch_ms = now\<rparr>
               (core_conversations c)\<rparr>)))"

lemma receive_transport_unfold:
  "receive_transport_text c i k a s b now =
     (if \<not> hm_contains (core_accounts c) i \<or> \<not> bare_jid a then (Inr None, c)
      else (case validate_body b of
         Inl e \<Rightarrow> (Inl e, c)
       | Inr _ \<Rightarrow> (case inbound_conversation c i k a now of (j, d) \<Rightarrow>
            (map_sum (\<lambda>e. e) Some (fst (receive_text d j s b now)), snd (receive_text d j s b now)))))"
  by (simp add: receive_transport_text_def inbound_conversation_def allocate_conversation_id_def Let_def
      validate_address_cases case_prod_beta split: sum.splits option.splits)

lemma inbound_conversation_props:
  assumes "wf_core c" and "headroom c" and "hm_contains (core_accounts c) i" and "bare_jid a"
    and "inbound_conversation c i k a now = (j, d)"
  shows "wf_core d" and "next_message_id d = next_message_id c" and "core_messages d = core_messages c"
    and "\<exists>v. hm_get (core_conversations d) j = Some v \<and> conv_key v = (i, k, a)"
  using assms find_conv_None [OF assms(1), of i k a] find_conv_Some [OF assms(1), of i k a]
  by (auto simp: inbound_conversation_def headroom_def hm_contains_def split: option.splits
      intro!: wf_new_conversation)

lemma inbound_conversation_sel:
  assumes "inbound_conversation c i k a now = (j, d)"
  shows "core_events d = core_events c @ (if d = c then [] else [ConversationChanged j])"
    and "next_account_id d = next_account_id c" and "next_message_id d = next_message_id c"
    and "next_reaction_id d = next_reaction_id c"
    and "next_conversation_id d \<in> {next_conversation_id c, max (next_conversation_id c) 1 + 1}"
proof -
  show "core_events d = core_events c @ (if d = c then [] else [ConversationChanged j])"
    using assms by (auto simp: inbound_conversation_def push_event_def split: option.splits)
qed (use assms in \<open>auto simp: inbound_conversation_def split: option.splits\<close>)

lemma receive_text_next:
  "next_account_id (snd (receive_text c i s b now)) = next_account_id c"
  "next_conversation_id (snd (receive_text c i s b now)) = next_conversation_id c"
  "next_reaction_id (snd (receive_text c i s b now)) = next_reaction_id c"
  "next_message_id (snd (receive_text c i s b now)) \<in> {next_message_id c, max (next_message_id c) 1 + 1}"
  by (auto simp: receive_text_def allocate_message_id_def Let_def touch_unfold split: try_q_splits)

lemma receive_text_Inr:
  assumes "hm_get (core_conversations c) i = Some v" and "validate_body b = Inr t"
  shows "fst (receive_text c i s b now) = Inr (max (next_message_id c) 1)"
  using assms by (simp add: receive_text_def allocate_message_id_def Let_def touch_unfold ensure_conversation_def hm_contains_def)

interpretation op_transport_text: core_operation "\<lambda>c. receive_transport_text c i k a s b now" for i k a s b now
proof
  fix c
  obtain j d where jd: "inbound_conversation c i k a now = (j, d)" by fastforce
  note sel = inbound_conversation_sel [OF jd] and unf = receive_transport_unfold jd
  show "wf_core (snd (receive_transport_text c i k a s b now))" if "wf_core c" "headroom c"
    using that inbound_conversation_props [OF that _ _ jd] receive_text_wf [of d]
    by (simp add: unf headroom_def split: sum.splits)
  show "snd (receive_transport_text c i k a s b now) = c"
    if "wf_core c" "fst (receive_transport_text c i k a s b now) = Inl e" for e
  proof -
    have "\<exists>v. hm_get (core_conversations d) j = Some v"
      using jd find_conv_Some(1) [OF that(1), of i k a] by (auto simp: inbound_conversation_def split: option.splits)
    then have "validate_body b = Inr t \<Longrightarrow> \<exists>n. fst (receive_text d j s b now) = Inr n" for t
      using receive_text_Inr by blast
    with that(2) show ?thesis
      by (fastforce simp: unf split: sum.splits if_splits)
  qed
  show "\<exists>es. core_events (snd (receive_transport_text c i k a s b now)) = core_events c @ es"
    using op_receive.op_log [of d j s b now] sel(1) by (auto simp: unf split: sum.splits)
  show "budget (snd (receive_transport_text c i k a s b now)) \<le> budget c + 1"
    using sel receive_text_next [of d j s b now]
    by (auto simp: unf split: sum.splits intro!: budget_step)
qed

lemma core_operation_account_event:
  assumes "keeps_identity f"
  shows "core_operation (\<lambda>c. case hm_get (core_accounts c) i of None \<Rightarrow> (Inr x, c)
    | Some account \<Rightarrow> (Inr x, push_event (AccountChanged i)
        (c\<lparr>core_accounts := hm_insert i (f account) (core_accounts c)\<rparr>)))"
proof -
  have "(case hm_get (core_accounts c) i of None \<Rightarrow> (Inr x, c)
      | Some account \<Rightarrow> (Inr x, push_event (AccountChanged i)
          (c\<lparr>core_accounts := hm_insert i (f account) (core_accounts c)\<rparr>)))
    = (if hm_get (core_accounts c) i = None then (Inr x, c)
       else (map_sum (\<lambda>e. e) (\<lambda>_. x) (fst (modify_account c i f)), snd (modify_account c i f)))" for c
    by (simp add: modify_account_def split: option.splits)
  then show ?thesis
    using core_operation_if [OF core_operation_read [of "\<lambda>_. Inr x"]
        core_operation_map [OF modify_account_contract [OF assms, of i], of "\<lambda>_. x"]]
    by simp
qed

interpretation op_event: core_operation "\<lambda>c. apply_transport_event c ev" for ev
proof (cases ev)
  case (Connected i caps)
  then show "core_operation (\<lambda>c. apply_transport_event c ev)"
    using core_operation_account_event [of "\<lambda>account. account\<lparr>acct_connection_state := CS_Online,
      acct_capabilities := caps, acct_connection_error := None, acct_disconnect_kind := None\<rparr>" None i]
    by (simp add: apply_transport_event_def keeps_identity_def)
next
  case (Disconnected i r d k)
  then show "core_operation (\<lambda>c. apply_transport_event c ev)"
    using core_operation_account_event [of "\<lambda>account. account\<lparr>
      acct_connection_state := (if r then CS_Offline else CS_Failed),
      acct_connection_error := d, acct_disconnect_kind := Some k\<rparr>" None i]
    by (simp add: apply_transport_event_def keeps_identity_def)
next
  case (CapabilitiesDiscovered i caps)
  then show "core_operation (\<lambda>c. apply_transport_event c ev)"
    using core_operation_if [OF core_operation_then [OF op_set_capabilities.core_operation_axioms,
          of i "sorted_list_of_set caps" None] core_operation_read [of "\<lambda>_. Inr None"],
        of "\<lambda>c. hm_contains (core_accounts c) i"]
    by (simp add: apply_transport_event_def)
next
  case (RosterContactUpsert i jid name sub)
  then show "core_operation (\<lambda>c. apply_transport_event c ev)"
    using core_operation_then [OF op_sync_roster.core_operation_axioms, of i jid name sub None]
    by (simp add: apply_transport_event_def)
next
  case (RosterContactRemoved i jid)
  then show "core_operation (\<lambda>c. apply_transport_event c ev)"
    using core_operation_then [OF op_remove_contact.core_operation_axioms, of i jid None]
    by (simp add: apply_transport_event_def)
next
  case (ContactPresenceUpdated i jid p st)
  then show "core_operation (\<lambda>c. apply_transport_event c ev)"
    using core_operation_then [OF op_presence.core_operation_axioms, of i jid p st None]
    by (simp add: apply_transport_event_def)
next
  case (IncomingText i k a s b now)
  then show "core_operation (\<lambda>c. apply_transport_event c ev)"
    using op_transport_text.core_operation_axioms by (simp add: apply_transport_event_def)
next
  case (DeliveryUpdated i s m d)
  then show "core_operation (\<lambda>c. apply_transport_event c ev)"
    using core_operation_then [OF op_delivery_update.core_operation_axioms, of i s m d None]
    by (simp add: apply_transport_event_def)
qed

end
