(* ===== verification/Core_Runs.thy ===== *)
theory Core_Runs
  imports Core_Events
begin

text \<open>
  The public interface of \<^verbatim>\<open>MindChatCore\<close> as one relation: a call is a value of \<open>core_call\<close>, a run
  is a sequence of calls and of drains of the event queue. The invariant, the atomicity of errors
  and the completeness of the event log hold along every run.
\<close>

section \<open>Calls\<close>

datatype core_call =
    Call_add_account account_setup
  | Call_set_connection_state account_id connection_state
  | Call_set_capabilities account_id "protocol_capability list"
  | Call_upsert_contact account_id ustr ustr contact_presence "ustr option"
  | Call_sync_roster_contact account_id ustr ustr roster_subscription
  | Call_remove_contact account_id ustr
  | Call_update_contact_presence account_id ustr contact_presence "ustr option"
  | Call_apply_transport_event transport_event
  | Call_open_conversation account_id conversation_kind ustr ustr u64
  | Call_execute core_command ustr u64
  | Call_send_text conversation_id ustr ustr "message_id option" u64
  | Call_receive_text conversation_id ustr ustr u64
  | Call_attach message_id message_kind attachment
  | Call_set_delivery_state message_id delivery_state
  | Call_add_reaction message_id ustr ustr
  | Call_mark_conversation_read conversation_id
  | Call_delete_account account_id
  | Call_delete_conversation conversation_id
  | Call_update_account_display_name account_id ustr
  | Call_set_account_proxies account_id "proxy_config list"

text \<open>The outcome of a call without the value it returns.\<close>

definition outcome :: "'a core_result \<Rightarrow> unit core_result" where
  "outcome p = (map_sum (\<lambda>e. e) (\<lambda>_. ()) (fst p), snd p)"

fun perform :: "core_call \<Rightarrow> mindchat_core \<Rightarrow> unit core_result" where
  "perform (Call_add_account su) = (\<lambda>c. outcome (add_account c su))"
| "perform (Call_set_connection_state i s) = (\<lambda>c. outcome (set_connection_state c i s))"
| "perform (Call_set_capabilities i caps) = (\<lambda>c. outcome (set_capabilities c i caps))"
| "perform (Call_upsert_contact i jid name p st) = (\<lambda>c. outcome (upsert_contact c i jid name p st))"
| "perform (Call_sync_roster_contact i jid name sub) = (\<lambda>c. outcome (sync_roster_contact c i jid name sub))"
| "perform (Call_remove_contact i jid) = (\<lambda>c. outcome (remove_contact c i jid))"
| "perform (Call_update_contact_presence i jid p st) = (\<lambda>c. outcome (update_contact_presence c i jid p st))"
| "perform (Call_apply_transport_event ev) = (\<lambda>c. outcome (apply_transport_event c ev))"
| "perform (Call_open_conversation i k a t now) = (\<lambda>c. outcome (open_conversation c i k a t now))"
| "perform (Call_execute cmd actor now) = (\<lambda>c. outcome (execute c cmd actor now))"
| "perform (Call_send_text i s b rep now) = (\<lambda>c. outcome (send_text c i s b rep now))"
| "perform (Call_receive_text i s b now) = (\<lambda>c. outcome (receive_text c i s b now))"
| "perform (Call_attach i k a) = (\<lambda>c. outcome (attach c i k a))"
| "perform (Call_set_delivery_state i s) = (\<lambda>c. outcome (set_delivery_state c i s))"
| "perform (Call_add_reaction i actor e) = (\<lambda>c. outcome (add_reaction c i actor e))"
| "perform (Call_mark_conversation_read i) = (\<lambda>c. outcome (mark_conversation_read c i))"
| "perform (Call_delete_account i) = (\<lambda>c. outcome (delete_account c i))"
| "perform (Call_delete_conversation i) = (\<lambda>c. outcome (delete_conversation c i))"
| "perform (Call_update_account_display_name i n) = (\<lambda>c. outcome (update_account_display_name c i n))"
| "perform (Call_set_account_proxies i ps) = (\<lambda>c. outcome (set_account_proxies c i ps))"

lemma outcome_operation: "core_operation f \<Longrightarrow> core_operation (\<lambda>c. outcome (f c))"
  unfolding outcome_def by (rule core_operation_map)

interpretation call: core_operation "perform k" for k
  by (cases k)
    (simp_all add: outcome_operation op_add_account.core_operation_axioms
      op_set_connection_state.core_operation_axioms op_set_capabilities.core_operation_axioms
      op_upsert_contact.core_operation_axioms op_sync_roster.core_operation_axioms
      op_remove_contact.core_operation_axioms op_presence.core_operation_axioms
      op_event.core_operation_axioms op_open.core_operation_axioms op_execute.core_operation_axioms
      op_send.core_operation_axioms op_receive.core_operation_axioms op_attach.core_operation_axioms
      op_delivery.core_operation_axioms op_reaction.core_operation_axioms
      op_mark_read.core_operation_axioms op_delete_account.core_operation_axioms
      op_delete_conversation.core_operation_axioms op_rename.core_operation_axioms
      op_set_proxies.core_operation_axioms)

section \<open>Runs\<close>

text \<open>\<open>core_run n c log d\<close>: after \<open>n\<close> calls from \<open>c\<close>, with the events of \<open>log\<close> drained on the way, the
  state is \<open>d\<close>.\<close>

inductive core_run :: "nat \<Rightarrow> mindchat_core \<Rightarrow> core_event list \<Rightarrow> mindchat_core \<Rightarrow> bool" where
  run_start: "core_run 0 c [] c"
| run_call: "core_run n c log d \<Longrightarrow> perform k d = (r, d') \<Longrightarrow> core_run (Suc n) c log d'"
| run_drain: "core_run n c log d \<Longrightarrow> drain_events d = (es, d') \<Longrightarrow> core_run n c (log @ es) d'"

inductive_cases core_run_0E: "core_run 0 c log d"
inductive_cases core_run_SucE: "core_run (Suc n) c log d"

lemma perform_snd: "perform k d = (r, d') \<Longrightarrow> d' = snd (perform k d)"
  by simp

lemma budget_events [simp]: "budget (c\<lparr>core_events := es\<rparr>) = budget c"
  by (simp add: budget_def)

lemma run_wf:
  assumes "core_run n c log d" and "wf_core c" and "budget c + n < 2 ^ 64 - 1"
  shows "wf_core d \<and> budget d \<le> budget c + n"
  using assms
proof (induction rule: core_run.induct)
  case (run_call n c log d k r d')
  then have d: "wf_core d" "budget d \<le> budget c + n" by simp_all
  moreover have "budget d < 2 ^ 64 - 1" using d(2) run_call.prems(2) by linarith
  ultimately have "wf_core (snd (perform k d))" using call.op_wf_bounded by blast
  then show ?case
    using d(2) call.op_budget [where k = k and c = d] perform_snd [OF run_call.hyps(2)] by simp
next
  case (run_drain n c log d es d')
  then show ?case by (auto simp: drain_events_def)
qed simp

lemma run_log_grows:
  assumes "core_run n c log d"
  shows "\<exists>es. log @ core_events d = core_events c @ es"
  using assms
proof (induction rule: core_run.induct)
  case (run_call n c log d k r d')
  then show ?case
    using call.op_log [where k = k and c = d] perform_snd [OF run_call.hyps(2)] by (metis append.assoc)
next
  case (run_drain n c log d es d')
  then show ?case by (auto simp: drain_events_def)
qed simp

end
