(* ===== verification/Core_Snapshot.thy ===== *)
theory Core_Snapshot
  imports Core_Runs "HOL-Library.Multiset"
begin

text \<open>
  Snapshots: they do not depend on the iteration order of the hash maps, and a core restored from
  the snapshot of a well-formed one is well formed and has the same snapshot.
\<close>

section \<open>Sorted values of a table\<close>

lemma keyed_values:
  assumes "keyed key m"
  shows "distinct (map key (hm_values m))"
proof -
  have "map key (hm_values m) = map fst m"
  proof -
    have "key (snd kv) = fst kv" if "kv \<in> set m" for kv
    proof (cases kv)
      case (Pair k v)
      then have "hm_get m k = Some v"
        using assms that by (simp add: keyed_def hm_ok_def)
      with Pair keyedD [OF assms] show ?thesis by simp
    qed
    then show ?thesis by (simp add: hm_values_def)
  qed
  then show ?thesis using assms by (simp add: keyed_def hm_ok_def)
qed

lemma table_keyed: "table_ok idf nxt m \<Longrightarrow> keyed idf m"
  by (auto simp: table_ok_def keyed_def)

text \<open>Two tables with the same lookups have the same values in key order.\<close>

lemma sorted_values_eq:
  fixes key :: "'v \<Rightarrow> 'k :: linorder"
  assumes "keyed key m" and "keyed key n" and "hm_get m = hm_get n"
  shows "sort_key key (hm_values m) = sort_key key (hm_values n)"
proof -
  have "distinct (hm_values m)" and "distinct (hm_values n)"
    using keyed_values assms(1,2) distinct_map by blast+
  moreover have "set (hm_values m) = set (hm_values n)"
    using hm_same_values assms by blast
  ultimately have "mset (hm_values m) = mset (sort_key key (hm_values n))"
    by (metis mset_sort set_eq_iff_mset_eq_distinct)
  moreover have "inj_on key (set (hm_values m))"
    using keyed_values [OF assms(1)] by (simp add: distinct_map)
  ultimately show ?thesis by (rule sort_key_inj_key_eq) simp
qed

text \<open>Collecting the sorted values again gives the same lookups.\<close>

lemma collect_sorted_values:
  assumes "keyed key m"
  shows "hm_get (hm_collect key (sort_key key (hm_values m))) = hm_get m"
proof
  fix k
  let ?vs = "sort_key key (hm_values m)"
  have d: "distinct (map key ?vs)"
    using keyed_values [OF assms] by (simp add: distinct_map)
  show "hm_get (hm_collect key ?vs) k = hm_get m k"
  proof (cases "hm_get m k")
    case None
    then have "k \<notin> key ` set ?vs"
      using keyedD [OF assms] hm.vals_iff [of m] assms by (fastforce simp: keyed_def)
    with None show ?thesis using hm_collect_dom [of key ?vs] by auto
  next
    case (Some v)
    then have "v \<in> set ?vs" and "key v = k"
      using hm.valsI [OF _ Some] keyedD [OF assms Some] assms by (auto simp: keyed_def)
    with Some hm_collect_distinct [OF d] show ?thesis by auto
  qed
qed

lemma fold_max_ge: "n \<in> set ns \<Longrightarrow> n \<le> fold max ns (k :: u64)"
  unfolding Max.set_eq_fold [symmetric] by (rule Max_ge) auto

lemma fold_max_le: "(\<And>n. n \<in> set ns \<Longrightarrow> n < b) \<Longrightarrow> k < b \<Longrightarrow> fold max ns (k :: u64) < b"
  unfolding Max.set_eq_fold [symmetric] by (subst Max_less_iff) auto

lemma next_id_restored:
  assumes "table_ok idf nxt m"
  shows "table_ok idf (next_id idf (sort_key idf (hm_values m))) (hm_collect idf (sort_key idf (hm_values m)))"
    and "nxt \<noteq> 0 \<Longrightarrow> next_id idf (sort_key idf (hm_values m)) \<le> nxt"
proof -
  let ?ns = "map idf (sort_key idf (hm_values m))"
  let ?M = "fold max ?ns 0"
  have lt: "n < nxt" if "n \<in> set ?ns" for n
    using that assms hm.vals_iff [of m] by (auto simp: table_ok_def)
  have M: "?M < nxt" if "nxt \<noteq> 0"
    by (rule fold_max_le) (use lt that in \<open>auto simp: word_neq_0_conv\<close>)
  show "next_id idf (sort_key idf (hm_values m)) \<le> nxt" if "nxt \<noteq> 0"
    using M [OF that] unfolding next_id_def by unat_arith
  have "idf v = k \<and> 1 \<le> k \<and> k < ?M + 1" if "hm_get m k = Some v" for k v
  proof -
    have k: "idf v = k" "1 \<le> k" "k < nxt" using table_okD [OF assms that] by simp_all
    then have "k \<le> ?M"
      using that hm.valsI [OF _ that] assms by (intro fold_max_ge) (auto simp: table_ok_def)
    moreover have "?M < nxt" using M k(3) by fastforce
    ultimately have "k < ?M + 1" by unat_arith
    with k show ?thesis by simp
  qed
  then show "table_ok idf (next_id idf (sort_key idf (hm_values m))) (hm_collect idf (sort_key idf (hm_values m)))"
    using collect_sorted_values [OF table_keyed [OF assms]] by (simp add: table_ok_def next_id_def)
qed

section \<open>Restoring a snapshot\<close>

lemma wf_keyed:
  assumes "wf_core c"
  shows "keyed acct_id (core_accounts c)" "keyed contact_key (core_contacts c)"
    "keyed cv_id (core_conversations c)" "keyed msg_id (core_messages c)" "keyed rx_id (core_reactions c)"
  using assms table_keyed by (auto simp: wf_core_def tables_ok_def)

lemma restored_tables:
  assumes "wf_core c"
  shows "hm_get (core_accounts (from_snapshot (snapshot c))) = hm_get (core_accounts c)"
    and "hm_get (core_contacts (from_snapshot (snapshot c))) = hm_get (core_contacts c)"
    and "hm_get (core_conversations (from_snapshot (snapshot c))) = hm_get (core_conversations c)"
    and "hm_get (core_messages (from_snapshot (snapshot c))) = hm_get (core_messages c)"
    and "hm_get (core_reactions (from_snapshot (snapshot c))) = hm_get (core_reactions c)"
  using wf_keyed [OF assms] by (simp_all add: from_snapshot_def snapshot_def collect_sorted_values)

text \<open>The clauses of the invariant other than \<open>tables_ok\<close> only look values up.\<close>

lemma wf_same_lookups:
  assumes "wf_core c" and "tables_ok d"
    and "hm_get (core_accounts d) = hm_get (core_accounts c)" and "hm_get (core_contacts d) = hm_get (core_contacts c)"
    and "hm_get (core_conversations d) = hm_get (core_conversations c)"
    and "hm_get (core_messages d) = hm_get (core_messages c)"
    and "hm_get (core_reactions d) = hm_get (core_reactions c)"
  shows "wf_core d"
  using assms
  by (simp add: wf_core_def refs_ok_def data_ok_def refs_to_def all_values_def replies_ok_def convs_unique_def)

lemma restored_tables_ok:
  assumes "wf_core c"
  shows "tables_ok (from_snapshot (snapshot c))"
proof -
  have "keyed contact_key (hm_collect contact_key (sort_key contact_key (hm_values (core_contacts c))))"
    using collect_sorted_values [OF wf_keyed(2) [OF assms]] wf_keyed(2) [OF assms] by (simp add: keyed_def)
  then show ?thesis
    using assms by (auto simp: wf_core_def tables_ok_def from_snapshot_def snapshot_def intro: next_id_restored(1))
qed

lemma snapshot_same_lookups:
  assumes "wf_core c" and "wf_core d"
    and "hm_get (core_accounts d) = hm_get (core_accounts c)" and "hm_get (core_contacts d) = hm_get (core_contacts c)"
    and "hm_get (core_conversations d) = hm_get (core_conversations c)"
    and "hm_get (core_messages d) = hm_get (core_messages c)"
    and "hm_get (core_reactions d) = hm_get (core_reactions c)"
  shows "snapshot d = snapshot c"
proof -
  note k = wf_keyed [OF assms(2)] and l = wf_keyed [OF assms(1)]
  show ?thesis
    unfolding snapshot_def
    by (simp only: sorted_values_eq [OF k(1) l(1) assms(3)] sorted_values_eq [OF k(2) l(2) assms(4)]
        sorted_values_eq [OF k(3) l(3) assms(5)] sorted_values_eq [OF k(4) l(4) assms(6)]
        sorted_values_eq [OF k(5) l(5) assms(7)])
qed

lemma restored_wf: "wf_core c \<Longrightarrow> wf_core (from_snapshot (snapshot c))"
  using wf_same_lookups restored_tables_ok restored_tables by blast

lemma restored_snapshot: "wf_core c \<Longrightarrow> snapshot (from_snapshot (snapshot c)) = snapshot c"
  using snapshot_same_lookups restored_wf restored_tables by blast

section \<open>Stores\<close>

text \<open>The trait \<^verbatim>\<open>CoreStore\<close>: what its clients rely on is that a load gives the snapshot that was saved last.
  \<^verbatim>\<open>InMemoryStore\<close> is the implementation the crate comes with.\<close>

locale core_store =
  fixes store_load :: "'s \<Rightarrow> core_error + core_snapshot"
    and store_save :: "'s \<Rightarrow> core_snapshot \<Rightarrow> (core_error + unit) \<times> 's"
  assumes load_saved: "store_save s snap = (Inr (), s') \<Longrightarrow> store_load s' = Inr snap"
begin

text \<open>A core saved in a store comes back with the same lookups, and saving it again changes nothing.\<close>

lemma saved_core:
  assumes "wf_core c" and "store_save s (snapshot c) = (Inr (), s')"
  shows "\<exists>snap. store_load s' = Inr snap \<and> wf_core (from_snapshot snap) \<and> snapshot (from_snapshot snap) = snapshot c"
  using load_saved [OF assms(2)] restored_wf [OF assms(1)] restored_snapshot [OF assms(1)] by simp

lemma saved_twice:
  assumes "wf_core c" and "store_save s (snapshot c) = (Inr (), s1)" and "store_load s1 = Inr snap"
    and "store_save s1 (snapshot (from_snapshot snap)) = (Inr (), s2)"
  shows "store_load s2 = store_load s1"
  using load_saved [OF assms(2)] load_saved [OF assms(4)] restored_snapshot [OF assms(1)] assms(3) by simp

end

record in_memory_store =
  ims_snapshot :: core_snapshot

definition in_memory_load :: "in_memory_store \<Rightarrow> core_error + core_snapshot" where
  "in_memory_load s = Inr (ims_snapshot s)"

definition in_memory_save :: "in_memory_store \<Rightarrow> core_snapshot \<Rightarrow> (core_error + unit) \<times> in_memory_store" where
  "in_memory_save s snap = (Inr (), s\<lparr>ims_snapshot := snap\<rparr>)"

interpretation in_memory: core_store in_memory_load in_memory_save
  by unfold_locales (auto simp: in_memory_load_def in_memory_save_def)

end
