(* ===== verification/Samples.thy ===== *)
theory Samples
  imports Core_Runs
begin

text \<open>
  One small concrete state, on which the witnesses of the properties are evaluated: account 1
  (\<^verbatim>\<open>a@x\<close>) with a direct chat and a group chat, two queued messages and a received one, a reaction
  and a contact.
\<close>

definition jid_a :: ustr where "jid_a = lit ''a@x''"
definition jid_b :: ustr where "jid_b = lit ''b@x''"
definition jid_r :: ustr where "jid_r = lit ''r@x''"

lemma sample_jids [simp]:
  "validate_jid jid_a = Inr ()" "validate_jid jid_b = Inr ()" "validate_jid jid_r = Inr ()"
  by (simp_all add: jid_a_def jid_b_def jid_r_def validate_jid_def lit_def at_sign_def slash_def
      is_ws_def trim_def)

lemma sample_bare [simp]: "bare_jid jid_a" "bare_jid jid_b" "bare_jid jid_r"
  using sample_jids unfolding validate_jid_iff by blast+

lemma sample_distinct [simp]: "jid_a \<noteq> jid_b" "jid_b \<noteq> jid_a" "jid_a \<noteq> jid_r" "jid_b \<noteq> jid_r" "jid_r \<noteq> jid_b"
  by (simp_all add: jid_a_def jid_b_def jid_r_def lit_def)

definition demo_setup :: account_setup where
  "demo_setup = \<lparr>setup_jid = jid_a, setup_server = lit ''x'', setup_display_name = lit ''A''\<rparr>"

definition demo_account :: account where
  "demo_account = \<lparr>acct_id = 1, acct_jid = jid_a, acct_server = lit ''x'', acct_display_name = lit ''A'',
     acct_connection_state = CS_Online, acct_capabilities = {Cap_MultiUserChat, Cap_MessageReactions},
     acct_connection_error = None, acct_disconnect_kind = None, acct_auto_reconnect = True,
     acct_proxies = []\<rparr>"

definition demo_contact :: contact where
  "demo_contact = \<lparr>ct_account_id = 1, ct_jid = jid_b, ct_display_name = lit ''B'', ct_presence = CP_Away,
     ct_status = None, ct_subscription = RS_Mutual\<rparr>"

definition demo_chat :: conversation where
  "demo_chat = \<lparr>cv_id = 1, cv_account_id = 1, cv_kind = CK_Direct, cv_address = jid_b,
     cv_title = lit ''b'', cv_unread_count = 1, cv_last_activity_epoch_ms = 5\<rparr>"

definition demo_room :: conversation where
  "demo_room = \<lparr>cv_id = 2, cv_account_id = 1, cv_kind = CK_MultiUserChat, cv_address = jid_r,
     cv_title = lit ''r'', cv_unread_count = 0, cv_last_activity_epoch_ms = 4\<rparr>"

definition demo_message ::
  "message_id \<Rightarrow> conversation_id \<Rightarrow> message_direction \<Rightarrow> delivery_state \<Rightarrow> message_id option \<Rightarrow> message" where
  "demo_message i j d s r = \<lparr>msg_id = i, msg_conversation_id = j,
     msg_sender = (if d = MD_Outgoing then jid_a else jid_b), msg_body = lit ''hi'', msg_direction = d,
     msg_kind = MK_Text, msg_sent_at_epoch_ms = 5, msg_delivery_state = s, msg_in_reply_to = r,
     msg_attachment = None\<rparr>"

definition demo_core :: mindchat_core where
  "demo_core = \<lparr>next_account_id = 2, next_conversation_id = 3, next_message_id = 4,
     next_reaction_id = 2, core_accounts = [(1, demo_account)],
     core_contacts = [((1, jid_b), demo_contact)],
     core_conversations = [(2, demo_room), (1, demo_chat)],
     core_messages = [(3, demo_message 3 1 MD_Outgoing DS_Failed (Some 2)),
       (2, demo_message 2 1 MD_Incoming DS_Delivered None),
       (1, demo_message 1 2 MD_Outgoing DS_Pending None)],
     core_reactions = [(1, \<lparr>rx_id = 1, rx_message_id = 2, rx_emoji = lit ''+'', rx_actor = jid_a\<rparr>)],
     core_events = [MessageAdded 3]\<rparr>"

lemmas demo_defs = demo_core_def demo_account_def demo_contact_def demo_chat_def demo_room_def demo_message_def

lemma demo_text [simp]: "trimmed (lit ''B'')" "body_ok (lit ''hi'')" "server_name (lit ''x'')" "trim (lit ''+'') \<noteq> []"
  by (simp_all add: trimmed_def body_ok_def server_name_def trim_def lit_def is_ws_def has_ws_def MAX_MESSAGE_CHARS_def)

lemma demo_wf: "wf_core demo_core"
proof -
  have "tables_ok demo_core"
    by (simp add: demo_defs tables_ok_def table_ok_def keyed_def hm_ok_def contact_key_def)
  moreover have "refs_ok demo_core"
    by (simp add: demo_defs refs_ok_def refs_to_def replies_ok_def)
  moreover have "data_ok demo_core"
    by (simp add: demo_defs data_ok_def all_values_def account_data_def contact_data_def message_data_def)
  moreover have "convs_unique (core_conversations demo_core)"
    by (simp add: demo_defs convs_unique_def conv_key_def)
  ultimately show ?thesis by (simp add: wf_core_def)
qed

lemma demo_headroom: "headroom demo_core"
proof (rule headroom_budget)
  show "budget demo_core < 2 ^ 64 - 1" by (simp add: demo_core_def budget_def)
qed

end
