(* ===== verification/State_File.thy ===== *)
theory State_File
  imports Core_Snapshot Samples
begin

text \<open>
  State files: \<^verbatim>\<open>persistence.rs\<close> and \<^verbatim>\<open>state_cipher.rs\<close>.

  Three things are arguments: \<open>serde\<close>, the JSON writer and reader that serde generates; \<open>aead\<close>, the
  AES-256-GCM of the crate \<^verbatim>\<open>ring\<close>; and the disk, a map from paths to contents with the faults its
  operations are going to have. A load takes the disk twice, as it is when the metadata are read and
  as it is when the content is read. What the theorems need of \<open>serde\<close> and \<open>aead\<close> is in their
  hypotheses.
\<close>

section \<open>Encryption\<close>

datatype persistence_error =
    PerIo ustr
  | PerCorrupt ustr
  | PerUnsupportedVersion u32
  | PerTooLarge nat
  | PerNotEncrypted
  | PerDecryption
  | PerEncryption ustr

fun persistence_error_display :: "persistence_error \<Rightarrow> ustr" where
  "persistence_error_display (PerIo error) = lit ''state persistence I/O error: '' @ error"
| "persistence_error_display (PerCorrupt detail) = lit ''corrupt state file: '' @ detail"
| "persistence_error_display (PerUnsupportedVersion version) =
     lit ''unsupported state schema version '' @ show_dec (unat version)"
| "persistence_error_display (PerTooLarge bytes) =
     lit ''state file too large: '' @ show_dec bytes @ lit '' bytes''"
| "persistence_error_display PerNotEncrypted = lit ''state file is not an encrypted state file''"
| "persistence_error_display PerDecryption =
     lit ''state file decryption failed (wrong key or corrupt file)''"
| "persistence_error_display (PerEncryption detail) = lit ''state encryption failed: '' @ detail"

text \<open>The operations of \<^verbatim>\<open>ring\<close>: the nonce the secure RNG yields, if any; whether the key is accepted;
  sealing (key, nonce, additional data, plaintext), which gives ciphertext and tag; and opening.\<close>

record aead =
  ae_nonce :: "u8 list option"
  ae_key_ok :: "u8 list \<Rightarrow> bool"
  ae_seal :: "u8 list \<Rightarrow> u8 list \<Rightarrow> u8 list \<Rightarrow> u8 list \<Rightarrow> (u8 list \<times> u8 list) option"
  ae_open :: "u8 list \<Rightarrow> u8 list \<Rightarrow> u8 list \<Rightarrow> u8 list \<Rightarrow> u8 list option"

definition MAGIC :: "u8 list" where
  "MAGIC = [77, 73, 78, 68, 67, 72, 65, 84, 1]"

definition NONCE_LEN :: nat where "NONCE_LEN = 12"
definition TAG_LEN :: nat where "TAG_LEN = 16"

definition MIN_ENCRYPTED_LEN :: nat where
  "MIN_ENCRYPTED_LEN = length MAGIC + NONCE_LEN + TAG_LEN"

definition is_encrypted_blob :: "u8 list \<Rightarrow> bool" where
  "is_encrypted_blob bytes \<longleftrightarrow> take (length MAGIC) bytes = MAGIC"

definition encrypt_state :: "aead \<Rightarrow> u8 list \<Rightarrow> u8 list \<Rightarrow> persistence_error + u8 list" where
  "encrypt_state A plaintext key =
     (case ae_nonce A of
        None \<Rightarrow> Inl (PerEncryption (lit ''secure RNG unavailable''))
      | Some nonce_bytes \<Rightarrow>
          if \<not> ae_key_ok A key then Inl (PerEncryption (lit ''AES-256-GCM key setup failed''))
          else (case ae_seal A key nonce_bytes MAGIC plaintext of
              None \<Rightarrow> Inl (PerEncryption (lit ''AES-GCM seal failed''))
            | Some (ciphertext, tag) \<Rightarrow> Inr (MAGIC @ nonce_bytes @ ciphertext @ tag)))"

definition decrypt_state :: "aead \<Rightarrow> u8 list \<Rightarrow> u8 list \<Rightarrow> persistence_error + u8 list" where
  "decrypt_state A blob key =
     (if length blob < MIN_ENCRYPTED_LEN \<or> \<not> is_encrypted_blob blob then Inl PerNotEncrypted
      else if \<not> ae_key_ok A key then Inl (PerEncryption (lit ''AES-256-GCM key setup failed''))
      else
        let nonce_bytes = take NONCE_LEN (drop (length MAGIC) blob);
            sealed = drop (length MAGIC + NONCE_LEN) blob
        in ok_or (ae_open A key nonce_bytes MAGIC sealed) PerDecryption)"

section \<open>The disk\<close>

text \<open>How the next write to the disk goes wrong, if it does: creating the file, writing (after some
  bytes), syncing or renaming; and whether the removal of a file fails.\<close>

datatype write_fault = No_fault | Fail_create ustr | Fail_write nat ustr | Fail_sync ustr | Fail_rename ustr

type_synonym files = "ustr \<Rightarrow> u8 list option"

record disk =
  dk_files :: files
  dk_write_fault :: write_fault
  dk_remove_fault :: "ustr option"
  dk_stat_fault :: "ustr option"
  dk_read_fault :: "ustr option"
  dk_not_found :: ustr
  dk_pid :: nat
  dk_counter :: u64

text \<open>\<^verbatim>\<open>tmp_path_for\<close>: the staging name of the next save of this process.\<close>

definition tmp_path_for :: "disk \<Rightarrow> ustr \<Rightarrow> ustr \<times> disk" where
  "tmp_path_for d path =
     (path @ lit ''.'' @ show_dec (dk_pid d) @ lit ''.'' @ show_dec (unat (dk_counter d)) @ lit ''.tmp'',
      d\<lparr>dk_counter := dk_counter d + 1\<rparr>)"

text \<open>
  The system calls. Each gives its result and what another process, or the next start after a crash, can find
  while it runs and when it is done: a write goes through every prefix of its bytes.
\<close>

type_synonym system_call = "files \<Rightarrow> (ustr + unit) \<times> files list"

definition create_file :: "disk \<Rightarrow> ustr \<Rightarrow> system_call" where
  "create_file d p fs =
     (case dk_write_fault d of
        Fail_create e \<Rightarrow> (Inl e, [fs])
      | _ \<Rightarrow> (Inr (), [fs(p \<mapsto> [])]))"

definition written :: "files \<Rightarrow> ustr \<Rightarrow> u8 list \<Rightarrow> nat \<Rightarrow> files list" where
  "written fs p bytes n = map (\<lambda>k. fs(p \<mapsto> take k bytes)) [0..<Suc n]"

definition write_file :: "disk \<Rightarrow> ustr \<Rightarrow> u8 list \<Rightarrow> system_call" where
  "write_file d p bytes fs =
     (case dk_write_fault d of
        Fail_write n e \<Rightarrow> (Inl e, written fs p bytes n)
      | _ \<Rightarrow> (Inr (), written fs p bytes (length bytes)))"

definition sync_file :: "disk \<Rightarrow> system_call" where
  "sync_file d fs = (case dk_write_fault d of Fail_sync e \<Rightarrow> (Inl e, [fs]) | _ \<Rightarrow> (Inr (), [fs]))"

definition rename_file :: "disk \<Rightarrow> ustr \<Rightarrow> ustr \<Rightarrow> system_call" where
  "rename_file d p q fs =
     (case dk_write_fault d of
        Fail_rename e \<Rightarrow> (Inl e, [fs])
      | _ \<Rightarrow> (Inr (), [fs(q := fs p, p := None)]))"

definition remove_file :: "disk \<Rightarrow> ustr \<Rightarrow> system_call" where
  "remove_file d p fs =
     (case dk_remove_fault d of
        Some e \<Rightarrow> (Inl e, [fs])
      | None \<Rightarrow> if fs p = None then (Inl (dk_not_found d), [fs]) else (Inr (), [fs(p := None)]))"

definition then_call :: "system_call \<Rightarrow> system_call \<Rightarrow> system_call" where
  "then_call f g fs =
     (case f fs of
        (Inl e, states) \<Rightarrow> (Inl e, states)
      | (Inr _, states) \<Rightarrow> let (r, more) = g (last states) in (r, states @ more))"

text \<open>
  \<^verbatim>\<open>write_atomic\<close>: the staging file is created, filled, synced and renamed; after a failure it is removed, and the
  result of the removal is ignored.
\<close>

definition write_atomic_states ::
  "disk \<Rightarrow> ustr \<Rightarrow> ustr \<Rightarrow> u8 list \<Rightarrow> (persistence_error + unit) \<times> files list" where
  "write_atomic_states d tmp_path path bytes =
     (let (write_result, states) =
        then_call (then_call (then_call (create_file d tmp_path) (write_file d tmp_path bytes)) (sync_file d))
          (rename_file d tmp_path path) (dk_files d)
      in case write_result of
           Inl e \<Rightarrow> (Inl (PerIo e), states @ snd (remove_file d tmp_path (last states)))
         | Inr _ \<Rightarrow> (Inr (), states))"

definition write_atomic :: "disk \<Rightarrow> ustr \<Rightarrow> u8 list \<Rightarrow> (persistence_error + unit) \<times> disk" where
  "write_atomic d path bytes =
     (let (tmp_path, d1) = tmp_path_for d path;
          (r, states) = write_atomic_states d1 tmp_path path bytes
      in (r, d1\<lparr>dk_files := last states\<rparr>))"

section \<open>Saving and loading\<close>

definition CURRENT_SCHEMA_VERSION :: u32 where
  "CURRENT_SCHEMA_VERSION = 1"

definition MAX_STATE_FILE_BYTES :: nat where
  "MAX_STATE_FILE_BYTES = 16 * 1024 * 1024"

record persisted_state =
  ps_schema_version :: u32
  ps_snapshot :: core_snapshot

record state_file_metadata =
  sfm_size_bytes :: nat
  sfm_schema_version :: u32

text \<open>\<^verbatim>\<open>serde_json::to_vec_pretty\<close> and \<^verbatim>\<open>from_slice\<close> for \<^verbatim>\<open>PersistedState\<close>, with their error texts.\<close>

record serde =
  sd_to_json :: "persisted_state \<Rightarrow> ustr + u8 list"
  sd_from_json :: "u8 list \<Rightarrow> ustr + persisted_state"

definition sanitize_snapshot :: "core_snapshot \<Rightarrow> core_snapshot" where
  "sanitize_snapshot s = s\<lparr>
     snap_accounts := map (\<lambda>account. account\<lparr>acct_connection_state := CS_Offline,
       acct_connection_error := None, acct_disconnect_kind := None, acct_capabilities := {}\<rparr>) (snap_accounts s),
     snap_contacts := map (\<lambda>contact. contact\<lparr>ct_presence := CP_Offline, ct_status := None\<rparr>) (snap_contacts s)\<rparr>"

definition save_state :: "serde \<Rightarrow> disk \<Rightarrow> core_snapshot \<Rightarrow> ustr \<Rightarrow> (persistence_error + unit) \<times> disk" where
  "save_state S d snap path =
     (case sd_to_json S \<lparr>ps_schema_version = CURRENT_SCHEMA_VERSION, ps_snapshot = snap\<rparr> of
        Inl e \<Rightarrow> (Inl (PerCorrupt e), d)
      | Inr bytes \<Rightarrow>
          let byte_count = length bytes
          in if MAX_STATE_FILE_BYTES < byte_count then (Inl (PerTooLarge byte_count), d)
             else write_atomic d path bytes)"

definition parse_state_bytes :: "serde \<Rightarrow> u8 list \<Rightarrow> persistence_error + core_snapshot \<times> state_file_metadata" where
  "parse_state_bytes S bytes =
     (case sd_from_json S bytes of
        Inl e \<Rightarrow> Inl (PerCorrupt e)
      | Inr persisted \<Rightarrow>
          if ps_schema_version persisted \<noteq> CURRENT_SCHEMA_VERSION
          then Inl (PerUnsupportedVersion (ps_schema_version persisted))
          else Inr (sanitize_snapshot (ps_snapshot persisted),
            \<lparr>sfm_size_bytes = length bytes, sfm_schema_version = ps_schema_version persisted\<rparr>))"

text \<open>\<^verbatim>\<open>std::fs::metadata\<close> and \<^verbatim>\<open>read\<close> with the bound, as both loaders begin: \<open>None\<close> is a missing file.\<close>

definition read_bounded :: "disk \<Rightarrow> disk \<Rightarrow> ustr \<Rightarrow> persistence_error + u8 list option" where
  "read_bounded d0 d1 path =
     (case dk_stat_fault d0 of
        Some e \<Rightarrow> Inl (PerIo e)
      | None \<Rightarrow> (case dk_files d0 path of
            None \<Rightarrow> Inr None
          | Some content \<Rightarrow>
              if MAX_STATE_FILE_BYTES < length content then Inl (PerTooLarge (length content))
              else (case dk_read_fault d1 of
                  Some e \<Rightarrow> Inl (PerIo e)
                | None \<Rightarrow> (case dk_files d1 path of
                      None \<Rightarrow> Inl (PerIo (dk_not_found d1))
                    | Some bytes \<Rightarrow>
                        if MAX_STATE_FILE_BYTES < length bytes then Inl (PerTooLarge (length bytes))
                        else Inr (Some bytes)))))"

definition load_state_with_metadata ::
  "serde \<Rightarrow> disk \<Rightarrow> disk \<Rightarrow> ustr \<Rightarrow> persistence_error + (core_snapshot \<times> state_file_metadata) option" where
  "load_state_with_metadata S d0 d1 path =
     (case read_bounded d0 d1 path of
        Inl e \<Rightarrow> Inl e
      | Inr None \<Rightarrow> Inr None
      | Inr (Some bytes) \<Rightarrow> map_sum (\<lambda>e. e) Some (parse_state_bytes S bytes))"

definition load_state :: "serde \<Rightarrow> disk \<Rightarrow> disk \<Rightarrow> ustr \<Rightarrow> persistence_error + core_snapshot option" where
  "load_state S d0 d1 path = map_sum (\<lambda>e. e) (map_option fst) (load_state_with_metadata S d0 d1 path)"

datatype load_outcome =
    Missing
  | PlaintextLegacy core_snapshot state_file_metadata
  | Encrypted core_snapshot state_file_metadata

definition save_state_encrypted ::
  "serde \<Rightarrow> aead \<Rightarrow> disk \<Rightarrow> core_snapshot \<Rightarrow> ustr \<Rightarrow> u8 list
    \<Rightarrow> (persistence_error + state_file_metadata) \<times> disk" where
  "save_state_encrypted S A d snap path key =
     (case sd_to_json S \<lparr>ps_schema_version = CURRENT_SCHEMA_VERSION, ps_snapshot = snap\<rparr> of
        Inl e \<Rightarrow> (Inl (PerCorrupt e), d)
      | Inr bytes \<Rightarrow>
          let plain_len = length bytes
          in if MAX_STATE_FILE_BYTES < plain_len then (Inl (PerTooLarge plain_len), d)
             else (case encrypt_state A bytes key of
                 Inl e \<Rightarrow> (Inl e, d)
               | Inr blob \<Rightarrow>
                   let (r, d1) = write_atomic d path blob
                   in try_q r d1 (\<lambda>_. (Inr \<lparr>sfm_size_bytes = length blob,
                        sfm_schema_version = CURRENT_SCHEMA_VERSION\<rparr>, d1))))"

definition load_state_encrypted ::
  "serde \<Rightarrow> aead \<Rightarrow> disk \<Rightarrow> disk \<Rightarrow> ustr \<Rightarrow> u8 list \<Rightarrow> persistence_error + load_outcome" where
  "load_state_encrypted S A d0 d1 path key =
     (case read_bounded d0 d1 path of
        Inl e \<Rightarrow> Inl e
      | Inr None \<Rightarrow> Inr Missing
      | Inr (Some bytes) \<Rightarrow>
          if is_encrypted_blob bytes
          then (case decrypt_state A bytes key of
              Inl e \<Rightarrow> Inl e
            | Inr plain \<Rightarrow> (case parse_state_bytes S plain of
                  Inl e \<Rightarrow> Inl e
                | Inr (snap, meta) \<Rightarrow> Inr (Encrypted snap (meta\<lparr>sfm_size_bytes := length bytes\<rparr>))))
          else (case parse_state_bytes S bytes of
              Inl e \<Rightarrow> Inl e
            | Inr (snap, meta) \<Rightarrow> Inr (PlaintextLegacy snap meta)))"

section \<open>The cipher\<close>

text \<open>What the blob layout needs of AES-GCM: a 12-byte nonce, a 16-byte tag, and that opening undoes
  sealing.\<close>

definition aead_ok :: "aead \<Rightarrow> u8 list \<Rightarrow> u8 list \<Rightarrow> bool" where
  "aead_ok A key plain \<longleftrightarrow> ae_key_ok A key \<and>
     (\<exists>nonce c t. ae_nonce A = Some nonce \<and> length nonce = NONCE_LEN \<and>
        ae_seal A key nonce MAGIC plain = Some (c, t) \<and> length c = length plain \<and> length t = TAG_LEN \<and>
        ae_open A key nonce MAGIC (c @ t) = Some plain)"

lemma length_MAGIC [simp]: "length MAGIC = 9"
  by (simp add: MAGIC_def)

lemma encrypted_magic [simp]: "is_encrypted_blob (MAGIC @ r)"
  by (simp add: is_encrypted_blob_def)

lemma encrypt_then_decrypt:
  assumes "aead_ok A key plain"
  shows "\<exists>blob. encrypt_state A plain key = Inr blob \<and> decrypt_state A blob key = Inr plain
    \<and> is_encrypted_blob blob \<and> length blob = length plain + 37"
proof -
  obtain nonce c t where n: "ae_nonce A = Some nonce" "length nonce = 12"
    and c: "ae_seal A key nonce MAGIC plain = Some (c, t)" "length c = length plain" "length t = 16"
    and o: "ae_open A key nonce MAGIC (c @ t) = Some plain" and k: "ae_key_ok A key"
    using assms by (auto simp: aead_ok_def NONCE_LEN_def TAG_LEN_def)
  show ?thesis
    using n c o k
    by (simp add: encrypt_state_def decrypt_state_def MIN_ENCRYPTED_LEN_def NONCE_LEN_def TAG_LEN_def Let_def)
qed

section \<open>Atomic writes\<close>

lemma tmp_path_longer:
  "tmp_path_for d path = (tmp, d1) \<Longrightarrow> tmp \<noteq> path \<and> dk_files d1 = dk_files d
     \<and> dk_write_fault d1 = dk_write_fault d \<and> dk_remove_fault d1 = dk_remove_fault d"
  by (auto simp: tmp_path_for_def lit_def)

text \<open>
  While the staging file is prepared, it is all that changes, and it holds a prefix of the new content. A
  call that prepares keeps this; and it is never without a state to go on from.
\<close>

definition staging :: "files \<Rightarrow> ustr \<Rightarrow> u8 list \<Rightarrow> files \<Rightarrow> bool" where
  "staging old tmp bytes fs \<longleftrightarrow>
     (\<forall>q. q \<noteq> tmp \<longrightarrow> fs q = old q) \<and> (fs tmp = None \<or> fs tmp = old tmp \<or> (\<exists>k. fs tmp = Some (take k bytes)))"

definition prepares :: "files \<Rightarrow> ustr \<Rightarrow> u8 list \<Rightarrow> system_call \<Rightarrow> bool" where
  "prepares old tmp bytes f \<longleftrightarrow> (\<forall>fs. staging old tmp bytes fs \<longrightarrow>
     snd (f fs) \<noteq> [] \<and> (\<forall>fs' \<in> set (snd (f fs)). staging old tmp bytes fs'))"

lemma staging_start: "staging old tmp bytes old"
  by (simp add: staging_def)

lemma written_last: "last (written fs p bytes n) = fs(p \<mapsto> take n bytes)" "written fs p bytes n \<noteq> []"
  by (simp_all add: written_def)

lemma prepares_calls:
  "prepares old tmp bytes (create_file d tmp)" "prepares old tmp bytes (write_file d tmp bytes)"
  "prepares old tmp bytes (sync_file d)" "prepares old tmp bytes (remove_file d tmp)"
proof -
  have "\<exists>k. [] = take k bytes"
    by (intro exI [of _ 0]) simp
  then show "prepares old tmp bytes (create_file d tmp)"
    by (auto simp: prepares_def staging_def create_file_def split: write_fault.splits)
  have "staging old tmp bytes (fs(tmp \<mapsto> take k bytes))" if "staging old tmp bytes fs" for fs k
    using that by (auto simp: staging_def)
  then have "\<forall>fs' \<in> set (written fs tmp bytes n). staging old tmp bytes fs'" if "staging old tmp bytes fs" for fs n
    using that by (simp add: written_def del: upt_Suc)
  then show "prepares old tmp bytes (write_file d tmp bytes)"
    by (simp add: prepares_def write_file_def written_last split: write_fault.split)
  show "prepares old tmp bytes (sync_file d)"
    by (auto simp: prepares_def sync_file_def split: write_fault.splits)
  show "prepares old tmp bytes (remove_file d tmp)"
    by (auto simp: prepares_def staging_def remove_file_def split: option.splits)
qed

lemma prepares_then:
  assumes "prepares old tmp bytes f" "prepares old tmp bytes g"
  shows "prepares old tmp bytes (then_call f g)"
  unfolding prepares_def
proof (intro allI impI)
  fix fs assume fs: "staging old tmp bytes fs"
  obtain r states where f: "f fs = (r, states)" by fastforce
  have all: "states \<noteq> []" "\<forall>fs' \<in> set states. staging old tmp bytes fs'"
    using assms(1) fs f by (auto simp: prepares_def)
  then have "staging old tmp bytes (last states)" by simp
  with assms(2) have "\<forall>fs' \<in> set (snd (g (last states))). staging old tmp bytes fs'"
    by (auto simp: prepares_def)
  then show "snd (then_call f g fs) \<noteq> [] \<and> (\<forall>fs' \<in> set (snd (then_call f g fs)). staging old tmp bytes fs')"
    using all f by (cases r) (auto simp: then_call_def split: prod.splits)
qed

text \<open>The preparation leaves the new content in the staging file, and the renaming is the last call.\<close>

abbreviation preparation :: "disk \<Rightarrow> ustr \<Rightarrow> u8 list \<Rightarrow> system_call" where
  "preparation d tmp bytes \<equiv> then_call (then_call (create_file d tmp) (write_file d tmp bytes)) (sync_file d)"

lemma then_call_results:
  "f fs = (Inl e, states) \<Longrightarrow> then_call f g fs = (Inl e, states)"
  "f fs = (Inr u, states) \<Longrightarrow> then_call f g fs = (fst (g (last states)), states @ snd (g (last states)))"
  by (simp_all add: then_call_def case_prod_beta)

lemma prepared:
  assumes "preparation d tmp bytes fs = (Inr u, states)"
  shows "last states tmp = Some bytes"
  using assms
  by (auto simp: then_call_def create_file_def write_file_def sync_file_def written_last
      split: write_fault.splits prod.splits sum.splits)

lemma write_atomic_steps:
  assumes "tmp \<noteq> path" and "write_atomic_states d tmp path bytes = (r, states)"
  shows "(\<exists>e. r = Inl (PerIo e)) \<and> states \<noteq> [] \<and> (\<forall>fs \<in> set states. staging (dk_files d) tmp bytes fs)
      \<and> (dk_remove_fault d = None \<longrightarrow> last states tmp = None)
    \<or> r = Inr () \<and> (\<exists>before fs. states = before @ [fs(path := Some bytes, tmp := None)] \<and> staging (dk_files d) tmp bytes fs
      \<and> (\<forall>fs' \<in> set before. staging (dk_files d) tmp bytes fs'))"
proof -
  let ?old = "dk_files d"
  have "prepares ?old tmp bytes (preparation d tmp bytes)"
    by (intro prepares_then prepares_calls)
  moreover obtain p before where p: "preparation d tmp bytes ?old = (p, before)" by fastforce
  ultimately have before: "before \<noteq> []" "\<forall>fs \<in> set before. staging ?old tmp bytes fs"
    using staging_start [of ?old tmp bytes] by (auto simp: prepares_def)
  obtain w calls where w: "then_call (preparation d tmp bytes) (rename_file d tmp path) ?old = (w, calls)" by fastforce
  have res: "(r, states) = (case w of
      Inl e \<Rightarrow> (Inl (PerIo e), calls @ snd (remove_file d tmp (last calls))) | Inr _ \<Rightarrow> (Inr (), calls))"
    using assms(2) w by (simp add: write_atomic_states_def)
  have ready: "staging ?old tmp bytes (last before)"
    using before by simp
  show ?thesis
  proof (cases w)
    case (Inl e)
    have calls: "calls \<noteq> []" "\<forall>fs \<in> set calls. staging ?old tmp bytes fs"
      using w then_call_results [where f = "preparation d tmp bytes", of ?old, unfolded p] before ready Inl
      by (cases p; auto simp: rename_file_def split: write_fault.splits)+
    have "staging ?old tmp bytes (last calls)"
      using calls by simp
    then have "\<forall>fs \<in> set (snd (remove_file d tmp (last calls))). staging ?old tmp bytes fs"
      using prepares_calls(4) [of ?old tmp bytes d] unfolding prepares_def by blast
    moreover have "snd (remove_file d tmp (last calls)) \<noteq> []"
      "dk_remove_fault d = None \<longrightarrow> last (snd (remove_file d tmp (last calls))) tmp = None"
      by (auto simp: remove_file_def split: option.splits)
    ultimately show ?thesis
      using res Inl calls by auto
  next
    case (Inr u)
    obtain v where "p = Inr v" and last: "calls = before @ [(last before)(path := last before tmp, tmp := None)]"
      using w then_call_results [where f = "preparation d tmp bytes", of ?old, unfolded p] Inr
      by (cases p; auto simp: rename_file_def split: write_fault.splits)
    then have "last before tmp = Some bytes"
      using prepared p by metis
    then show ?thesis
      using res Inr last before ready by auto
  qed
qed

text \<open>C21: An atomic write never shows a reader of the path anything but the old content or the complete
  new one, whatever system call fails, and at every moment, also in the middle of a write: a crash loses
  nothing. The path changes with the last call of all, the renaming, and only if the write reports success.
  Meanwhile the staging file holds a prefix of the new content, and no other file changes. After a success the
  staging file is gone; after an error the path has its old content, and the staging file is gone too unless its
  removal fails, which is not reported.\<close>

theorem write_atomic_spec:
  assumes "tmp_path_for d path = (tmp, d1)" and "write_atomic_states d1 tmp path bytes = (r, states)"
  shows "write_atomic d path bytes = (r, d1\<lparr>dk_files := last states\<rparr>) \<and> states \<noteq> []
    \<and> (\<forall>fs \<in> set states. \<forall>q. q \<noteq> path \<longrightarrow> q \<noteq> tmp \<longrightarrow> fs q = dk_files d q)
    \<and> (\<forall>fs \<in> set states. fs tmp = None \<or> fs tmp = dk_files d tmp \<or> (\<exists>k. fs tmp = Some (take k bytes)))
    \<and> (\<forall>fs \<in> set (butlast states). fs path = dk_files d path)
    \<and> (case r of
         Inr _ \<Rightarrow> last states path = Some bytes \<and> last states tmp = None
       | Inl e \<Rightarrow> (\<exists>message. e = PerIo message) \<and> last states path = dk_files d path
           \<and> (dk_remove_fault d = None \<longrightarrow> last states tmp = None))"
proof -
  have tmp: "path \<noteq> tmp" "dk_files d1 = dk_files d" "dk_remove_fault d1 = dk_remove_fault d"
    using tmp_path_longer [OF assms(1)] by auto
  have "write_atomic d path bytes = (r, d1\<lparr>dk_files := last states\<rparr>)"
    using assms by (simp add: write_atomic_def)
  moreover from write_atomic_steps [OF tmp(1) [symmetric] assms(2)]
  have "states \<noteq> []
    \<and> (\<forall>fs \<in> set states. \<forall>q. q \<noteq> path \<longrightarrow> q \<noteq> tmp \<longrightarrow> fs q = dk_files d q)
    \<and> (\<forall>fs \<in> set states. fs tmp = None \<or> fs tmp = dk_files d tmp \<or> (\<exists>k. fs tmp = Some (take k bytes)))
    \<and> (\<forall>fs \<in> set (butlast states). fs path = dk_files d path)
    \<and> (case r of
         Inr _ \<Rightarrow> last states path = Some bytes \<and> last states tmp = None
       | Inl e \<Rightarrow> (\<exists>message. e = PerIo message) \<and> last states path = dk_files d path
           \<and> (dk_remove_fault d = None \<longrightarrow> last states tmp = None))"
    using tmp by (elim disjE conjE exE) (auto simp: staging_def dest: in_set_butlastD)
  ultimately show ?thesis by blast
qed

definition demo_disk :: disk where
  "demo_disk = \<lparr>dk_files = (\<lambda>_. None)(lit ''state'' \<mapsto> [1, 2]), dk_write_fault = No_fault, dk_remove_fault = None,
     dk_stat_fault = None, dk_read_fault = None, dk_not_found = lit ''not found'', dk_pid = 7, dk_counter = 0\<rparr>"

theorem write_atomic_spec_witness:
  "\<exists>e d'. write_atomic (demo_disk\<lparr>dk_write_fault := Fail_write 1 (lit ''full'')\<rparr>) (lit ''state'') [3, 4] = (Inl e, d')
    \<and> dk_files d' (lit ''state'') = Some [1, 2]"
proof -
  let ?d = "demo_disk\<lparr>dk_write_fault := Fail_write 1 (lit ''full'')\<rparr>"
  obtain tmp d1 where t: "tmp_path_for ?d (lit ''state'') = (tmp, d1)" by fastforce
  obtain r states where rs: "write_atomic_states d1 tmp (lit ''state'') [3, 4] = (r, states)" by fastforce
  have "\<exists>e. r = Inl e"
    using rs tmp_path_longer [OF t]
    by (auto simp: write_atomic_states_def then_call_def create_file_def write_file_def split: prod.splits sum.splits)
  with write_atomic_spec [OF t rs] show ?thesis
    by (auto simp: demo_disk_def)
qed

lemma write_atomic_ok:
  assumes "write_atomic d path bytes = (Inr (), d')"
  shows "dk_files d' path = Some bytes"
proof -
  obtain tmp d1 where t: "tmp_path_for d path = (tmp, d1)" by fastforce
  obtain r states where rs: "write_atomic_states d1 tmp path bytes = (r, states)" by fastforce
  have "r = Inr ()" "d' = d1\<lparr>dk_files := last states\<rparr>"
    using assms t rs by (simp_all add: write_atomic_def)
  then show ?thesis
    using write_atomic_steps [OF _ rs] tmp_path_longer [OF t] by auto
qed

section \<open>Round trips\<close>

lemma sanitize_idem: "sanitize_snapshot (sanitize_snapshot s) = sanitize_snapshot s"
  by (simp add: sanitize_snapshot_def)

text \<open>What the loaders need of serde: the bytes written for a snapshot are read back to the same
  snapshot, except for the disconnect kind, which is marked \<^verbatim>\<open>#[serde(skip)]\<close>.\<close>

definition visible :: "core_snapshot \<Rightarrow> core_snapshot" where
  "visible s = s\<lparr>snap_accounts := map (\<lambda>a. a\<lparr>acct_disconnect_kind := None\<rparr>) (snap_accounts s)\<rparr>"

definition serde_ok :: "serde \<Rightarrow> core_snapshot \<Rightarrow> bool" where
  "serde_ok S s \<longleftrightarrow> (\<forall>bytes. sd_to_json S \<lparr>ps_schema_version = CURRENT_SCHEMA_VERSION, ps_snapshot = s\<rparr> = Inr bytes \<longrightarrow>
     sd_from_json S bytes = Inr \<lparr>ps_schema_version = CURRENT_SCHEMA_VERSION, ps_snapshot = visible s\<rparr>)"

lemma sanitize_visible [simp]: "sanitize_snapshot (visible s) = sanitize_snapshot s"
  by (simp add: sanitize_snapshot_def visible_def)

text \<open>A snapshot that was saved is loaded again by the next start, with the same conversations,
  messages and reactions and with every account and contact offline: no connection state, no
  capability, no error and no presence of the old session survives. The bound on the size is the same
  when saving and loading, so a saved file is never refused as too large.\<close>

lemma save_load_roundtrip:
  assumes "serde_ok S snap" and "save_state S d snap path = (Inr (), d')"
    and "dk_stat_fault d' = None" and "dk_read_fault d' = None"
  shows "load_state S d' d' path = Inr (Some (sanitize_snapshot snap))"
proof -
  obtain bytes where b: "sd_to_json S \<lparr>ps_schema_version = CURRENT_SCHEMA_VERSION, ps_snapshot = snap\<rparr> = Inr bytes"
    "\<not> MAX_STATE_FILE_BYTES < length bytes" and w: "write_atomic d path bytes = (Inr (), d')"
    using assms(2) by (auto simp: save_state_def Let_def split: sum.splits if_splits)
  have "sd_from_json S bytes = Inr \<lparr>ps_schema_version = CURRENT_SCHEMA_VERSION, ps_snapshot = visible snap\<rparr>"
    using assms(1) b(1) by (simp add: serde_ok_def)
  with write_atomic_ok [OF w] b(2) assms(3,4) show ?thesis
    by (simp add: load_state_def load_state_with_metadata_def read_bounded_def parse_state_bytes_def)
qed

definition demo_serde :: "core_snapshot \<Rightarrow> u8 list \<Rightarrow> serde" where
  "demo_serde snap bytes = \<lparr>sd_to_json = (\<lambda>_. Inr bytes),
     sd_from_json = (\<lambda>_. Inr \<lparr>ps_schema_version = CURRENT_SCHEMA_VERSION, ps_snapshot = visible snap\<rparr>)\<rparr>"

lemma demo_serde_ok: "serde_ok (demo_serde snap bytes) snap"
  by (simp add: serde_ok_def demo_serde_def)

lemma write_atomic_no_fault:
  "dk_write_fault d = No_fault \<Longrightarrow> \<exists>d'. write_atomic d path bytes = (Inr (), d')
     \<and> dk_stat_fault d' = dk_stat_fault d \<and> dk_read_fault d' = dk_read_fault d"
  by (auto simp: write_atomic_def tmp_path_for_def write_atomic_states_def then_call_def create_file_def write_file_def
      sync_file_def rename_file_def Let_def)

text \<open>An encrypted save is loaded again with the same key as the sanitised snapshot, when the
  encrypted file is within the bound of the loader. The saver checks the bound for the plaintext only,
  and the file is 37 bytes longer: a snapshot whose text is less than 37 bytes under the bound is
  saved without an error and refused as too large by the next load.\<close>

lemma encrypted_roundtrip:
  assumes "serde_ok S snap"
    and "sd_to_json S \<lparr>ps_schema_version = CURRENT_SCHEMA_VERSION, ps_snapshot = snap\<rparr> = Inr bytes"
    and "aead_ok A key bytes" and "length bytes \<le> MAX_STATE_FILE_BYTES"
    and "dk_write_fault d = No_fault" and "dk_stat_fault d = None" and "dk_read_fault d = None"
  shows "\<exists>m d'. save_state_encrypted S A d snap path key = (Inr m, d')
    \<and> load_state_encrypted S A d' d' path key =
        (if length bytes + 37 \<le> MAX_STATE_FILE_BYTES
         then Inr (Encrypted (sanitize_snapshot snap)
                \<lparr>sfm_size_bytes = length bytes + 37, sfm_schema_version = CURRENT_SCHEMA_VERSION\<rparr>)
         else Inl (PerTooLarge (length bytes + 37)))"
proof -
  obtain blob where blob: "encrypt_state A bytes key = Inr blob" "decrypt_state A blob key = Inr bytes"
    "is_encrypted_blob blob" "length blob = length bytes + 37"
    using encrypt_then_decrypt [OF assms(3)] by blast
  obtain d' where d': "write_atomic d path blob = (Inr (), d')" "dk_stat_fault d' = None" "dk_read_fault d' = None"
    using write_atomic_no_fault [OF assms(5), of path blob] assms(6,7) by auto
  have readback: "sd_from_json S bytes = Inr \<lparr>ps_schema_version = CURRENT_SCHEMA_VERSION, ps_snapshot = visible snap\<rparr>"
    using assms(1,2) by (simp add: serde_ok_def)
  have "\<exists>m. save_state_encrypted S A d snap path key = (Inr m, d')"
    using assms(2,4) blob(1) d'(1) by (simp add: save_state_encrypted_def)
  moreover have "load_state_encrypted S A d' d' path key =
        (if length bytes + 37 \<le> MAX_STATE_FILE_BYTES
         then Inr (Encrypted (sanitize_snapshot snap)
                \<lparr>sfm_size_bytes = length bytes + 37, sfm_schema_version = CURRENT_SCHEMA_VERSION\<rparr>)
         else Inl (PerTooLarge (length bytes + 37)))"
    using write_atomic_ok [OF d'(1)] d'(2,3) blob readback
    by (simp add: load_state_encrypted_def read_bounded_def parse_state_bytes_def)
  ultimately show ?thesis by blast
qed

definition demo_aead :: aead where
  "demo_aead = \<lparr>ae_nonce = Some (replicate 12 7), ae_key_ok = (\<lambda>_. True),
     ae_seal = (\<lambda>k n a p. Some (p, replicate 16 0)), ae_open = (\<lambda>k n a q. Some (take (length q - 16) q))\<rparr>"

lemma demo_aead_ok: "aead_ok demo_aead key plain"
  by (simp add: aead_ok_def demo_aead_def NONCE_LEN_def TAG_LEN_def)

text \<open>Decryption gives a plaintext only if AES-GCM accepts the whole file: the magic header as
  additional data, the twelve bytes after it as nonce, and everything that follows as ciphertext and
  tag. A file without the header, or too short for an empty plaintext, is reported as not encrypted.\<close>

lemma decrypt_authenticates:
  "(decrypt_state A blob key = Inr plain \<longleftrightarrow> ae_key_ok A key \<and>
      (\<exists>nonce sealed. blob = MAGIC @ nonce @ sealed \<and> length nonce = 12 \<and> 16 \<le> length sealed \<and>
         ae_open A key nonce MAGIC sealed = Some plain))
    \<and> (decrypt_state A blob key \<noteq> Inl PerNotEncrypted \<longleftrightarrow> is_encrypted_blob blob \<and> 37 \<le> length blob)"
proof -
  show ?thesis
  proof (cases "is_encrypted_blob blob \<and> 37 \<le> length blob")
    case True
    define nonce where "nonce = take 12 (drop 9 blob)"
    define sealed where "sealed = drop 12 (drop 9 blob)"
    have blob: "blob = MAGIC @ nonce @ sealed"
    proof -
      have "blob = take 9 blob @ drop 9 blob" by simp
      also have "take 9 blob = MAGIC" using True by (simp add: is_encrypted_blob_def)
      also have "drop 9 blob = nonce @ sealed" by (simp add: nonce_def sealed_def del: drop_drop)
      finally show ?thesis .
    qed
    have len: "length nonce = 12" "16 \<le> length sealed"
    proof -
      have "37 \<le> length blob" using True by blast
      then show "length nonce = 12" "16 \<le> length sealed" by (simp_all add: nonce_def sealed_def)
    qed
    have "decrypt_state A blob key =
        (if ae_key_ok A key then ok_or (ae_open A key nonce MAGIC sealed) PerDecryption
         else Inl (PerEncryption (lit ''AES-256-GCM key setup failed'')))"
      using len by (simp add: blob decrypt_state_def MIN_ENCRYPTED_LEN_def NONCE_LEN_def TAG_LEN_def)
    moreover have "blob = MAGIC @ n @ q \<and> length n = 12 \<longleftrightarrow> n = nonce \<and> q = sealed" for n q
      using len by (auto simp: blob)
    ultimately show ?thesis using True len by auto
  next
    case False
    then have "decrypt_state A blob key = Inl PerNotEncrypted"
      by (auto simp: decrypt_state_def MIN_ENCRYPTED_LEN_def NONCE_LEN_def TAG_LEN_def)
    with False show ?thesis by auto
  qed
qed

section \<open>The state after a restart\<close>

lemma collect_map:
  assumes "\<And>v. key (f v) = key v"
  shows "hm_get (hm_collect key (map f vs)) k = map_option f (hm_get (hm_collect key vs) k)"
proof (induction vs rule: rev_induct)
  case (snoc v vs)
  then show ?case by (simp add: assms)
qed (simp add: hm_collect_def)

lemma next_id_map:
  assumes "\<And>v. idf (f v) = idf v"
  shows "next_id idf (map f vs) = next_id idf vs"
  by (simp add: next_id_def comp_def assms)

abbreviation offline_account :: "account \<Rightarrow> account" where
  "offline_account a \<equiv> a\<lparr>acct_connection_state := CS_Offline, acct_connection_error := None,
     acct_disconnect_kind := None, acct_capabilities := {}\<rparr>"

abbreviation offline_contact :: "contact \<Rightarrow> contact" where
  "offline_contact v \<equiv> v\<lparr>ct_presence := CP_Offline, ct_status := None\<rparr>"

definition restarted :: "mindchat_core \<Rightarrow> mindchat_core" where
  "restarted c = from_snapshot (sanitize_snapshot (snapshot c))"

lemma restarted_accounts:
  assumes "wf_core c"
  shows "hm_get (core_accounts (restarted c)) k = map_option offline_account (hm_get (core_accounts c) k)"
  using collect_map [of acct_id offline_account] collect_sorted_values [OF wf_keyed(1) [OF assms]]
  by (simp add: restarted_def from_snapshot_def sanitize_snapshot_def snapshot_def)

lemma restarted_contacts:
  assumes "wf_core c"
  shows "hm_get (core_contacts (restarted c)) k = map_option offline_contact (hm_get (core_contacts c) k)"
  using collect_map [of contact_key offline_contact] collect_sorted_values [OF wf_keyed(2) [OF assms]]
  by (simp add: restarted_def from_snapshot_def sanitize_snapshot_def snapshot_def contact_key_def)

lemma restarted_rest:
  "core_conversations (restarted c) = core_conversations (from_snapshot (snapshot c))"
  "core_messages (restarted c) = core_messages (from_snapshot (snapshot c))"
  "core_reactions (restarted c) = core_reactions (from_snapshot (snapshot c))"
  "next_conversation_id (restarted c) = next_conversation_id (from_snapshot (snapshot c))"
  "next_message_id (restarted c) = next_message_id (from_snapshot (snapshot c))"
  "next_reaction_id (restarted c) = next_reaction_id (from_snapshot (snapshot c))"
  "next_account_id (restarted c) = next_account_id (from_snapshot (snapshot c))"
  by (simp_all add: restarted_def from_snapshot_def sanitize_snapshot_def snapshot_def next_id_def comp_def)

lemma restarted_wf:
  assumes "wf_core c"
  shows "wf_core (restarted c)"
proof -
  let ?r = "from_snapshot (snapshot c)"
  have r: "wf_core ?r" by (rule restored_wf [OF assms])
  note tabs = restored_tables [OF assms]
  have "hm_ok (core_accounts (restarted c))" "hm_ok (core_contacts (restarted c))"
    by (simp_all add: restarted_def from_snapshot_def)
  then have "tables_ok (restarted c)"
    using r unfolding wf_core_def tables_ok_def table_ok_def keyed_def restarted_rest
      restarted_accounts [OF assms] restarted_contacts [OF assms] tabs
    by (auto simp: contact_key_def)
  moreover have "refs_ok (restarted c)"
    using r unfolding wf_core_def refs_ok_def refs_to_def restarted_rest
      restarted_accounts [OF assms] restarted_contacts [OF assms] tabs
    by auto
  moreover have "data_ok (restarted c)"
    using r unfolding wf_core_def data_ok_def all_values_def restarted_rest
      restarted_accounts [OF assms] restarted_contacts [OF assms] tabs
    by (auto simp: account_data_def contact_data_def)
  moreover have "convs_unique (core_conversations (restarted c))"
    using r by (simp add: wf_core_def restarted_rest)
  ultimately show ?thesis
    by (simp add: wf_core_def restarted_rest)
qed

lemma restored_counter:
  assumes "table_ok idf nxt m"
  shows "unat (next_id idf (sort_key idf (hm_values m))) \<le> max 1 (unat nxt)"
proof (cases "nxt = 0")
  case True
  have "hm_get m k = None" for k using table_okD [OF assms, of k] True by (cases "hm_get m k") auto
  then have "hm_values m = []" using hm.vals_iff [of m] assms by (cases "hm_values m") (auto simp: table_ok_def)
  then show ?thesis by (simp add: next_id_def)
next
  case False
  from next_id_restored(2) [OF assms False] show ?thesis by (simp add: word_le_nat_alt)
qed

lemma restarted_budget:
  assumes "wf_core c"
  shows "budget (restarted c) \<le> budget c"
proof -
  have "unat (next_account_id (restarted c)) \<le> max 1 (unat (next_account_id c))"
    "unat (next_conversation_id (restarted c)) \<le> max 1 (unat (next_conversation_id c))"
    "unat (next_message_id (restarted c)) \<le> max 1 (unat (next_message_id c))"
    "unat (next_reaction_id (restarted c)) \<le> max 1 (unat (next_reaction_id c))"
    using assms unfolding restarted_rest
    by (auto simp del: One_nat_def simp: wf_core_def tables_ok_def from_snapshot_def snapshot_def intro!: restored_counter)
  then show ?thesis unfolding budget_le_iff using budget_ge [of c] by auto
qed

end
