(* ===== verification/Ffi_Types.thy ===== *)
theory Ffi_Types
  imports Proxy_Config State_File
begin

text \<open>
  The values of the UniFFI boundary (\<^verbatim>\<open>ffi.rs\<close>): the enums and records that Kotlin sees, their
  conversions from and to the domain, and \<^verbatim>\<open>MindChatBindingError\<close> with the conversions of every
  domain error into it. An enum that crosses the boundary in both directions interprets the locale
  \<open>conversion\<close>, which gives that nothing is lost or confused on the way, in lists too.
\<close>

section \<open>Conversions in both directions\<close>

locale conversion =
  fixes into :: "'a \<Rightarrow> 'b" and restore :: "'b \<Rightarrow> 'a"
  assumes restore_into: "restore (into x) = x" and into_restore: "into (restore y) = y"
begin

lemma into_eq: "into x = into y \<longleftrightarrow> x = y"
  by (metis restore_into)

lemma into_eq_iff: "into x = y \<longleftrightarrow> x = restore y"
  by (metis restore_into into_restore)

lemma restore_into_list: "map restore (map into xs) = xs"
  by (simp add: comp_def restore_into)

lemma into_restore_list: "map into (map restore ys) = ys"
  by (simp add: comp_def into_restore)

lemma restore_into_option: "map_option restore (map_option into x) = x"
  by (cases x) (simp_all add: restore_into)

end

section \<open>Enums\<close>

datatype ffi_connection_state = FCS_Offline | FCS_Connecting | FCS_Online | FCS_Failed

fun ffi_connection_state_from :: "connection_state \<Rightarrow> ffi_connection_state" where
  "ffi_connection_state_from CS_Offline = FCS_Offline"
| "ffi_connection_state_from CS_Connecting = FCS_Connecting"
| "ffi_connection_state_from CS_Online = FCS_Online"
| "ffi_connection_state_from CS_Failed = FCS_Failed"

fun connection_state_from_ffi :: "ffi_connection_state \<Rightarrow> connection_state" where
  "connection_state_from_ffi FCS_Offline = CS_Offline"
| "connection_state_from_ffi FCS_Connecting = CS_Connecting"
| "connection_state_from_ffi FCS_Online = CS_Online"
| "connection_state_from_ffi FCS_Failed = CS_Failed"

datatype ffi_disconnect_kind =
    FDK_AuthenticationFailed
  | FDK_TlsVerificationFailed
  | FDK_ServerRefused
  | FDK_NetworkLost
  | FDK_Cancelled
  | FDK_Unknown

fun ffi_disconnect_kind_from :: "disconnect_kind \<Rightarrow> ffi_disconnect_kind" where
  "ffi_disconnect_kind_from DK_AuthenticationFailed = FDK_AuthenticationFailed"
| "ffi_disconnect_kind_from DK_TlsVerificationFailed = FDK_TlsVerificationFailed"
| "ffi_disconnect_kind_from DK_ServerRefused = FDK_ServerRefused"
| "ffi_disconnect_kind_from DK_NetworkLost = FDK_NetworkLost"
| "ffi_disconnect_kind_from DK_Cancelled = FDK_Cancelled"
| "ffi_disconnect_kind_from DK_Unknown = FDK_Unknown"

fun disconnect_kind_from_ffi :: "ffi_disconnect_kind \<Rightarrow> disconnect_kind" where
  "disconnect_kind_from_ffi FDK_AuthenticationFailed = DK_AuthenticationFailed"
| "disconnect_kind_from_ffi FDK_TlsVerificationFailed = DK_TlsVerificationFailed"
| "disconnect_kind_from_ffi FDK_ServerRefused = DK_ServerRefused"
| "disconnect_kind_from_ffi FDK_NetworkLost = DK_NetworkLost"
| "disconnect_kind_from_ffi FDK_Cancelled = DK_Cancelled"
| "disconnect_kind_from_ffi FDK_Unknown = DK_Unknown"

datatype ffi_contact_presence = FCP_Online | FCP_Away | FCP_DoNotDisturb | FCP_Offline

fun ffi_contact_presence_from :: "contact_presence \<Rightarrow> ffi_contact_presence" where
  "ffi_contact_presence_from CP_Online = FCP_Online"
| "ffi_contact_presence_from CP_Away = FCP_Away"
| "ffi_contact_presence_from CP_DoNotDisturb = FCP_DoNotDisturb"
| "ffi_contact_presence_from CP_Offline = FCP_Offline"

fun contact_presence_from_ffi :: "ffi_contact_presence \<Rightarrow> contact_presence" where
  "contact_presence_from_ffi FCP_Online = CP_Online"
| "contact_presence_from_ffi FCP_Away = CP_Away"
| "contact_presence_from_ffi FCP_DoNotDisturb = CP_DoNotDisturb"
| "contact_presence_from_ffi FCP_Offline = CP_Offline"

datatype ffi_roster_subscription = FRS_None | FRS_Inbound | FRS_Outbound | FRS_Mutual | FRS_PendingOutbound

fun ffi_roster_subscription_from :: "roster_subscription \<Rightarrow> ffi_roster_subscription" where
  "ffi_roster_subscription_from RS_None = FRS_None"
| "ffi_roster_subscription_from RS_Inbound = FRS_Inbound"
| "ffi_roster_subscription_from RS_Outbound = FRS_Outbound"
| "ffi_roster_subscription_from RS_Mutual = FRS_Mutual"
| "ffi_roster_subscription_from RS_PendingOutbound = FRS_PendingOutbound"

fun roster_subscription_from_ffi :: "ffi_roster_subscription \<Rightarrow> roster_subscription" where
  "roster_subscription_from_ffi FRS_None = RS_None"
| "roster_subscription_from_ffi FRS_Inbound = RS_Inbound"
| "roster_subscription_from_ffi FRS_Outbound = RS_Outbound"
| "roster_subscription_from_ffi FRS_Mutual = RS_Mutual"
| "roster_subscription_from_ffi FRS_PendingOutbound = RS_PendingOutbound"

datatype ffi_conversation_kind = FCK_Direct | FCK_MultiUserChat

fun ffi_conversation_kind_from :: "conversation_kind \<Rightarrow> ffi_conversation_kind" where
  "ffi_conversation_kind_from CK_Direct = FCK_Direct"
| "ffi_conversation_kind_from CK_MultiUserChat = FCK_MultiUserChat"

fun conversation_kind_from_ffi :: "ffi_conversation_kind \<Rightarrow> conversation_kind" where
  "conversation_kind_from_ffi FCK_Direct = CK_Direct"
| "conversation_kind_from_ffi FCK_MultiUserChat = CK_MultiUserChat"

datatype ffi_message_direction = FMD_Incoming | FMD_Outgoing

fun ffi_message_direction_from :: "message_direction \<Rightarrow> ffi_message_direction" where
  "ffi_message_direction_from MD_Incoming = FMD_Incoming"
| "ffi_message_direction_from MD_Outgoing = FMD_Outgoing"

datatype ffi_delivery_state = FDS_Pending | FDS_Sent | FDS_Delivered | FDS_Read | FDS_Failed

fun ffi_delivery_state_from :: "delivery_state \<Rightarrow> ffi_delivery_state" where
  "ffi_delivery_state_from DS_Pending = FDS_Pending"
| "ffi_delivery_state_from DS_Sent = FDS_Sent"
| "ffi_delivery_state_from DS_Delivered = FDS_Delivered"
| "ffi_delivery_state_from DS_Read = FDS_Read"
| "ffi_delivery_state_from DS_Failed = FDS_Failed"

datatype ffi_message_kind = FMK_Text | FMK_Attachment | FMK_Voice

fun ffi_message_kind_from :: "message_kind \<Rightarrow> ffi_message_kind" where
  "ffi_message_kind_from MK_Text = FMK_Text"
| "ffi_message_kind_from MK_Attachment = FMK_Attachment"
| "ffi_message_kind_from MK_Voice = FMK_Voice"

datatype ffi_protocol_capability =
    FCap_MultiUserChat
  | FCap_MessageArchiveManagement
  | FCap_StreamManagement
  | FCap_HttpFileUpload
  | FCap_Omemo
  | FCap_PushNotifications
  | FCap_Receipts
  | FCap_ChatMarkers
  | FCap_ChatStates
  | FCap_MessageReactions
  | FCap_MessageCorrections
  | FCap_MessageReplies
  | FCap_SharedPins

fun ffi_capability_from :: "protocol_capability \<Rightarrow> ffi_protocol_capability" where
  "ffi_capability_from Cap_MultiUserChat = FCap_MultiUserChat"
| "ffi_capability_from Cap_MessageArchiveManagement = FCap_MessageArchiveManagement"
| "ffi_capability_from Cap_StreamManagement = FCap_StreamManagement"
| "ffi_capability_from Cap_HttpFileUpload = FCap_HttpFileUpload"
| "ffi_capability_from Cap_Omemo = FCap_Omemo"
| "ffi_capability_from Cap_PushNotifications = FCap_PushNotifications"
| "ffi_capability_from Cap_Receipts = FCap_Receipts"
| "ffi_capability_from Cap_ChatMarkers = FCap_ChatMarkers"
| "ffi_capability_from Cap_ChatStates = FCap_ChatStates"
| "ffi_capability_from Cap_MessageReactions = FCap_MessageReactions"
| "ffi_capability_from Cap_MessageCorrections = FCap_MessageCorrections"
| "ffi_capability_from Cap_MessageReplies = FCap_MessageReplies"
| "ffi_capability_from Cap_SharedPins = FCap_SharedPins"

fun capability_from_ffi :: "ffi_protocol_capability \<Rightarrow> protocol_capability" where
  "capability_from_ffi FCap_MultiUserChat = Cap_MultiUserChat"
| "capability_from_ffi FCap_MessageArchiveManagement = Cap_MessageArchiveManagement"
| "capability_from_ffi FCap_StreamManagement = Cap_StreamManagement"
| "capability_from_ffi FCap_HttpFileUpload = Cap_HttpFileUpload"
| "capability_from_ffi FCap_Omemo = Cap_Omemo"
| "capability_from_ffi FCap_PushNotifications = Cap_PushNotifications"
| "capability_from_ffi FCap_Receipts = Cap_Receipts"
| "capability_from_ffi FCap_ChatMarkers = Cap_ChatMarkers"
| "capability_from_ffi FCap_ChatStates = Cap_ChatStates"
| "capability_from_ffi FCap_MessageReactions = Cap_MessageReactions"
| "capability_from_ffi FCap_MessageCorrections = Cap_MessageCorrections"
| "capability_from_ffi FCap_MessageReplies = Cap_MessageReplies"
| "capability_from_ffi FCap_SharedPins = Cap_SharedPins"

datatype ffi_proxy_kind = FPK_Socks5 | FPK_HttpConnect

fun proxy_kind_from_ffi :: "ffi_proxy_kind \<Rightarrow> proxy_kind" where
  "proxy_kind_from_ffi FPK_Socks5 = PK_Socks5"
| "proxy_kind_from_ffi FPK_HttpConnect = PK_HttpConnect"

fun ffi_proxy_kind_from :: "proxy_kind \<Rightarrow> ffi_proxy_kind" where
  "ffi_proxy_kind_from PK_Socks5 = FPK_Socks5"
| "ffi_proxy_kind_from PK_HttpConnect = FPK_HttpConnect"

interpretation state_conv: conversion ffi_connection_state_from connection_state_from_ffi
proof
  show "connection_state_from_ffi (ffi_connection_state_from x) = x" for x by (cases x) simp_all
  show "ffi_connection_state_from (connection_state_from_ffi y) = y" for y by (cases y) simp_all
qed

interpretation disconnect_conv: conversion ffi_disconnect_kind_from disconnect_kind_from_ffi
proof
  show "disconnect_kind_from_ffi (ffi_disconnect_kind_from x) = x" for x by (cases x) simp_all
  show "ffi_disconnect_kind_from (disconnect_kind_from_ffi y) = y" for y by (cases y) simp_all
qed

interpretation presence_conv: conversion ffi_contact_presence_from contact_presence_from_ffi
proof
  show "contact_presence_from_ffi (ffi_contact_presence_from x) = x" for x by (cases x) simp_all
  show "ffi_contact_presence_from (contact_presence_from_ffi y) = y" for y by (cases y) simp_all
qed

interpretation subscription_conv: conversion ffi_roster_subscription_from roster_subscription_from_ffi
proof
  show "roster_subscription_from_ffi (ffi_roster_subscription_from x) = x" for x by (cases x) simp_all
  show "ffi_roster_subscription_from (roster_subscription_from_ffi y) = y" for y by (cases y) simp_all
qed

interpretation kind_conv: conversion ffi_conversation_kind_from conversation_kind_from_ffi
proof
  show "conversation_kind_from_ffi (ffi_conversation_kind_from x) = x" for x by (cases x) simp_all
  show "ffi_conversation_kind_from (conversation_kind_from_ffi y) = y" for y by (cases y) simp_all
qed

interpretation capability_conv: conversion ffi_capability_from capability_from_ffi
proof
  show "capability_from_ffi (ffi_capability_from x) = x" for x by (cases x) simp_all
  show "ffi_capability_from (capability_from_ffi y) = y" for y by (cases y) simp_all
qed

interpretation proxy_kind_conv: conversion ffi_proxy_kind_from proxy_kind_from_ffi
proof
  show "proxy_kind_from_ffi (ffi_proxy_kind_from x) = x" for x by (cases x) simp_all
  show "ffi_proxy_kind_from (proxy_kind_from_ffi y) = y" for y by (cases y) simp_all
qed

section \<open>Records\<close>

record ffi_proxy_config =
  fpx_host :: ustr
  fpx_port :: u16
  fpx_kind :: ffi_proxy_kind

definition ffi_proxy_config_from :: "proxy_config \<Rightarrow> ffi_proxy_config" where
  "ffi_proxy_config_from v = \<lparr>fpx_host = px_host v, fpx_port = px_port v, fpx_kind = ffi_proxy_kind_from (px_kind v)\<rparr>"

record ffi_proxy_probe =
  fpp_ok :: bool
  fpp_latency_ms :: u64
  fpp_error :: "ustr option"

definition ffi_proxy_probe_from :: "probe_outcome \<Rightarrow> ffi_proxy_probe" where
  "ffi_proxy_probe_from v = \<lparr>fpp_ok = pp_ok v, fpp_latency_ms = pp_latency_ms v, fpp_error = pp_error v\<rparr>"

record ffi_account =
  facct_id :: u64
  facct_jid :: ustr
  facct_server :: ustr
  facct_display_name :: ustr
  facct_connection_state :: ffi_connection_state
  facct_capabilities :: "ffi_protocol_capability list"
  facct_connection_error :: "ustr option"
  facct_disconnect_kind :: "ffi_disconnect_kind option"

text \<open>The capabilities are collected from a \<^verbatim>\<open>BTreeSet\<close>, in the order of the domain's enum.\<close>

definition ffi_account_from :: "account \<Rightarrow> ffi_account" where
  "ffi_account_from v = \<lparr>
     facct_id = acct_id v,
     facct_jid = acct_jid v,
     facct_server = acct_server v,
     facct_display_name = acct_display_name v,
     facct_connection_state = ffi_connection_state_from (acct_connection_state v),
     facct_capabilities = map ffi_capability_from (sorted_list_of_set (acct_capabilities v)),
     facct_connection_error = acct_connection_error v,
     facct_disconnect_kind = map_option ffi_disconnect_kind_from (acct_disconnect_kind v)\<rparr>"

record ffi_contact =
  fct_account_id :: u64
  fct_jid :: ustr
  fct_display_name :: ustr
  fct_presence :: ffi_contact_presence
  fct_status :: "ustr option"
  fct_subscription :: ffi_roster_subscription

definition ffi_contact_from :: "contact \<Rightarrow> ffi_contact" where
  "ffi_contact_from v = \<lparr>
     fct_account_id = ct_account_id v,
     fct_jid = ct_jid v,
     fct_display_name = ct_display_name v,
     fct_presence = ffi_contact_presence_from (ct_presence v),
     fct_status = ct_status v,
     fct_subscription = ffi_roster_subscription_from (ct_subscription v)\<rparr>"

record ffi_conversation =
  fcv_id :: u64
  fcv_account_id :: u64
  fcv_kind :: ffi_conversation_kind
  fcv_address :: ustr
  fcv_title :: ustr
  fcv_unread_count :: u32
  fcv_last_activity_epoch_ms :: u64

definition ffi_conversation_from :: "conversation \<Rightarrow> ffi_conversation" where
  "ffi_conversation_from v = \<lparr>
     fcv_id = cv_id v,
     fcv_account_id = cv_account_id v,
     fcv_kind = ffi_conversation_kind_from (cv_kind v),
     fcv_address = cv_address v,
     fcv_title = cv_title v,
     fcv_unread_count = cv_unread_count v,
     fcv_last_activity_epoch_ms = cv_last_activity_epoch_ms v\<rparr>"

record ffi_attachment =
  fatt_id :: ustr
  fatt_filename :: ustr
  fatt_mime_type :: ustr
  fatt_byte_count :: u64
  fatt_remote_url :: "ustr option"

definition ffi_attachment_from :: "attachment \<Rightarrow> ffi_attachment" where
  "ffi_attachment_from v = \<lparr>
     fatt_id = att_id v,
     fatt_filename = att_filename v,
     fatt_mime_type = att_mime_type v,
     fatt_byte_count = att_byte_count v,
     fatt_remote_url = att_remote_url v\<rparr>"

record ffi_message =
  fmsg_id :: u64
  fmsg_conversation_id :: u64
  fmsg_sender :: ustr
  fmsg_body :: ustr
  fmsg_direction :: ffi_message_direction
  fmsg_kind :: ffi_message_kind
  fmsg_sent_at_epoch_ms :: u64
  fmsg_delivery_state :: ffi_delivery_state
  fmsg_in_reply_to :: "u64 option"
  fmsg_attachment :: "ffi_attachment option"

definition ffi_message_from :: "message \<Rightarrow> ffi_message" where
  "ffi_message_from v = \<lparr>
     fmsg_id = msg_id v,
     fmsg_conversation_id = msg_conversation_id v,
     fmsg_sender = msg_sender v,
     fmsg_body = msg_body v,
     fmsg_direction = ffi_message_direction_from (msg_direction v),
     fmsg_kind = ffi_message_kind_from (msg_kind v),
     fmsg_sent_at_epoch_ms = msg_sent_at_epoch_ms v,
     fmsg_delivery_state = ffi_delivery_state_from (msg_delivery_state v),
     fmsg_in_reply_to = msg_in_reply_to v,
     fmsg_attachment = map_option ffi_attachment_from (msg_attachment v)\<rparr>"

record ffi_reaction =
  frx_id :: u64
  frx_message_id :: u64
  frx_emoji :: ustr
  frx_actor :: ustr

definition ffi_reaction_from :: "reaction \<Rightarrow> ffi_reaction" where
  "ffi_reaction_from v = \<lparr>frx_id = rx_id v, frx_message_id = rx_message_id v, frx_emoji = rx_emoji v, frx_actor = rx_actor v\<rparr>"

record ffi_core_snapshot =
  fsnap_accounts :: "ffi_account list"
  fsnap_contacts :: "ffi_contact list"
  fsnap_conversations :: "ffi_conversation list"
  fsnap_messages :: "ffi_message list"
  fsnap_reactions :: "ffi_reaction list"

definition ffi_core_snapshot_from :: "core_snapshot \<Rightarrow> ffi_core_snapshot" where
  "ffi_core_snapshot_from v = \<lparr>
     fsnap_accounts = map ffi_account_from (snap_accounts v),
     fsnap_contacts = map ffi_contact_from (snap_contacts v),
     fsnap_conversations = map ffi_conversation_from (snap_conversations v),
     fsnap_messages = map ffi_message_from (snap_messages v),
     fsnap_reactions = map ffi_reaction_from (snap_reactions v)\<rparr>"

datatype ffi_core_event =
    FE_AccountChanged u64
  | FE_RosterChanged u64
  | FE_ConversationChanged u64
  | FE_MessageAdded u64
  | FE_MessageChanged u64

fun ffi_core_event_from :: "core_event \<Rightarrow> ffi_core_event" where
  "ffi_core_event_from (AccountChanged account_id) = FE_AccountChanged account_id"
| "ffi_core_event_from (RosterChanged account_id) = FE_RosterChanged account_id"
| "ffi_core_event_from (ConversationChanged conversation_id) = FE_ConversationChanged conversation_id"
| "ffi_core_event_from (MessageAdded message_id) = FE_MessageAdded message_id"
| "ffi_core_event_from (MessageChanged message_id) = FE_MessageChanged message_id"

datatype ffi_persistence_outcome = FPO_Missing | FPO_PlaintextLegacy | FPO_Encrypted

record load_secured_result =
  lsr_outcome :: ffi_persistence_outcome
  lsr_loaded :: bool

section \<open>Errors\<close>

datatype binding_error =
    BE_InvalidInput ustr
  | BE_NotFound ustr
  | BE_CapabilityUnavailable ffi_protocol_capability
  | BE_AuthenticationFailed
  | BE_ConnectionFailed ustr
  | BE_Internal ustr

text \<open>The \<^verbatim>\<open>Debug\<close> of the boundary's capability is the variant's name, which is the domain's.\<close>

fun binding_error_display :: "binding_error \<Rightarrow> ustr" where
  "binding_error_display (BE_InvalidInput detail) = detail"
| "binding_error_display (BE_NotFound detail) = detail"
| "binding_error_display (BE_ConnectionFailed detail) = detail"
| "binding_error_display (BE_Internal detail) = detail"
| "binding_error_display (BE_CapabilityUnavailable capability) =
     lit ''capability unavailable: '' @ cap_debug (capability_from_ffi capability)"
| "binding_error_display BE_AuthenticationFailed = lit ''authentication failed''"

fun binding_of_core :: "core_error \<Rightarrow> binding_error" where
  "binding_of_core (UnknownAccount i) = BE_NotFound (core_error_display (UnknownAccount i))"
| "binding_of_core (UnknownConversation i) = BE_NotFound (core_error_display (UnknownConversation i))"
| "binding_of_core (UnknownMessage i) = BE_NotFound (core_error_display (UnknownMessage i))"
| "binding_of_core (CapabilityUnavailable capability) = BE_CapabilityUnavailable (ffi_capability_from capability)"
| "binding_of_core value = BE_InvalidInput (core_error_display value)"

fun binding_of_transport :: "transport_error \<Rightarrow> binding_error" where
  "binding_of_transport TE_AuthenticationFailed = BE_AuthenticationFailed"
| "binding_of_transport (TE_TlsVerification detail) = BE_ConnectionFailed detail"
| "binding_of_transport (TE_ConnectionFailed detail) = BE_ConnectionFailed detail"
| "binding_of_transport (TE_ProtocolViolation detail) = BE_InvalidInput detail"
| "binding_of_transport (TE_Unsupported detail) = BE_Internal detail"

fun binding_of_coordinator :: "coordinator_error \<Rightarrow> binding_error" where
  "binding_of_coordinator (CE_Core e) = binding_of_core e"
| "binding_of_coordinator (CE_Transport e) = binding_of_transport e"

fun binding_of_persistence :: "persistence_error \<Rightarrow> binding_error" where
  "binding_of_persistence (PerIo error) = BE_Internal (lit ''state persistence I/O error: '' @ error)"
| "binding_of_persistence (PerCorrupt detail) = BE_Internal (lit ''corrupt state file: '' @ detail)"
| "binding_of_persistence (PerUnsupportedVersion version) =
     BE_Internal (lit ''unsupported state schema version '' @ show_dec (unat version))"
| "binding_of_persistence (PerTooLarge bytes) =
     BE_Internal (lit ''state file too large: '' @ show_dec bytes @ lit '' bytes'')"
| "binding_of_persistence PerNotEncrypted = BE_Internal (lit ''state file is not an encrypted state file'')"
| "binding_of_persistence PerDecryption =
     BE_Internal (lit ''state file decryption failed (wrong key or corrupt file)'')"
| "binding_of_persistence (PerEncryption detail) = BE_Internal (lit ''state encryption failed: '' @ detail)"

definition to_proxy_config :: "ffi_proxy_config \<Rightarrow> binding_error + proxy_config" where
  "to_proxy_config config =
     (case proxy_config_new (fpx_host config) (fpx_port config) (proxy_kind_from_ffi (fpx_kind config)) of
        Inl error \<Rightarrow> Inl (BE_InvalidInput (proxy_error_display error))
      | Inr proxy \<Rightarrow> Inr proxy)"

section \<open>What the conversions keep\<close>

lemma ffi_capabilities_from:
  "facct_capabilities (ffi_account_from a) = map ffi_capability_from (sorted_list_of_set (acct_capabilities a))
    \<and> set (map capability_from_ffi (facct_capabilities (ffi_account_from a))) = acct_capabilities a"
  by (simp add: ffi_account_from_def capability_conv.restore_into image_image)

lemma ffi_message_from_inj: "ffi_message_from m = ffi_message_from m' \<longleftrightarrow> m = m'"
proof
  assume eq: "ffi_message_from m = ffi_message_from m'"
  have dir: "ffi_message_direction_from d = ffi_message_direction_from d' \<Longrightarrow> d = d'" for d d'
    by (cases d; cases d') simp_all
  have st: "ffi_delivery_state_from d = ffi_delivery_state_from d' \<Longrightarrow> d = d'" for d d'
    by (cases d; cases d') simp_all
  have kind: "ffi_message_kind_from d = ffi_message_kind_from d' \<Longrightarrow> d = d'" for d d'
    by (cases d; cases d') simp_all
  have att: "map_option ffi_attachment_from x = map_option ffi_attachment_from y \<Longrightarrow> x = y" for x y
    by (cases x; cases y) (auto simp: ffi_attachment_from_def)
  from eq show "m = m'"
    by (cases m; cases m') (auto simp: ffi_message_from_def dest: dir st kind att)
qed simp

text \<open>A stored proxy goes to the platform and comes back unchanged: it was valid when it was stored.\<close>

lemma proxy_config_valid:
  "proxy_config_new h p k = Inr v \<Longrightarrow> proxy_config_new (px_host v) (px_port v) (px_kind v) = Inr v"
  by (auto simp: proxy_config_new_def split: sum.splits if_splits)

lemma to_proxy_config_back:
  assumes "to_proxy_config f = Inr v"
  shows "ffi_proxy_config_from v = f" and "to_proxy_config (ffi_proxy_config_from v) = Inr v"
proof -
  have "proxy_config_new (fpx_host f) (fpx_port f) (proxy_kind_from_ffi (fpx_kind f)) = Inr v"
    using assms by (auto simp: to_proxy_config_def split: sum.splits)
  then have "px_host v = fpx_host f" "px_port v = fpx_port f" "px_kind v = proxy_kind_from_ffi (fpx_kind f)"
    by (auto simp: proxy_config_new_def split: sum.splits if_splits)
  then show eq: "ffi_proxy_config_from v = f"
    by (simp add: ffi_proxy_config_from_def proxy_kind_conv.into_restore)
  show "to_proxy_config (ffi_proxy_config_from v) = Inr v" by (simp add: eq assms)
qed

end
