(* ===== verification/Proxy_Codec.thy ===== *)
theory Proxy_Codec
  imports Proxy_Config
begin

text \<open>
  The wire formats of \<^verbatim>\<open>proxy.rs\<close>: the SOCKS5 messages of RFC 1928 and RFC 1929 and the HTTP CONNECT
  exchange. Two functions of other crates are arguments: \<open>b64\<close>, the standard Base64 encoding of the
  crate \<^verbatim>\<open>base64\<close>, and \<open>debug_str\<close>, the quoting of a string by \<^verbatim>\<open>{:?}\<close>, which depends on the
  Unicode tables of the compiler and occurs in error texts only.
\<close>

section \<open>SOCKS5\<close>

definition SOCKS5_VERSION :: u8 where "SOCKS5_VERSION = 5"
definition SOCKS5_METHOD_NO_AUTH :: u8 where "SOCKS5_METHOD_NO_AUTH = 0"
definition SOCKS5_METHOD_USER_PASS :: u8 where "SOCKS5_METHOD_USER_PASS = 2"
definition SOCKS5_AUTH_VERSION :: u8 where "SOCKS5_AUTH_VERSION = 1"
definition SOCKS5_CMD_CONNECT :: u8 where "SOCKS5_CMD_CONNECT = 1"
definition SOCKS5_ATYP_IPV4 :: u8 where "SOCKS5_ATYP_IPV4 = 1"
definition SOCKS5_ATYP_DOMAIN :: u8 where "SOCKS5_ATYP_DOMAIN = 3"
definition SOCKS5_ATYP_IPV6 :: u8 where "SOCKS5_ATYP_IPV6 = 4"
definition SOCKS5_REP_SUCCEEDED :: u8 where "SOCKS5_REP_SUCCEEDED = 0"

lemmas socks_consts = SOCKS5_VERSION_def SOCKS5_METHOD_NO_AUTH_def SOCKS5_METHOD_USER_PASS_def
  SOCKS5_AUTH_VERSION_def SOCKS5_CMD_CONNECT_def SOCKS5_ATYP_IPV4_def SOCKS5_ATYP_DOMAIN_def
  SOCKS5_ATYP_IPV6_def SOCKS5_REP_SUCCEEDED_def

text \<open>\<^verbatim>\<open>u8::try_from(len).unwrap_or(255)\<close>.\<close>

definition len_byte :: "'a list \<Rightarrow> u8" where
  "len_byte xs = (if length xs < 256 then of_nat (length xs) else 255)"

definition socks5_greeting :: "u8 list \<Rightarrow> u8 list" where
  "socks5_greeting methods =
     (let count = len_byte methods in [SOCKS5_VERSION, count] @ take (unat count) methods)"

definition wrong_version :: "string \<Rightarrow> u8 \<Rightarrow> string \<Rightarrow> proxy_error" where
  "wrong_version a b e = PE_SocksProtocol (lit a @ show_dec (unat b) @ lit e)"

definition parse_socks5_method_reply :: "u8 list \<Rightarrow> proxy_error + u8" where
  "parse_socks5_method_reply bytes =
     (if length bytes \<noteq> 2
      then Inl (PE_SocksProtocol (lit ''the SOCKS5 method reply must be exactly 2 bytes''))
      else if bytes ! 0 \<noteq> SOCKS5_VERSION
      then Inl (wrong_version ''the SOCKS5 proxy replied with version '' (bytes ! 0) '', expected 5'')
      else if bytes ! 1 = 255 then Inl PE_SocksMethodRejected
      else Inr (bytes ! 1))"

definition socks5_auth_request :: "ustr \<Rightarrow> ustr \<Rightarrow> u8 list" where
  "socks5_auth_request username password =
     (let username_bytes = as_bytes username; password_bytes = as_bytes password;
          username_len = len_byte username_bytes; password_len = len_byte password_bytes
      in [SOCKS5_AUTH_VERSION, username_len] @ take (unat username_len) username_bytes
           @ [password_len] @ take (unat password_len) password_bytes)"

definition parse_socks5_auth_reply :: "u8 list \<Rightarrow> proxy_error + unit" where
  "parse_socks5_auth_reply bytes =
     (if length bytes \<noteq> 2
      then Inl (PE_SocksProtocol (lit ''the SOCKS5 authentication reply must be exactly 2 bytes''))
      else if bytes ! 0 \<noteq> SOCKS5_AUTH_VERSION
      then Inl (wrong_version ''the SOCKS5 proxy replied with authentication version '' (bytes ! 0) '', expected 1'')
      else if bytes ! 1 = 0 then Inr () else Inl PE_SocksAuthRejected)"

definition encode_address :: "ustr \<Rightarrow> proxy_error + u8 list" where
  "encode_address host =
     (case parse_ipv4 host of
        Some octets \<Rightarrow> Inr (SOCKS5_ATYP_IPV4 # octets)
      | None \<Rightarrow> (case parse_ipv6 host of
            Some octets \<Rightarrow> Inr (SOCKS5_ATYP_IPV6 # octets)
          | None \<Rightarrow>
              let bytes = as_bytes host
              in if bytes = [] \<or> 255 < length bytes
                 then Inl (PE_InvalidConfig (lit ''a tunnel hostname must be between 1 and 255 bytes''))
                 else Inr ([SOCKS5_ATYP_DOMAIN, of_nat (length bytes)] @ bytes)))"

text \<open>\<^verbatim>\<open>u16::to_be_bytes\<close>.\<close>

definition be_bytes :: "u16 \<Rightarrow> u8 list" where
  "be_bytes p = [of_nat (unat p div 256), of_nat (unat p mod 256)]"

definition socks5_connect_request :: "proxy_target \<Rightarrow> proxy_error + u8 list" where
  "socks5_connect_request target =
     (case encode_address (pt_host target) of
        Inl e \<Rightarrow> Inl e
      | Inr address \<Rightarrow> Inr ([SOCKS5_VERSION, SOCKS5_CMD_CONNECT, 0] @ address @ be_bytes (pt_port target)))"

definition unsupported_atyp :: "u8 \<Rightarrow> proxy_error" where
  "unsupported_atyp atyp = PE_SocksProtocol
     (lit ''unsupported address type '' @ show_dec (unat atyp) @ lit '' in the SOCKS5 connect reply'')"

definition parse_socks5_connect_reply :: "u8 list \<Rightarrow> proxy_error + unit" where
  "parse_socks5_connect_reply bytes =
     (if length bytes < 4
      then Inl (PE_SocksProtocol (lit ''the SOCKS5 connect reply is shorter than its 4-byte header''))
      else if bytes ! 0 \<noteq> SOCKS5_VERSION
      then Inl (wrong_version ''the SOCKS5 proxy replied with version '' (bytes ! 0) '', expected 5'')
      else if bytes ! 2 \<noteq> 0
      then Inl (PE_SocksProtocol (lit ''the reserved byte of the SOCKS5 connect reply must be zero''))
      else
        let address_len =
              (if bytes ! 3 = SOCKS5_ATYP_IPV4 then Inr 4
               else if bytes ! 3 = SOCKS5_ATYP_IPV6 then Inr 16
               else if bytes ! 3 = SOCKS5_ATYP_DOMAIN
               then (if 4 < length bytes then Inr (unat (bytes ! 4) + 1)
                     else Inl (PE_SocksProtocol (lit ''the SOCKS5 connect reply is missing its domain length byte'')))
               else Inl (unsupported_atyp (bytes ! 3)))
        in (case address_len of
              Inl e \<Rightarrow> Inl e
            | Inr n \<Rightarrow>
                let expected = 4 + n + 2
                in if length bytes \<noteq> expected
                   then Inl (PE_SocksProtocol (lit ''the SOCKS5 connect reply is ''
                          @ show_dec (length bytes) @ lit '' bytes, expected '' @ show_dec expected))
                   else if bytes ! 1 = SOCKS5_REP_SUCCEEDED then Inr ()
                   else Inl (PE_SocksConnectFailed (bytes ! 1))))"

section \<open>HTTP CONNECT\<close>

definition crlf :: ustr where "crlf = [13, 10]"

definition authority :: "proxy_target \<Rightarrow> ustr" where
  "authority target = pt_host target @ [colon] @ show_dec (unat (pt_port target))"

definition http_connect_request ::
  "(u8 list \<Rightarrow> ustr) \<Rightarrow> proxy_target \<Rightarrow> (ustr \<times> ustr) option \<Rightarrow> ustr" where
  "http_connect_request b64 target credentials =
     lit ''CONNECT '' @ authority target @ lit '' HTTP/1.1'' @ crlf
     @ lit ''Host: '' @ authority target @ crlf
     @ (case credentials of
          None \<Rightarrow> []
        | Some (username, password) \<Rightarrow>
            lit ''Proxy-Authorization: Basic '' @ b64 (as_bytes (username @ [colon] @ password)) @ crlf)
     @ crlf"

text \<open>\<^verbatim>\<open>text.split("\r\n").next()\<close>.\<close>

fun before_crlf :: "ustr \<Rightarrow> ustr" where
  "before_crlf (a # b # s) = (if a = 13 \<and> b = 10 then [] else a # before_crlf (b # s))"
| "before_crlf s = s"

definition parse_http_connect_response :: "(ustr \<Rightarrow> ustr) \<Rightarrow> u8 list \<Rightarrow> proxy_error + unit" where
  "parse_http_connect_response debug_str bytes =
     (case from_utf8 bytes of
        None \<Rightarrow> Inl (PE_HttpMalformed (lit ''the proxy response is not valid UTF-8''))
      | Some text \<Rightarrow>
          let status_line = before_crlf text;
              parts = split_ws status_line;
              version = (case parts of [] \<Rightarrow> [] | v # _ \<Rightarrow> v)
          in if \<not> starts_with (lit ''HTTP/'') version
             then Inl (PE_HttpMalformed (lit ''the proxy response status line does not start with HTTP/: ''
                        @ debug_str status_line))
             else (case Option.bind (case drop 1 parts of [] \<Rightarrow> None | s # _ \<Rightarrow> Some s) (parse_uint 16) of
                 None \<Rightarrow> Inl (PE_HttpMalformed (lit ''the proxy response has no parseable status code: ''
                        @ debug_str status_line))
               | Some status \<Rightarrow>
                   if status = 200 then Inr ()
                   else Inl (PE_HttpStatus (of_nat status) (join_with (lit '' '') (drop 2 parts)))))"

section \<open>The messages as the RFCs define them\<close>

text \<open>What a proxy that follows RFC 1928 and RFC 1929 reads from a client.\<close>

datatype socks_address = SA_V4 "u8 list" | SA_Domain "u8 list" | SA_V6 "u8 list"

fun rfc1928_greeting :: "u8 list \<Rightarrow> u8 list option" where
  "rfc1928_greeting (v # n # ms) = (if v = 5 \<and> unat n = length ms then Some ms else None)"
| "rfc1928_greeting _ = None"

fun rfc1929_request :: "u8 list \<Rightarrow> (u8 list \<times> u8 list) option" where
  "rfc1929_request (v # n # r) =
     (let u = take (unat n) r; q = drop (unat n) r
      in case q of
           m # p \<Rightarrow> if v = 1 \<and> length u = unat n \<and> unat m = length p then Some (u, p) else None
         | [] \<Rightarrow> None)"
| "rfc1929_request _ = None"

fun rfc1928_address :: "u8 \<Rightarrow> u8 list \<Rightarrow> (socks_address \<times> u8 list) option" where
  "rfc1928_address t r =
     (if t = 1 \<and> 4 \<le> length r then Some (SA_V4 (take 4 r), drop 4 r)
      else if t = 4 \<and> 16 \<le> length r then Some (SA_V6 (take 16 r), drop 16 r)
      else if t = 3 then (case r of
          n # q \<Rightarrow> if unat n \<le> length q then Some (SA_Domain (take (unat n) q), drop (unat n) q) else None
        | [] \<Rightarrow> None)
      else None)"

fun rfc1928_message :: "u8 list \<Rightarrow> (u8 \<times> socks_address \<times> nat) option" where
  "rfc1928_message (v # code # z # t # r) =
     (if v = 5 \<and> z = 0
      then (case rfc1928_address t r of
          Some (a, [hi, lo]) \<Rightarrow> Some (code, a, unat hi * 256 + unat lo)
        | _ \<Rightarrow> None)
      else None)"
| "rfc1928_message _ = None"

text \<open>The destination a host field stands for: an IP literal in binary, anything else as a name.\<close>

definition destination :: "ustr \<Rightarrow> socks_address" where
  "destination host = (case parse_ipv4 host of
     Some os \<Rightarrow> SA_V4 os
   | None \<Rightarrow> (case parse_ipv6 host of Some os \<Rightarrow> SA_V6 os | None \<Rightarrow> SA_Domain (as_bytes host)))"

lemma unat_of_nat_u8: "n < 256 \<Longrightarrow> unat (of_nat n :: u8) = n"
  by (simp add: unat_of_nat)

lemma len_byte_unat: "unat (len_byte xs) = min 255 (length xs)"
  by (auto simp: len_byte_def unat_of_nat_u8 min_def)

lemma be_bytes_value: "be_bytes p = [hi, lo] \<Longrightarrow> unat hi * 256 + unat lo = unat p"
proof -
  assume be: "be_bytes p = [hi, lo]"
  have "unat p < 65536" using unsigned_less [of p, where ?'a = nat] by simp
  then have "unat p div 256 < 256" by simp
  with be show ?thesis by (auto simp: be_bytes_def unat_of_nat_u8)
qed

lemma be_bytes_split: "\<exists>hi lo. be_bytes p = [hi, lo] \<and> unat hi * 256 + unat lo = unat p"
  using be_bytes_value by (simp add: be_bytes_def)

lemma address_encoded:
  assumes "encode_address host = Inr (t # bs)"
  shows "rfc1928_address t (bs @ r) = Some (destination host, r)"
  using assms parse_ipv4_length [of host] parse_ipv6_length [of host]
  by (auto simp: encode_address_def destination_def socks_consts Let_def unat_of_nat_u8
      split: option.splits if_splits)

lemma encode_address_Cons: "encode_address host = Inr bs \<Longrightarrow> \<exists>t r. bs = t # r"
  by (auto simp: encode_address_def Let_def split: option.splits if_splits)

text \<open>The CONNECT request for a target is what RFC 1928 asks for: a proxy reads from it the command
  CONNECT, the target's port, and the target's host, in binary when it is an IP literal and byte for
  byte when it is a name, so that names are resolved by the proxy only. The request cannot be built
  exactly when the host is a name of no or more than 255 bytes.\<close>

lemma connect_request_decodes:
  "(case socks5_connect_request target of
      Inr bytes \<Rightarrow> rfc1928_message bytes = Some (1, destination (pt_host target), unat (pt_port target))
    | Inl e \<Rightarrow> (\<exists>name. destination (pt_host target) = SA_Domain name \<and> length name \<notin> {1..255}))"
proof (cases "encode_address (pt_host target)")
  case (Inl e)
  then show ?thesis
    by (auto simp: socks5_connect_request_def encode_address_def destination_def Let_def
        split: option.splits if_splits)
next
  case (Inr bs)
  then obtain t r where bs: "bs = t # r" using encode_address_Cons by blast
  obtain hi lo where be: "be_bytes (pt_port target) = [hi, lo]" "unat hi * 256 + unat lo = unat (pt_port target)"
    using be_bytes_split by blast
  with address_encoded [of "pt_host target" t r "[hi, lo]"] Inr bs show ?thesis
    by (simp add: socks5_connect_request_def socks_consts del: rfc1928_address.simps)
qed

text \<open>A proxy that follows RFC 1929 reads the user name and the password back from the
  authentication request, as long as they have at most 255 bytes; longer ones are cut to 255 and the
  request stays well formed.\<close>

lemma auth_request_decodes:
  "rfc1929_request (socks5_auth_request u p) = Some (take 255 (as_bytes u), take 255 (as_bytes p))"
  by (simp add: socks5_auth_request_def Let_def len_byte_unat socks_consts min_def)

lemma greeting_decodes: "rfc1928_greeting (socks5_greeting ms) = Some (take 255 ms)"
  by (simp add: socks5_greeting_def Let_def len_byte_unat socks_consts min_def)

lemma length_two: "length xs = 2 \<longleftrightarrow> (\<exists>a b. xs = [a, b])"
  by (auto simp: numeral_2_eq_2 length_Suc_conv)

lemma drop_two: "n \<le> length r \<Longrightarrow> (\<exists>hi lo. drop n r = [hi, lo]) \<longleftrightarrow> length r = n + 2"
  using length_two [of "drop n r"] by auto

lemma reply_address_iff:
  "(\<exists>a hi lo. rfc1928_address t r = Some (a, [hi, lo])) \<longleftrightarrow>
     (t = 1 \<and> length r = 6) \<or> (t = 4 \<and> length r = 18) \<or> (t = 3 \<and> (\<exists>n q. r = n # q \<and> length q = unat n + 2))"
proof -
  consider "t = 1" | "t = 4" | "t = 3" | "t \<notin> {1, 3, 4}" by blast
  then show ?thesis
  proof cases
    case 1
    then show ?thesis using drop_two [of 4 r] by (cases "4 \<le> length r") auto
  next
    case 2
    then show ?thesis using drop_two [of 16 r] by (cases "16 \<le> length r") auto
  next
    case 3
    then show ?thesis
    proof (cases r)
      case (Cons n q)
      with 3 show ?thesis using drop_two [of "unat n" q] by (cases "unat n \<le> length q") auto
    qed simp
  qed auto
qed

lemma message_iff:
  "(\<exists>a p. rfc1928_message (v # code # z # t # r) = Some (k, a, p)) \<longleftrightarrow>
     v = 5 \<and> z = 0 \<and> code = k \<and> (\<exists>a hi lo. rfc1928_address t r = Some (a, [hi, lo]))"
  by (auto simp del: rfc1928_address.simps split: option.splits list.splits)

lemma connect_reply_cases:
  fixes v code z t :: u8
  defines "complete r \<equiv> v = 5 \<and> z = 0 \<and> (\<exists>a hi lo. rfc1928_address t r = Some (a, [hi, lo]))"
  shows "complete r \<Longrightarrow> parse_socks5_connect_reply (v # code # z # t # r) =
      (if code = 0 then Inr () else Inl (PE_SocksConnectFailed code))"
    and "\<not> complete r \<Longrightarrow> \<exists>d. parse_socks5_connect_reply (v # code # z # t # r) = Inl (PE_SocksProtocol d)"
  unfolding complete_def reply_address_iff
  by (cases r; auto simp: parse_socks5_connect_reply_def Let_def socks_consts wrong_version_def unsupported_atyp_def)+

lemma complete_reply_parsed:
  assumes "rfc1928_message bytes = Some (k, a, p)"
  shows "parse_socks5_connect_reply bytes = (if k = 0 then Inr () else Inl (PE_SocksConnectFailed k))"
proof (cases bytes rule: rfc1928_message.cases)
  case (1 v code z t r)
  have "v = 5 \<and> z = 0 \<and> code = k \<and> (\<exists>a hi lo. rfc1928_address t r = Some (a, [hi, lo]))"
    using assms message_iff [of v code z t r k] unfolding 1 by blast
  with connect_reply_cases(1) [of v z t r code] show ?thesis by (simp add: 1)
qed (use assms in simp_all)

text \<open>A CONNECT reply is accepted exactly when it is a complete RFC 1928 reply, with no byte
  missing or left over, whose code is 0; exactly a complete reply with another code is reported as a
  refused tunnel, with that code.\<close>

lemma connect_reply_exact:
  "(parse_socks5_connect_reply bytes = Inr () \<longleftrightarrow> (\<exists>a p. rfc1928_message bytes = Some (0, a, p)))
    \<and> (parse_socks5_connect_reply bytes = Inl (PE_SocksConnectFailed k) \<longleftrightarrow>
         k \<noteq> 0 \<and> (\<exists>a p. rfc1928_message bytes = Some (k, a, p)))"
proof (cases bytes rule: rfc1928_message.cases)
  case (1 v code z t r)
  show ?thesis
  proof (cases "v = 5 \<and> z = 0 \<and> (\<exists>a hi lo. rfc1928_address t r = Some (a, [hi, lo]))")
    case True
    from connect_reply_cases(1) [OF this, of code] True show ?thesis
      unfolding 1 message_iff by auto
  next
    case False
    from connect_reply_cases(2) [OF this, of code] False show ?thesis
      unfolding 1 message_iff by auto
  qed
qed (simp_all add: parse_socks5_connect_reply_def)

end
