(* ===== verification/Proxy_Handshake.thy ===== *)
theory Proxy_Handshake
  imports Proxy_Codec
begin

text \<open>
  The proxy handshakes of \<^verbatim>\<open>proxy.rs\<close> over a TCP connection. The peer is a parameter: a connection
  carries the bytes the peer is going to deliver, how its stream ends, when writes begin to fail, and
  the bytes written so far. A \<^verbatim>\<open>BufReader\<close> hands out the same bytes in the same order, so buffered and
  unbuffered reads act on the same field. Opening the connection, and the clock and the timer of the
  probe, are arguments.
\<close>

section \<open>Connections\<close>

text \<open>The end of the incoming stream: closed by the peer (with the error text of a read that needs
  more bytes) or broken with an I/O error.\<close>

datatype stream_end = Closed ustr | Broken ustr

record tcp_stream =
  ts_in :: "u8 list"
  ts_end :: stream_end
  ts_writes :: "(nat \<times> ustr) option"
  ts_out :: "u8 list"

type_synonym 'a io = "(proxy_error + 'a) \<times> tcp_stream"

text \<open>
  A message is written as a whole or not at all: of a write that fails, the bytes that the peer may have been sent before
  the error are not recorded, as the connection is then dropped.
\<close>

definition write_all :: "tcp_stream \<Rightarrow> u8 list \<Rightarrow> unit io" where
  "write_all s bytes =
     (case ts_writes s of
        Some (n, e) \<Rightarrow>
          if n = 0 then (Inl (PE_Io e), s)
          else (Inr (), s\<lparr>ts_out := ts_out s @ bytes, ts_writes := Some (n - 1, e)\<rparr>)
      | None \<Rightarrow> (Inr (), s\<lparr>ts_out := ts_out s @ bytes\<rparr>))"

definition read_exact :: "tcp_stream \<Rightarrow> nat \<Rightarrow> u8 list io" where
  "read_exact s n =
     (if n \<le> length (ts_in s) then (Inr (take n (ts_in s)), s\<lparr>ts_in := drop n (ts_in s)\<rparr>)
      else (Inl (PE_Io (case ts_end s of Closed e \<Rightarrow> e | Broken e \<Rightarrow> e)), s\<lparr>ts_in := []\<rparr>))"

text \<open>\<^verbatim>\<open>read_until(b'\n')\<close>: a line with its line feed, or what is left before the end of the stream.\<close>

definition read_line :: "tcp_stream \<Rightarrow> u8 list io" where
  "read_line s =
     (if 10 \<in> set (ts_in s)
      then (let l = takeWhile (\<lambda>b. b \<noteq> 10) (ts_in s) @ [10]
            in (Inr l, s\<lparr>ts_in := drop (length l) (ts_in s)\<rparr>))
      else (case ts_end s of
              Closed _ \<Rightarrow> (Inr (ts_in s), s\<lparr>ts_in := []\<rparr>)
            | Broken e \<Rightarrow> (Inl (PE_Io e), s\<lparr>ts_in := []\<rparr>)))"

definition bind_io :: "'a io \<Rightarrow> ('a \<Rightarrow> tcp_stream \<Rightarrow> 'b io) \<Rightarrow> 'b io" where
  "bind_io p k = try_q (fst p) (snd p) (\<lambda>a. k a (snd p))"

section \<open>SOCKS5\<close>

definition read_socks5_connect_reply :: "tcp_stream \<Rightarrow> u8 list io" where
  "read_socks5_connect_reply stream =
     bind_io (read_exact stream 4) (\<lambda>header s1.
       let atyp = header ! 3 in
       if atyp = SOCKS5_ATYP_DOMAIN
       then bind_io (read_exact s1 1) (\<lambda>len s2.
              let address_bytes = unat (len ! 0)
              in bind_io (read_exact s2 (address_bytes + 2)) (\<lambda>tail s3.
                   (Inr (header @ [of_nat address_bytes] @ tail), s3)))
       else if atyp = SOCKS5_ATYP_IPV4 \<or> atyp = SOCKS5_ATYP_IPV6
       then bind_io (read_exact s1 ((if atyp = SOCKS5_ATYP_IPV4 then 4 else 16) + 2)) (\<lambda>tail s2.
              (Inr (header @ tail), s2))
       else (Inl (unsupported_atyp atyp), s1))"

definition socks5_methods :: "ustr option \<Rightarrow> u8 list" where
  "socks5_methods proxy_password = SOCKS5_METHOD_NO_AUTH #
     (if proxy_password \<noteq> None then [SOCKS5_METHOD_USER_PASS] else [])"

text \<open>The authentication step between the method reply and the CONNECT request.\<close>

definition socks5_authenticate :: "tcp_stream \<Rightarrow> ustr option \<Rightarrow> u8 \<Rightarrow> unit io" where
  "socks5_authenticate stream proxy_password method =
     (if method = SOCKS5_METHOD_NO_AUTH then (Inr (), stream)
      else if method = SOCKS5_METHOD_USER_PASS
      then (case proxy_password of
              None \<Rightarrow> (Inl (PE_SocksProtocol (lit ''the proxy requires credentials but none were supplied'')), stream)
            | Some password \<Rightarrow>
                bind_io (write_all stream (socks5_auth_request [] password)) (\<lambda>_ s1.
                bind_io (read_exact s1 2) (\<lambda>auth_reply s2.
                  (parse_socks5_auth_reply auth_reply, s2))))
      else (Inl (PE_SocksProtocol (lit ''the proxy selected unsupported authentication method ''
             @ show_dec (unat method))), stream))"

definition socks5_handshake :: "tcp_stream \<Rightarrow> ustr option \<Rightarrow> proxy_target \<Rightarrow> unit io" where
  "socks5_handshake stream proxy_password target =
     bind_io (write_all stream (socks5_greeting (socks5_methods proxy_password))) (\<lambda>_ s1.
     bind_io (read_exact s1 2) (\<lambda>method_reply s2.
     bind_io (parse_socks5_method_reply method_reply, s2) (\<lambda>method s3.
     bind_io (socks5_authenticate s3 proxy_password method) (\<lambda>_ s4.
     bind_io (socks5_connect_request target, s4) (\<lambda>request s5.
     bind_io (write_all s5 request) (\<lambda>_ s6.
     bind_io (read_socks5_connect_reply s6) (\<lambda>reply s7.
       (parse_socks5_connect_reply reply, s7))))))))"

section \<open>HTTP CONNECT\<close>

definition MAX_HTTP_RESPONSE_HEADER_BYTES :: nat where
  "MAX_HTTP_RESPONSE_HEADER_BYTES = 16 * 1024"

lemma read_line_shorter:
  "read_line s = (Inr line, s') \<Longrightarrow> line \<noteq> [] \<Longrightarrow> length (ts_in s') < length (ts_in s)"
  by (cases "ts_in s") (auto simp: read_line_def Let_def split: if_splits stream_end.splits)

text \<open>The loop of \<^verbatim>\<open>read_http_response_headers\<close>; every round consumes at least one byte.\<close>

function header_loop :: "u8 list \<Rightarrow> tcp_stream \<Rightarrow> u8 list io" where
  "header_loop headers reader =
     (case read_line reader of
        (Inl e, s1) \<Rightarrow> (Inl e, s1)
      | (Inr line, s1) \<Rightarrow>
          if line = []
          then (Inl (PE_HttpMalformed (lit ''the proxy closed the connection before the response completed'')), s1)
          else
            let headers = headers @ line
            in if MAX_HTTP_RESPONSE_HEADER_BYTES < length headers
               then (Inl (PE_HttpMalformed (lit ''the proxy response headers exceeded the size bound'')), s1)
               else if line = [13, 10] \<or> line = [10] then (Inr headers, s1)
               else header_loop headers s1)"
  by pat_completeness auto
termination
  by (relation "measure (\<lambda>(_, s). length (ts_in s))") (auto intro: read_line_shorter [OF sym])

declare header_loop.simps [simp del]

definition read_http_response_headers :: "tcp_stream \<Rightarrow> u8 list io" where
  "read_http_response_headers reader = header_loop [] reader"

definition http_connect_handshake ::
  "(u8 list \<Rightarrow> ustr) \<Rightarrow> (ustr \<Rightarrow> ustr) \<Rightarrow> tcp_stream \<Rightarrow> ustr option \<Rightarrow> proxy_target \<Rightarrow> unit io" where
  "http_connect_handshake b64 debug_str reader proxy_password target =
     (let credentials = map_option (\<lambda>password. ([], password)) proxy_password;
          request = http_connect_request b64 target credentials
      in bind_io (write_all reader (as_bytes request)) (\<lambda>_ s1.
         bind_io (read_http_response_headers s1) (\<lambda>headers s2.
           (parse_http_connect_response debug_str headers, s2))))"

section \<open>Opening a tunnel, and the probe\<close>

text \<open>\<open>dial host port\<close> is \<^verbatim>\<open>TcpStream::connect\<close>: an error text or a fresh connection. The stream of a
  failed handshake is dropped.\<close>

definition connect_via_proxy ::
  "(ustr \<Rightarrow> u16 \<Rightarrow> ustr + tcp_stream) \<Rightarrow> (u8 list \<Rightarrow> ustr) \<Rightarrow> (ustr \<Rightarrow> ustr) \<Rightarrow> proxy_config \<Rightarrow> ustr option
    \<Rightarrow> proxy_target \<Rightarrow> proxy_error + tcp_stream" where
  "connect_via_proxy dial b64 debug_str config proxy_password target =
     (case dial (px_host config) (px_port config) of
        Inl e \<Rightarrow> Inl (PE_Io e)
      | Inr stream \<Rightarrow>
          let (r, s) = (case px_kind config of
                PK_Socks5 \<Rightarrow> socks5_handshake stream proxy_password target
              | PK_HttpConnect \<Rightarrow> http_connect_handshake b64 debug_str stream proxy_password target)
          in (case r of Inl e \<Rightarrow> Inl e | Inr _ \<Rightarrow> Inr s))"

text \<open>\<^verbatim>\<open>proxy_probe\<close>: \<open>runtime\<close> is the outcome of building the runtime, \<open>timed_out\<close> whether the 15 seconds
  ran out first, \<open>elapsed\<close> the milliseconds measured at the end.\<close>

definition proxy_probe ::
  "(ustr \<Rightarrow> u16 \<Rightarrow> ustr + tcp_stream) \<Rightarrow> (u8 list \<Rightarrow> ustr) \<Rightarrow> (ustr \<Rightarrow> ustr) \<Rightarrow> ustr + unit \<Rightarrow> bool \<Rightarrow> nat
    \<Rightarrow> proxy_config \<Rightarrow> ustr option \<Rightarrow> probe_outcome" where
  "proxy_probe dial b64 debug_str runtime timed_out elapsed config proxy_password =
     (case runtime of
        Inl e \<Rightarrow> probe_from_result (Inl (PE_Io e)) elapsed
      | Inr _ \<Rightarrow> (case proxy_target_new (px_host config) (px_port config) of
            Inl e \<Rightarrow> probe_from_result (Inl e) elapsed
          | Inr target \<Rightarrow>
              probe_from_result
                (if timed_out then Inl (PE_Io (lit ''the proxy probe timed out''))
                 else map_sum (\<lambda>e. e) (\<lambda>_. ()) (connect_via_proxy dial b64 debug_str config proxy_password target))
                elapsed))"

section \<open>The SOCKS5 handshake\<close>

lemma bind_io_Inr: "bind_io p k = (Inr b, t) \<longleftrightarrow> (\<exists>a s. p = (Inr a, s) \<and> k a s = (Inr b, t))"
  by (cases p; cases "fst p") (auto simp: bind_io_def)

lemma bind_io_simps [simp]: "bind_io (Inr a, s) k = k a s" "bind_io (Inl e, s) k = (Inl e, s)"
  by (simp_all add: bind_io_def)

text \<open>Writes that succeed, and reads, on a connection.\<close>

lemma write_all_ok: "ts_writes s = None \<Longrightarrow> write_all s bs = (Inr (), s\<lparr>ts_out := ts_out s @ bs\<rparr>)"
  by (simp add: write_all_def)

lemma write_all_sel:
  assumes "write_all s bs = (r, t)"
  shows "ts_in t = ts_in s \<and> ts_out t \<in> {ts_out s, ts_out s @ bs} \<and> (r = Inr () \<longrightarrow> ts_out t = ts_out s @ bs)"
  using assms by (auto simp: write_all_def split: option.splits if_splits prod.splits)

lemma read_exact_app: "length a = n \<Longrightarrow> read_exact (s\<lparr>ts_in := a @ b\<rparr>) n = (Inr a, s\<lparr>ts_in := b\<rparr>)"
  by (simp add: read_exact_def)

lemma read_exact_out: "read_exact s n = (r, t) \<Longrightarrow> ts_out t = ts_out s"
  by (auto simp: read_exact_def split: if_splits)

text \<open>A complete reply is read to its last byte and no further.\<close>

lemma read_reply_exact:
  assumes "rfc1928_message bytes = Some (k, a, p)" and "ts_in s = bytes @ rest"
  shows "read_socks5_connect_reply s = (Inr bytes, s\<lparr>ts_in := rest\<rparr>)"
proof -
  obtain v code z t r where b: "bytes = v # code # z # t # r"
    using assms(1) by (cases bytes rule: rfc1928_message.cases) auto
  have "\<exists>a hi lo. rfc1928_address t r = Some (a, [hi, lo])"
    using assms(1) unfolding b by (auto simp del: rfc1928_address.simps split: if_splits option.splits list.splits prod.splits)
  then consider "t = 1" "length r = 6" | "t = 4" "length r = 18"
    | n q where "t = 3" "r = n # q" "length q = unat n + 2"
    unfolding reply_address_iff by blast
  then show ?thesis
  proof cases
    case 1
    then show ?thesis
      by (simp add: b assms(2) read_socks5_connect_reply_def read_exact_def socks_consts)
  next
    case 2
    then show ?thesis
      by (simp add: b assms(2) read_socks5_connect_reply_def read_exact_def socks_consts)
  next
    case 3
    then show ?thesis
      by (simp add: b assms(2) read_socks5_connect_reply_def read_exact_def socks_consts)
  qed
qed

text \<open>C18: With a proxy that follows the RFCs, accepts no authentication and opens the tunnel, the
  handshake succeeds; the proxy has received exactly the greeting and the CONNECT request, and every
  byte after the proxy's reply is still there for the tunnelled stream.\<close>

theorem socks5_tunnel_clean:
  assumes "ts_writes s = None" and "ts_in s = [5, 0] @ reply @ rest"
    and "rfc1928_message reply = Some (0, a, p)" and "socks5_connect_request target = Inr request"
  shows "socks5_handshake s pw target = (Inr (), s\<lparr>ts_in := rest,
     ts_out := ts_out s @ socks5_greeting (socks5_methods pw) @ request\<rparr>)"
proof -
  let ?g = "socks5_greeting (socks5_methods pw)"
  let ?s2 = "s\<lparr>ts_out := ts_out s @ ?g, ts_in := reply @ rest\<rparr>"
  let ?s3 = "?s2\<lparr>ts_out := ts_out s @ ?g @ request\<rparr>"
  have ok: "parse_socks5_connect_reply reply = Inr ()"
    by (rule complete_reply_parsed [OF assms(3), simplified])
  have "read_exact (s\<lparr>ts_out := ts_out s @ ?g\<rparr>) 2 = (Inr [5, 0], ?s2)"
    using assms(2) by (simp add: read_exact_def)
  moreover have "parse_socks5_method_reply [5, 0] = Inr 0"
    by (simp add: parse_socks5_method_reply_def socks_consts)
  moreover have "socks5_authenticate ?s2 pw 0 = (Inr (), ?s2)"
    by (simp add: socks5_authenticate_def socks_consts)
  moreover have "read_socks5_connect_reply ?s3 = (Inr reply, ?s3\<lparr>ts_in := rest\<rparr>)"
    by (rule read_reply_exact [OF assms(3)]) simp
  ultimately show ?thesis
    using assms(1,4) ok by (simp add: socks5_handshake_def write_all_ok)
qed

definition demo_target :: proxy_target where
  "demo_target = \<lparr>pt_host = lit ''x.org'', pt_port = 5223\<rparr>"

definition demo_proxy :: "u8 list \<Rightarrow> tcp_stream" where
  "demo_proxy bytes = \<lparr>ts_in = bytes, ts_end = Closed (lit ''early eof''), ts_writes = None, ts_out = []\<rparr>"

lemma demo_request:
  "socks5_connect_request demo_target = Inr [5, 1, 0, 3, 5, 120, 46, 111, 114, 103, 20, 103]"
proof -
  have name: "lit ''x.org'' = [120, 46, 111, 114, 103]" by (simp add: lit_def)
  have "to_digit 16 120 = None" by (simp add: to_digit_def)
  note ip = not_ip_literal [OF this, of "[46, 111, 114, 103]"]
  have "as_bytes [120, 46, 111, 114, 103] = [120, 46, 111, 114, 103]"
    by (simp add: as_bytes_def utf8_def utf8_char_def)
  then show ?thesis
    using ip by (simp add: demo_target_def name socks5_connect_request_def encode_address_def colon_def
        be_bytes_def socks_consts)
qed

theorem socks5_tunnel_clean_witness:
  "ts_in (snd (socks5_handshake (demo_proxy [5, 0, 5, 0, 0, 1, 9, 9, 9, 9, 0, 80, 60]) None demo_target)) = [60]"
proof -
  let ?reply = "[5, 0, 0, 1, 9, 9, 9, 9, 0, 80] :: u8 list"
  have "rfc1928_message ?reply = Some (0, SA_V4 [9, 9, 9, 9], 80)" by simp
  from socks5_tunnel_clean [OF _ _ this demo_request, of "demo_proxy ([5, 0] @ ?reply @ [60])" "[60]" None]
  show ?thesis by (simp add: demo_proxy_def)
qed

lemma bind_io_cases:
  assumes "bind_io p k = (r, t)"
  obtains (err) e where "p = (Inl e, t)" and "r = Inl e"
  | (ok) a s where "p = (Inr a, s)" and "k a s = (r, t)"
  using assms by (cases p; cases "fst p") (auto simp: bind_io_def)

lemma reply_read_out: "read_socks5_connect_reply s = (r, t) \<Longrightarrow> ts_out t = ts_out s"
  by (auto simp: read_socks5_connect_reply_def Let_def read_exact_out split: if_splits elim!: bind_io_cases)

text \<open>What the authentication step may add to the bytes written.\<close>

lemma authenticate_out:
  assumes "socks5_authenticate s pw m = (r, t)"
  shows "ts_out t = ts_out s \<or> (\<exists>p. pw = Some p \<and> m = 2 \<and> ts_out t = ts_out s @ socks5_auth_request [] p)"
proof (cases "m = 2 \<and> pw \<noteq> None")
  case True
  then obtain p where p: "pw = Some p" "m = 2" by blast
  have "bind_io (write_all s (socks5_auth_request [] p)) (\<lambda>_ s1.
      bind_io (read_exact s1 2) (\<lambda>auth_reply s2. (parse_socks5_auth_reply auth_reply, s2))) = (r, t)"
    using assms p by (simp add: socks5_authenticate_def socks_consts)
  then show ?thesis
  proof (cases rule: bind_io_cases)
    case (err e)
    then show ?thesis using write_all_sel p by blast
  next
    case (ok a s1)
    from ok(2) have "ts_out t = ts_out s1"
      by (elim bind_io_cases) (auto dest: read_exact_out)
    then show ?thesis using write_all_sel [OF ok(1)] p by auto
  qed
next
  case False
  then show ?thesis
    using assms by (auto simp: socks5_authenticate_def socks_consts split: if_splits option.splits)
qed

lemma method_reply_two: "parse_socks5_method_reply bs = Inr m \<Longrightarrow> length bs = 2 \<Longrightarrow> bs = [5, m]"
  by (auto simp: parse_socks5_method_reply_def wrong_version_def socks_consts length_two split: if_splits)

lemma connect_out:
  assumes "bind_io (socks5_connect_request target, s) (\<lambda>request s5.
     bind_io (write_all s5 request) (\<lambda>_ s6.
     bind_io (read_socks5_connect_reply s6) (\<lambda>reply s7.
       (parse_socks5_connect_reply reply, s7)))) = (r, t)"
  shows "ts_out t = ts_out s \<or> (\<exists>request. socks5_connect_request target = Inr request \<and> ts_out t = ts_out s @ request)"
  using assms
proof (cases rule: bind_io_cases)
  case (err e)
  then show ?thesis by simp
next
  case (ok request s5)
  then have req: "socks5_connect_request target = Inr request" "s5 = s" by simp_all
  from ok(2) show ?thesis
  proof (cases rule: bind_io_cases)
    case (err e)
    from write_all_sel [OF err(1)] req show ?thesis by auto
  next
    case sent: (ok u s6)
    have "ts_out t = ts_out s6"
      using sent(2) by (elim bind_io_cases) (auto dest: reply_read_out)
    with write_all_sel [OF sent(1)] req show ?thesis by auto
  qed
qed

text \<open>The bytes a client with this password may have written to a proxy whose first two bytes are
  \<open>reply\<close>: the greeting, then the authentication request if the proxy selected that method, then the
  CONNECT request; the exchange may have ended after any of them.\<close>

definition socks5_transcript :: "ustr option \<Rightarrow> u8 list \<Rightarrow> proxy_target \<Rightarrow> u8 list \<Rightarrow> bool" where
  "socks5_transcript pw reply target w \<longleftrightarrow> w = [] \<or>
     (\<exists>auth request. w = socks5_greeting (socks5_methods pw) @ auth @ request
        \<and> (auth = [] \<or> (\<exists>p. pw = Some p \<and> reply = [5, 2] \<and> auth = socks5_auth_request [] p))
        \<and> (request = [] \<or> socks5_connect_request target = Inr request))"

lemma socks5_after_method:
  assumes "bind_io (socks5_authenticate s pw m) (\<lambda>_ s4.
     bind_io (socks5_connect_request target, s4) (\<lambda>request s5.
     bind_io (write_all s5 request) (\<lambda>_ s6.
     bind_io (read_socks5_connect_reply s6) (\<lambda>reply s7.
       (parse_socks5_connect_reply reply, s7))))) = (r, t)"
  shows "\<exists>auth request. ts_out t = ts_out s @ auth @ request
    \<and> (auth = [] \<or> (\<exists>p. pw = Some p \<and> m = 2 \<and> auth = socks5_auth_request [] p))
    \<and> (request = [] \<or> socks5_connect_request target = Inr request)"
  using assms
proof (cases rule: bind_io_cases)
  case (err e)
  from authenticate_out [OF err(1)] show ?thesis by (metis append.right_neutral)
next
  case (ok u s4)
  obtain auth where auth: "ts_out s4 = ts_out s @ auth"
    "auth = [] \<or> (\<exists>p. pw = Some p \<and> m = 2 \<and> auth = socks5_auth_request [] p)"
    using authenticate_out [OF ok(1)] by (metis append.right_neutral)
  obtain request where "ts_out t = ts_out s4 @ request" "request = [] \<or> socks5_connect_request target = Inr request"
    using connect_out [OF ok(2)] by (metis append.right_neutral)
  with auth show ?thesis by (intro exI [of _ auth] exI [of _ request]) simp
qed

text \<open>C19: Whatever the proxy answers and whenever the connection breaks, the password is written only
  after the proxy has selected the user name and password method, and a handshake without a password
  never writes an authentication request: the bytes written are the greeting, then at most one
  authentication request, then at most the CONNECT request.\<close>

theorem socks5_password_disclosure:
  assumes "socks5_handshake s pw target = (r, t)"
  shows "\<exists>w. ts_out t = ts_out s @ w \<and> socks5_transcript pw (take 2 (ts_in s)) target w"
proof -
  let ?g = "socks5_greeting (socks5_methods pw)"
  have nil: "socks5_transcript pw reply target []" and greeting: "socks5_transcript pw reply target ?g" for reply
    by (auto simp: socks5_transcript_def)
  from assms show ?thesis
    unfolding socks5_handshake_def
  proof (cases rule: bind_io_cases)
    case (err e)
    from write_all_sel [OF err(1)] nil greeting show ?thesis by auto
  next
    case greeted: (ok a s1)
    have s1: "ts_out s1 = ts_out s @ ?g" "ts_in s1 = ts_in s"
      using write_all_sel [OF greeted(1)] greeted(1) by auto
    from greeted(2) show ?thesis
    proof (cases rule: bind_io_cases)
      case (err e)
      from read_exact_out [OF err(1)] s1(1) greeting show ?thesis by auto
    next
      case replied: (ok reply s2)
      have s2: "ts_out s2 = ts_out s @ ?g" "reply = take 2 (ts_in s)" "length reply = 2"
        using replied(1) s1 read_exact_out [OF replied(1)] by (auto simp: read_exact_def split: if_splits)
      from replied(2) show ?thesis
      proof (cases rule: bind_io_cases)
        case (err e)
        then show ?thesis using s2(1) greeting by auto
      next
        case selected: (ok m s3)
        then have s3: "s3 = s2" "take 2 (ts_in s) = [5, m]"
          using s2 method_reply_two by auto
        from socks5_after_method [OF selected(2)] show ?thesis
          using s2(1) unfolding socks5_transcript_def s3 by auto
      qed
    qed
  qed
qed

theorem socks5_password_disclosure_witness:
  "\<exists>w. ts_out (snd (socks5_handshake (demo_proxy [5, 0]) (Some (lit ''pw'')) demo_target)) = w
     \<and> socks5_transcript (Some (lit ''pw'')) [5, 0] demo_target w"
  using socks5_password_disclosure [OF prod.collapse [symmetric], of "demo_proxy [5, 0]" "Some (lit ''pw'')" demo_target]
  by (simp add: demo_proxy_def)

section \<open>The HTTP handshake\<close>

lemma read_line_first:
  assumes "ts_in s = a @ 10 # q" "10 \<notin> set a"
  shows "read_line s = (Inr (a @ [10]), s\<lparr>ts_in := q\<rparr>)"
proof -
  have "takeWhile (\<lambda>b. b \<noteq> 10) (ts_in s) = a"
    using assms by (simp add: takeWhile_append)
  with assms show ?thesis by (simp add: read_line_def)
qed

lemma read_line_last:
  assumes "10 \<notin> set (ts_in s)" "read_line s = (Inr line, t)"
  shows "header_loop headers t = (Inl (PE_HttpMalformed (lit ''the proxy closed the connection before the response completed'')), t)"
proof -
  have "read_line t = (Inr [], t)"
    using assms by (auto simp: read_line_def split: stream_end.splits)
  then show ?thesis by (subst header_loop.simps) simp
qed

text \<open>A line of a header that does not end it, and the two ways to write the empty line that does.\<close>

definition header_line :: "u8 list \<Rightarrow> bool" where
  "header_line l \<longleftrightarrow> (\<exists>a. l = a @ [10] \<and> 10 \<notin> set a) \<and> l \<noteq> [13, 10] \<and> l \<noteq> [10]"

definition empty_line :: "u8 list \<Rightarrow> bool" where
  "empty_line l \<longleftrightarrow> l = [13, 10] \<or> l = [10]"

lemma header_loop_prefix:
  assumes "header_loop headers s = (Inr h, t)"
  shows "\<exists>ls e. h = headers @ concat ls @ e \<and> (\<forall>l \<in> set ls. header_line l) \<and> empty_line e
    \<and> length h \<le> MAX_HTTP_RESPONSE_HEADER_BYTES \<and> ts_in s = concat ls @ e @ ts_in t \<and> t = s\<lparr>ts_in := ts_in t\<rparr>"
  using assms
proof (induction headers s rule: header_loop.induct)
  case (1 headers s)
  obtain r s1 where rs: "read_line s = (r, s1)" by fastforce
  have round: "(case r of Inl e \<Rightarrow> (Inl e, s1) | Inr line \<Rightarrow>
      if line = [] then (Inl (PE_HttpMalformed (lit ''the proxy closed the connection before the response completed'')), s1)
      else if MAX_HTTP_RESPONSE_HEADER_BYTES < length (headers @ line)
      then (Inl (PE_HttpMalformed (lit ''the proxy response headers exceeded the size bound'')), s1)
      else if line = [13, 10] \<or> line = [10] then (Inr (headers @ line), s1)
      else header_loop (headers @ line) s1) = (Inr h, t)"
    using 1(2) unfolding header_loop.simps [of headers s] rs by (cases r) (simp_all only: sum.case prod.case Let_def)
  then obtain line where r: "r = Inr line" and ne: "line \<noteq> []"
    and big: "\<not> MAX_HTTP_RESPONSE_HEADER_BYTES < length (headers @ line)"
    by (cases r) (simp_all split: if_splits)
  show ?case
  proof (cases "10 \<in> set (ts_in s)")
    case True
    then obtain a q where aq: "ts_in s = a @ 10 # q" "10 \<notin> set a"
      by (meson split_list_first)
    then have line: "line = a @ [10]" "s1 = s\<lparr>ts_in := q\<rparr>"
      using read_line_first [OF aq] rs r by simp_all
    show ?thesis
    proof (cases "line = [13, 10] \<or> line = [10]")
      case True
      then have "h = headers @ line" "t = s1"
        using round r ne big by (auto split: if_splits)
      then show ?thesis
        using aq(1) line big True by (intro exI [of _ "[]"] exI [of _ line]) (simp add: empty_line_def)
    next
      case False
      then have "header_loop (headers @ line) s1 = (Inr h, t)"
        using round r ne big by simp
      from 1(1) [OF rs [symmetric] r ne refl big False this] obtain ls e where
        "h = (headers @ line) @ concat ls @ e" "\<forall>l \<in> set ls. header_line l" "empty_line e"
        "length h \<le> MAX_HTTP_RESPONSE_HEADER_BYTES" "ts_in s1 = concat ls @ e @ ts_in t" "t = s1\<lparr>ts_in := ts_in t\<rparr>"
        by blast
      moreover have "header_line line"
        using False aq(2) line(1) by (auto simp: header_line_def)
      ultimately show ?thesis
        using aq(1) line by (intro exI [of _ "line # ls"] exI [of _ e]) simp
    qed
  next
    case False
    then have "ts_in s = line"
      using rs r by (auto simp: read_line_def split: stream_end.splits)
    with False have "\<not> (line = [13, 10] \<or> line = [10])" by auto
    then have "header_loop (headers @ line) s1 = (Inr h, t)"
      using round r ne big by simp
    with read_line_last [OF False rs [unfolded r]] show ?thesis by simp
  qed
qed

lemma header_loop_reads:
  assumes "ts_in s = concat ls @ e @ q" "\<forall>l \<in> set ls. header_line l" "empty_line e"
    "length (headers @ concat ls @ e) \<le> MAX_HTTP_RESPONSE_HEADER_BYTES"
  shows "header_loop headers s = (Inr (headers @ concat ls @ e), s\<lparr>ts_in := q\<rparr>)"
  using assms
proof (induction ls arbitrary: headers s)
  case Nil
  then have "e \<noteq> []" "\<exists>a. e = a @ [10] \<and> 10 \<notin> set a"
    by (auto simp: empty_line_def)
  then obtain a where a: "e = a @ [10]" "10 \<notin> set a" by blast
  have "read_line s = (Inr e, s\<lparr>ts_in := q\<rparr>)"
    using read_line_first [of s a q] Nil.prems(1) a by simp
  then show ?case
    using Nil.prems(3,4) \<open>e \<noteq> []\<close> by (subst header_loop.simps) (simp add: Let_def empty_line_def)
next
  case (Cons l ls)
  then have "header_line l" by simp
  then obtain a where a: "l = a @ [10]" "10 \<notin> set a" and l: "l \<noteq> [13, 10]" "l \<noteq> [10]"
    unfolding header_line_def by blast
  let ?s = "s\<lparr>ts_in := concat ls @ e @ q\<rparr>"
  have "read_line s = (Inr l, ?s)"
    using read_line_first [of s a "concat ls @ e @ q"] Cons.prems(1) a by simp
  then have "header_loop headers s = header_loop (headers @ l) ?s"
    using l a(1) Cons.prems(4) by (subst header_loop.simps) (simp add: Let_def)
  then show ?case
    using Cons.IH [of ?s "headers @ l"] Cons.prems by simp
qed

text \<open>C20: When the header reader succeeds, it has returned the lines before the first empty line and that
  line, at most 16 KiB, and left every byte behind them for the tunnelled stream. And it succeeds whenever the
  proxy sends such lines; so it fails only when they are too long, or the connection ends or breaks before an
  empty line.\<close>

theorem http_headers_framed:
  "read_http_response_headers s = (Inr h, t) \<longleftrightarrow>
     (\<exists>ls e. h = concat ls @ e \<and> (\<forall>l \<in> set ls. header_line l) \<and> empty_line e \<and> length h \<le> 16384
       \<and> ts_in s = h @ ts_in t \<and> t = s\<lparr>ts_in := ts_in t\<rparr>)"
proof
  assume "read_http_response_headers s = (Inr h, t)"
  then obtain ls e where "h = concat ls @ e" "\<forall>l \<in> set ls. header_line l" "empty_line e" "length h \<le> 16384"
    "ts_in s = concat ls @ e @ ts_in t" "t = s\<lparr>ts_in := ts_in t\<rparr>"
    using header_loop_prefix [of "[]" s h t]
    by (auto simp: read_http_response_headers_def MAX_HTTP_RESPONSE_HEADER_BYTES_def)
  then show "\<exists>ls e. h = concat ls @ e \<and> (\<forall>l \<in> set ls. header_line l) \<and> empty_line e \<and> length h \<le> 16384
      \<and> ts_in s = h @ ts_in t \<and> t = s\<lparr>ts_in := ts_in t\<rparr>"
    by (intro exI [of _ ls] exI [of _ e]) simp
next
  assume "\<exists>ls e. h = concat ls @ e \<and> (\<forall>l \<in> set ls. header_line l) \<and> empty_line e \<and> length h \<le> 16384
      \<and> ts_in s = h @ ts_in t \<and> t = s\<lparr>ts_in := ts_in t\<rparr>"
  then obtain ls e where h: "h = concat ls @ e" "\<forall>l \<in> set ls. header_line l" "empty_line e" "length h \<le> 16384"
    "ts_in s = h @ ts_in t" and t: "t = s\<lparr>ts_in := ts_in t\<rparr>" by blast
  have "header_loop [] s = (Inr h, s\<lparr>ts_in := ts_in t\<rparr>)"
    using header_loop_reads [of s ls e "ts_in t" "[]"] h by (simp add: MAX_HTTP_RESPONSE_HEADER_BYTES_def)
  then show "read_http_response_headers s = (Inr h, t)"
    using t by (simp add: read_http_response_headers_def)
qed

theorem http_headers_framed_witness:
  "read_http_response_headers (demo_proxy [65, 10, 13, 10, 60]) = (Inr [65, 10, 13, 10], demo_proxy [60])"
proof -
  have "header_line [65, 10]"
    unfolding header_line_def by (intro conjI exI [of _ "[65]"]) simp_all
  then show ?thesis
    unfolding http_headers_framed
    by (intro exI [of _ "[[65, 10]]"] exI [of _ "[13, 10]"]) (simp add: empty_line_def demo_proxy_def)
qed

section \<open>Line breaks in a host\<close>

lemma no_line_feed_dec: "count_list (show_dec n) 10 = 0"
  using show_dec_digits [of n] by (auto simp: count_list_0_iff is_digit_def list_all_iff)

definition broken_host :: ustr where
  "broken_host = lit ''x.org'' @ crlf"

text \<open>The check of a host looks at its trimmed form while the host is stored as it was given: a
  host with a line break at its end is accepted as a tunnel target. Every line feed of the host
  occurs twice in the HTTP CONNECT request beside the three that end its lines, so the request built
  for that target has lines its author did not write.\<close>

lemma host_line_break_accepted:
  "count_list (http_connect_request b64 target None) 10 = 3 + 2 * count_list (pt_host target) 10
    \<and> proxy_target_new broken_host 5223 = Inr \<lparr>pt_host = broken_host, pt_port = 5223\<rparr>
    \<and> count_list (http_connect_request b64 \<lparr>pt_host = broken_host, pt_port = 5223\<rparr> None) 10 = 5"
proof -
  have count: "count_list (http_connect_request b64 t None) 10 = 3 + 2 * count_list (pt_host t) 10" for t
    by (simp add: http_connect_request_def authority_def crlf_def lit_def colon_def no_line_feed_dec)
  moreover have "proxy_target_new broken_host 5223 = Inr \<lparr>pt_host = broken_host, pt_port = 5223\<rparr>"
    by (simp add: proxy_target_new_def validate_host_def Let_def broken_host_def lit_def crlf_def trim_def is_ws_def)
  moreover have "count_list broken_host 10 = 1"
    by (simp add: broken_host_def lit_def crlf_def)
  ultimately show ?thesis by simp
qed

end
