(* ===== verification/Xmpp_Endpoint.thy ===== *)
theory Xmpp_Endpoint
  imports Net_Addr Domain_Types "HOL-Library.Product_Lexorder"
begin

text \<open>
  Where the XMPP transport connects to (\<^verbatim>\<open>xmpp.rs\<close>): the syntax of a server field, the candidate
  addresses of a server and their grouping into attempts. The system resolver and the SRV lookup are
  parameters, as are the two deadlines of the resolution.
\<close>

section \<open>Server fields\<close>

definition invalid_port :: transport_error where
  "invalid_port = TE_ProtocolViolation (lit ''invalid XMPP server port'')"

definition parse_endpoint :: "ustr \<Rightarrow> ustr \<Rightarrow> transport_error + ustr \<times> u16" where
  "parse_endpoint host port =
     (let host = trim host
      in case parse_uint 16 port of
           None \<Rightarrow> Inl invalid_port
         | Some n \<Rightarrow>
             if host = [] \<or> n = 0 then Inl (TE_ProtocolViolation (lit ''invalid XMPP server endpoint''))
             else Inr (host, of_nat n))"

definition xmpp_split_host_and_port :: "ustr \<Rightarrow> transport_error + (ustr \<times> u16) option" where
  "xmpp_split_host_and_port server =
     (case strip_prefix (lit ''['') server of
        Some rest \<Rightarrow>
          (case split_once 93 rest of
             None \<Rightarrow> Inl (TE_ProtocolViolation (lit ''invalid bracketed XMPP server''))
           | Some (host, suffix) \<Rightarrow>
               if suffix = [] then Inr None
               else (case strip_prefix [colon] suffix of
                   None \<Rightarrow> Inl invalid_port
                 | Some port \<Rightarrow> map_sum (\<lambda>e. e) Some (parse_endpoint host port)))
      | None \<Rightarrow>
          (if length (filter (\<lambda>c. c = colon) server) = 1
           then (case rsplit_once colon server of
                   None \<Rightarrow> Inr None
                 | Some (host, port) \<Rightarrow> map_sum (\<lambda>e. e) Some (parse_endpoint host port))
           else Inr None))"

definition validate_endpoint_syntax :: "ustr \<Rightarrow> transport_error + unit" where
  "validate_endpoint_syntax server =
     (let server = trim server
      in if server = [] then Inl (TE_ProtocolViolation (lit ''XMPP server is empty''))
         else (case xmpp_split_host_and_port server of Inl e \<Rightarrow> Inl e | Inr _ \<Rightarrow> Inr ()))"

section \<open>Resolution\<close>

text \<open>\<^verbatim>\<open>SocketAddr\<close>: the octets of the address (4 or 16), the port and, for IPv6, flow information and
  scope.\<close>

record socket_addr =
  sa_ip :: "u8 list"
  sa_port :: u16
  sa_flowinfo :: u32
  sa_scope_id :: u32

definition socket_addr_new :: "u8 list \<Rightarrow> u16 \<Rightarrow> socket_addr" where
  "socket_addr_new ip port = \<lparr>sa_ip = ip, sa_port = port, sa_flowinfo = 0, sa_scope_id = 0\<rparr>"

definition parse_ip :: "ustr \<Rightarrow> u8 list option" where
  "parse_ip s = (case parse_ipv4 s of Some ip \<Rightarrow> Some ip | None \<Rightarrow> parse_ipv6 s)"

text \<open>A candidate: the address and whether it is dialled with direct TLS.\<close>

type_synonym candidate = "socket_addr \<times> bool"

record srv_candidate =
  srv_priority :: u16
  srv_weight :: u16
  srv_target :: ustr
  srv_port :: u16

datatype rdata = RData_SRV srv_candidate | RData_Other

text \<open>
  The name services: \<^verbatim>\<open>lookup_host\<close>, the resolver of SRV records if the system configuration yields one
  (with the answers of a lookup, if it succeeds), and whether the SRV lookup misses its own deadline or
  the resolution misses the whole one.
\<close>

record name_service =
  ns_lookup_host :: "ustr \<Rightarrow> u16 \<Rightarrow> ustr + socket_addr list"
  ns_srv_lookup :: "(ustr \<Rightarrow> rdata list option) option"
  ns_srv_late :: bool
  ns_late :: bool

definition MAX_ADDRESSES_PER_PORT :: nat where
  "MAX_ADDRESSES_PER_PORT = 4"

definition host_port :: "ustr \<Rightarrow> u16 \<Rightarrow> ustr" where
  "host_port host port = host @ [colon] @ show_dec (unat port)"

definition resolve_host :: "name_service \<Rightarrow> ustr \<Rightarrow> u16 \<Rightarrow> ustr + socket_addr list" where
  "resolve_host N host port =
     (let host = trim host
      in case parse_ip host of
           Some ip \<Rightarrow> Inr [socket_addr_new ip port]
         | None \<Rightarrow> (case ns_lookup_host N host port of
               Inl e \<Rightarrow> Inl (lit ''cannot resolve XMPP server '' @ host_port host port @ lit '': '' @ e)
             | Inr all \<Rightarrow>
                 let addresses = take MAX_ADDRESSES_PER_PORT all
                 in if addresses = []
                    then Inl (lit ''XMPP server '' @ host_port host port @ lit '' resolved to no addresses'')
                    else Inr addresses))"

text \<open>A stable sort: priority ascending, then weight descending.\<close>

definition order_srv_candidates :: "srv_candidate list \<Rightarrow> srv_candidate list" where
  "order_srv_candidates = sort_key (\<lambda>r. (unat (srv_priority r), - int (unat (srv_weight r))))"

definition with_tls :: "bool \<Rightarrow> ustr + socket_addr list \<Rightarrow> candidate list" where
  "with_tls direct_tls r = (case r of Inl _ \<Rightarrow> [] | Inr addresses \<Rightarrow> map (\<lambda>a. (a, direct_tls)) addresses)"

definition srv_records :: "rdata list \<Rightarrow> srv_candidate list" where
  "srv_records answers = List.map_filter (\<lambda>d. case d of
     RData_SRV r \<Rightarrow> if srv_target r \<noteq> lit ''.'' then Some r else None | RData_Other \<Rightarrow> None) answers"

definition srv_endpoints :: "name_service \<Rightarrow> ustr \<Rightarrow> candidate list" where
  "srv_endpoints N domain =
     (case ns_srv_lookup N of
        None \<Rightarrow> []
      | Some srv_lookup \<Rightarrow> (case srv_lookup (lit ''_xmpp-client._tcp.'' @ domain @ lit ''.'') of
            None \<Rightarrow> []
          | Some answers \<Rightarrow>
              concat (map (\<lambda>r. with_tls (srv_port r = 5223) (resolve_host N (srv_target r) (srv_port r)))
                (order_srv_candidates (srv_records answers)))))"

fun dedupe :: "'a list \<Rightarrow> 'a list \<Rightarrow> 'a list" where
  "dedupe seen [] = []"
| "dedupe seen (c # cs) = (if List.member seen c then dedupe seen cs else c # dedupe (c # seen) cs)"

definition dedupe_candidates :: "candidate list \<Rightarrow> candidate list" where
  "dedupe_candidates = dedupe []"

definition resolve_endpoints :: "name_service \<Rightarrow> ustr \<Rightarrow> ustr + candidate list" where
  "resolve_endpoints N server =
     (let server = trim server
      in if ns_late N then Inl (lit ''DNS resolution timed out'')
         else case xmpp_split_host_and_port server of
           Inl e \<Rightarrow> Inl (transport_error_display e)
         | Inr (Some (host, port)) \<Rightarrow>
             map_sum (\<lambda>e. e) (map (\<lambda>a. (a, port = 5223))) (resolve_host N host port)
         | Inr None \<Rightarrow> (case parse_ip server of
               Some ip \<Rightarrow> Inr [(socket_addr_new ip 5222, False), (socket_addr_new ip 5223, True)]
             | None \<Rightarrow>
                 let attempts = with_tls False (resolve_host N server 5222)
                        @ with_tls True (resolve_host N server 5223)
                        @ (if ns_srv_late N then [] else srv_endpoints N server)
                 in if attempts = [] then Inl (lit ''cannot resolve XMPP server '' @ server)
                    else Inr (dedupe_candidates attempts)))"

text \<open>The public \<^verbatim>\<open>resolve_endpoint\<close>: the first candidate.\<close>

definition resolve_endpoint :: "name_service \<Rightarrow> ustr \<Rightarrow> ustr + socket_addr" where
  "resolve_endpoint N server =
     (case resolve_endpoints N server of
        Inl e \<Rightarrow> Inl e
      | Inr [] \<Rightarrow> Inl (lit ''cannot resolve XMPP server '' @ server)
      | Inr ((address, _) # _) \<Rightarrow> Inr address)"

section \<open>Attempt groups\<close>

record attempt_group =
  ag_port :: u16
  ag_direct_tls :: bool
  ag_addresses :: "socket_addr list"

text \<open>One round of the loop of \<^verbatim>\<open>group_attempts\<close>: the groups so far, the last one last.\<close>

definition add_attempt :: "attempt_group list \<Rightarrow> candidate \<Rightarrow> attempt_group list" where
  "add_attempt groups c =
     (let (address, direct_tls) = c;
          fresh = \<lparr>ag_port = sa_port address, ag_direct_tls = direct_tls, ag_addresses = [address]\<rparr>
      in if groups \<noteq> [] \<and> ag_port (last groups) = sa_port address \<and> ag_direct_tls (last groups) = direct_tls
         then butlast groups @ [(last groups)\<lparr>ag_addresses := ag_addresses (last groups) @ [address]\<rparr>]
         else groups @ [fresh])"

definition group_attempts :: "candidate list \<Rightarrow> attempt_group list" where
  "group_attempts attempts = foldl add_attempt [] attempts"

section \<open>What resolution promises\<close>

lemma dedupe_set: "set (dedupe seen cs) = set cs - set seen"
  by (induction seen cs rule: dedupe.induct) (auto simp: List.member_iff)

lemma dedupe_distinct: "distinct (dedupe seen cs)"
  by (induction seen cs rule: dedupe.induct) (auto simp: dedupe_set)

text \<open>The candidates kept are the first occurrences, in their order.\<close>

lemma dedupe_append: "dedupe seen (a @ b) = dedupe seen a @ dedupe (rev (dedupe seen a) @ seen) b"
  by (induction seen a rule: dedupe.induct) (auto simp: List.member_iff)

lemma dedupe_length: "length (dedupe seen cs) \<le> length cs"
  by (induction seen cs rule: dedupe.induct) auto

definition host_lookup_ok :: "name_service \<Rightarrow> bool" where
  "host_lookup_ok N \<longleftrightarrow> (\<forall>h p as. ns_lookup_host N h p = Inr as \<longrightarrow> (\<forall>a \<in> set as. sa_port a = p))"

lemma resolve_host_ports:
  assumes "host_lookup_ok N" and "resolve_host N host port = Inr as"
  shows "as \<noteq> [] \<and> length as \<le> 4 \<and> (\<forall>a \<in> set as. sa_port a = port)"
  using assms
  by (auto simp: resolve_host_def Let_def host_lookup_ok_def socket_addr_new_def MAX_ADDRESSES_PER_PORT_def
      split: option.splits sum.splits if_splits dest!: in_set_takeD)

lemma with_tls_ports:
  assumes "host_lookup_ok N"
  shows "length (with_tls b (resolve_host N host port)) \<le> 4
    \<and> (\<forall>(a, tls) \<in> set (with_tls b (resolve_host N host port)). sa_port a = port \<and> tls = b)"
  using resolve_host_ports [OF assms] by (force simp: with_tls_def split: sum.splits)

lemma srv_endpoints_tls:
  assumes "host_lookup_ok N" and "(a, tls) \<in> set (srv_endpoints N d)"
  shows "tls = (sa_port a = 5223)"
proof -
  from assms(2) obtain r :: srv_candidate where
    "(a, tls) \<in> set (with_tls (srv_port r = 5223) (resolve_host N (srv_target r) (srv_port r)))"
    by (auto simp: srv_endpoints_def split: option.splits)
  with with_tls_ports [OF assms(1)] show ?thesis by fastforce
qed

lemma map_sum_Inr: "map_sum f g x = Inr y \<longleftrightarrow> (\<exists>z. x = Inr z \<and> y = g z)"
  by (cases x) auto

lemma resolve_endpoints_Inr:
  assumes "resolve_endpoints N server = Inr attempts"
  obtains (explicit) host port as where "xmpp_split_host_and_port (trim server) = Inr (Some (host, port))"
      "resolve_host N host port = Inr as" "attempts = map (\<lambda>a. (a, port = 5223)) as"
    | (ip) ip where "xmpp_split_host_and_port (trim server) = Inr None"
      "attempts = [(socket_addr_new ip 5222, False), (socket_addr_new ip 5223, True)]"
    | (name) srvs where "xmpp_split_host_and_port (trim server) = Inr None"
      "set srvs \<subseteq> set (srv_endpoints N (trim server))"
      "with_tls False (resolve_host N (trim server) 5222) @ with_tls True (resolve_host N (trim server) 5223) @ srvs \<noteq> []"
      "attempts = dedupe [] (with_tls False (resolve_host N (trim server) 5222)
         @ with_tls True (resolve_host N (trim server) 5223) @ srvs)"
proof -
  note res = assms [unfolded resolve_endpoints_def Let_def]
  show ?thesis
  proof (cases "xmpp_split_host_and_port (trim server)")
    case (Inr o1)
    show ?thesis
    proof (cases o1)
      case None
      show ?thesis
      proof (cases "parse_ip (trim server)")
        case None
        with res Inr \<open>o1 = None\<close> name [of "if ns_srv_late N then [] else srv_endpoints N (trim server)"]
        show ?thesis by (simp add: dedupe_candidates_def split: if_splits)
      next
        case (Some i)
        with res Inr \<open>o1 = None\<close> ip [of i] show ?thesis by (simp split: if_splits)
      qed
    next
      case (Some hp)
      obtain h p where hp: "hp = (h, p)" by fastforce
      from res Inr Some hp explicit [of h p] show ?thesis by (auto simp: map_sum_Inr split: if_splits)
    qed
  qed (use res in \<open>simp split: if_splits\<close>)
qed

text \<open>The candidates of a bare domain name: ordinary port, direct TLS port, SRV targets, without repetition.\<close>

definition in_three_parts :: "name_service \<Rightarrow> ustr \<Rightarrow> candidate list \<Rightarrow> bool" where
  "in_three_parts N domain attempts \<longleftrightarrow> (\<exists>plain direct rest. attempts = plain @ direct @ rest
     \<and> length plain \<le> 4 \<and> (\<forall>(a, tls) \<in> set plain. sa_port a = 5222)
     \<and> length direct \<le> 4 \<and> (\<forall>(a, tls) \<in> set direct. sa_port a = 5223)
     \<and> set rest \<subseteq> set (srv_endpoints N domain))"

lemma deduped_parts:
  assumes "host_lookup_ok N" and "set srvs \<subseteq> set (srv_endpoints N domain)"
    and "attempts = dedupe [] (with_tls False (resolve_host N domain 5222) @ with_tls True (resolve_host N domain 5223) @ srvs)"
  shows "in_three_parts N domain attempts" and "\<forall>(a, tls) \<in> set attempts. tls = (sa_port a = 5223)"
proof -
  let ?p = "with_tls False (resolve_host N domain 5222)"
  let ?d = "with_tls True (resolve_host N domain 5223)"
  let ?P = "dedupe [] ?p" let ?D = "dedupe (rev ?P) ?d"
  let ?R = "dedupe (rev ?D @ rev ?P) srvs"
  have split: "attempts = ?P @ ?D @ ?R" by (simp add: assms(3) dedupe_append)
  note p = with_tls_ports [OF assms(1), of False domain 5222]
  note d = with_tls_ports [OF assms(1), of True domain 5223]
  have sets: "set ?P \<subseteq> set ?p" "set ?D \<subseteq> set ?d" "set ?R \<subseteq> set srvs" by (auto simp: dedupe_set)
  have lens: "length ?P \<le> 4" "length ?D \<le> 4"
    using p d dedupe_length [of "[]" ?p] dedupe_length [of "rev ?P" ?d] by linarith+
  show "in_three_parts N domain attempts"
    unfolding in_three_parts_def
  proof (intro exI conjI)
    show "attempts = ?P @ ?D @ ?R" by (rule split)
    show "\<forall>(a, tls) \<in> set ?P. sa_port a = 5222" using p sets(1) by blast
    show "\<forall>(a, tls) \<in> set ?D. sa_port a = 5223" using d sets(2) by blast
    show "set ?R \<subseteq> set (srv_endpoints N domain)" using sets(3) assms(2) by blast
  qed (use lens in simp_all)
  show "\<forall>(a, tls) \<in> set attempts. tls = (sa_port a = 5223)"
  proof (intro ballI, clarify)
    fix a tls assume "(a, tls) \<in> set attempts"
    then consider "(a, tls) \<in> set ?p" | "(a, tls) \<in> set ?d" | "(a, tls) \<in> set (srv_endpoints N domain)"
      using sets assms(2) unfolding split by auto
    then show "tls = (sa_port a = 5223)"
      using p d srv_endpoints_tls [OF assms(1)] by cases auto
  qed
qed

text \<open>Whatever the name services answer, a resolved server has at least one candidate, and a candidate
  is dialled with direct TLS exactly when its port is 5223. An explicit port is the only port dialled,
  at no more than four addresses. For a bare domain no candidate is tried twice, and up to four
  addresses on port 5222 come first, up to four on port 5223 next, and the targets of SRV records only
  after them.\<close>

lemma resolve_candidates_spec:
  assumes "\<forall>h p as. ns_lookup_host N h p = Inr as \<longrightarrow> (\<forall>a \<in> set as. sa_port a = p)"
    and "resolve_endpoints N server = Inr attempts"
  shows "attempts \<noteq> []
    \<and> (\<forall>(a, tls) \<in> set attempts. tls = (sa_port a = 5223))
    \<and> (case xmpp_split_host_and_port (trim server) of
         Inr (Some (host, port)) \<Rightarrow> length attempts \<le> 4 \<and> (\<forall>(a, tls) \<in> set attempts. sa_port a = port)
       | Inr None \<Rightarrow> distinct attempts
           \<and> (\<exists>plain direct rest. attempts = plain @ direct @ rest
               \<and> length plain \<le> 4 \<and> (\<forall>(a, tls) \<in> set plain. sa_port a = 5222)
               \<and> length direct \<le> 4 \<and> (\<forall>(a, tls) \<in> set direct. sa_port a = 5223)
               \<and> set rest \<subseteq> set (srv_endpoints N (trim server)))
       | Inl _ \<Rightarrow> False)"
proof -
  have ok: "host_lookup_ok N" using assms(1) by (simp add: host_lookup_ok_def)
  from assms(2) show ?thesis
  proof (cases rule: resolve_endpoints_Inr)
    case explicit
    with resolve_host_ports [OF ok explicit(2)] show ?thesis by auto
  next
    case (ip i)
    have "in_three_parts N (trim server) attempts"
      unfolding in_three_parts_def
      by (rule exI [of _ "[(socket_addr_new i 5222, False)]"], rule exI [of _ "[(socket_addr_new i 5223, True)]"], rule exI [of _ "[]"])
        (simp add: ip(2) socket_addr_new_def)
    then show ?thesis by (simp add: ip socket_addr_new_def in_three_parts_def)
  next
    case (name srvs)
    note parts = deduped_parts [OF ok name(2,4)]
    have "attempts \<noteq> []"
      using name(3,4) dedupe_set [of "[]"] by (metis Diff_empty set_empty list.set(1))
    then show ?thesis using parts name(1) by (simp add: in_three_parts_def name(4) dedupe_distinct)
  qed
qed

definition demo_names :: name_service where
  "demo_names = \<lparr>ns_lookup_host = (\<lambda>h p. if p = 5223 then Inl (lit ''no address'')
       else Inr [socket_addr_new [192, 0, 2, 1] p, socket_addr_new [192, 0, 2, 1] p]),
     ns_srv_lookup = None, ns_srv_late = False, ns_late = False\<rparr>"

lemma demo_names_resolve:
  "resolve_endpoints demo_names (lit ''xmpp.example'') = Inr [(socket_addr_new [192, 0, 2, 1] 5222, False)]"
proof -
  have name: "parse_ip (lit ''xmpp.example'') = None"
    using not_ip_literal [of 120 "lit ''mpp.example''"]
    by (simp add: parse_ip_def lit_def to_digit_def colon_def)
  have "trim (lit ''xmpp.example'') = lit ''xmpp.example''"
    by (rule trim_no_ws) (simp add: lit_def is_ws_def)
  moreover have "xmpp_split_host_and_port (lit ''xmpp.example'') = Inr None"
    by (simp add: xmpp_split_host_and_port_def strip_prefix_def lit_def colon_def)
  ultimately show ?thesis
    by (simp add: resolve_endpoints_def resolve_host_def name demo_names_def with_tls_def srv_endpoints_def
      MAX_ADDRESSES_PER_PORT_def dedupe_candidates_def List.member_iff)
qed

section \<open>Grouping\<close>

definition group_candidates :: "attempt_group \<Rightarrow> candidate list" where
  "group_candidates g = map (\<lambda>a. (a, ag_direct_tls g)) (ag_addresses g)"

definition group_ok :: "attempt_group \<Rightarrow> bool" where
  "group_ok g \<longleftrightarrow> ag_addresses g \<noteq> [] \<and> (\<forall>a \<in> set (ag_addresses g). sa_port a = ag_port g)"

lemma add_attempt_keeps:
  assumes "list_all group_ok gs"
  shows "list_all group_ok (add_attempt gs c)
    \<and> concat (map group_candidates (add_attempt gs c)) = concat (map group_candidates gs) @ [c]"
proof (cases "gs = []")
  case False
  then obtain hs g where gs: "gs = hs @ [g]" by (metis append_butlast_last_id)
  then show ?thesis
    using assms by (cases c) (auto simp: add_attempt_def group_ok_def group_candidates_def Let_def)
qed (cases c; auto simp: add_attempt_def group_ok_def group_candidates_def Let_def)

lemma foldl_attempts:
  assumes "list_all group_ok gs"
  shows "list_all group_ok (foldl add_attempt gs cs)
    \<and> concat (map group_candidates (foldl add_attempt gs cs)) = concat (map group_candidates gs) @ cs"
  using assms
proof (induction cs arbitrary: gs)
  case (Cons c cs)
  from add_attempt_keeps [OF Cons.prems, of c] Cons.IH [of "add_attempt gs c"] show ?case by simp
qed simp

text \<open>Grouping neither loses nor reorders a candidate, and a group shares one port and TLS mode.\<close>

lemma group_attempts_flat:
  "list_all group_ok (group_attempts cs) \<and> concat (map group_candidates (group_attempts cs)) = cs"
  using foldl_attempts [of "[]" cs] by (simp add: group_attempts_def)

text \<open>Candidates that agree on the port and the TLS mode and stand together are one group.\<close>

lemma group_attempts_run:
  assumes "cs \<noteq> []" and "\<forall>(a, tls) \<in> set cs. sa_port a = p \<and> tls = b"
  shows "group_attempts cs = [\<lparr>ag_port = p, ag_direct_tls = b, ag_addresses = map fst cs\<rparr>]"
  using assms
proof (induction cs rule: rev_induct)
  case (snoc c cs)
  then show ?case by (cases "cs = []"; cases c) (auto simp: group_attempts_def add_attempt_def)
qed simp

end
