(* ===== verification/Xmpp_Stanza.thy ===== *)
theory Xmpp_Stanza
  imports Domain_Types Rust_Text
begin

text \<open>
  Between stanzas and the domain (\<^verbatim>\<open>xmpp.rs\<close>): the errors and events of the vendored XMPP client, the
  stanzas with the fields the transport reads and writes, and the functions that translate in both
  directions. The parsers crate is a parameter: a record of its JID functions and of the conversions
  between its payload types and XML elements, which are of an arbitrary type \<open>'e\<close>. A JID is its
  normalised text.
\<close>

section \<open>Errors of the client\<close>

datatype sasl_condition =
    Sasl_Aborted | Sasl_AccountDisabled | Sasl_CredentialsExpired | Sasl_EncryptionRequired
  | Sasl_IncorrectEncoding | Sasl_InvalidAuthzid | Sasl_InvalidMechanism | Sasl_MalformedRequest
  | Sasl_MechanismTooWeak | Sasl_NotAuthorized | Sasl_TemporaryAuthFailure

datatype auth_error = AE_NoMechanism | AE_Sasl ustr | AE_Fail sasl_condition | AE_ComponentFail

text \<open>A wrapped error is its text; a TLS error also carries the answer of \<^verbatim>\<open>is_tls_verification_error\<close>.\<close>

datatype xmpp_error =
    XE_Io ustr
  | XE_JidParse ustr
  | XE_Protocol ustr
  | XE_Auth auth_error
  | XE_Disconnected
  | XE_InvalidState
  | XE_Fmt ustr
  | XE_Utf8 ustr
  | XE_Connection ustr
  | XE_DnsProto ustr
  | XE_DnsNet ustr
  | XE_Idna
  | XE_Addr ustr
  | XE_StreamError ustr
  | XE_Tls ustr bool
  | XE_ReconnectBudgetExhausted

fun sasl_condition_debug :: "sasl_condition \<Rightarrow> ustr" where
  "sasl_condition_debug Sasl_Aborted = lit ''Aborted''"
| "sasl_condition_debug Sasl_AccountDisabled = lit ''AccountDisabled''"
| "sasl_condition_debug Sasl_CredentialsExpired = lit ''CredentialsExpired''"
| "sasl_condition_debug Sasl_EncryptionRequired = lit ''EncryptionRequired''"
| "sasl_condition_debug Sasl_IncorrectEncoding = lit ''IncorrectEncoding''"
| "sasl_condition_debug Sasl_InvalidAuthzid = lit ''InvalidAuthzid''"
| "sasl_condition_debug Sasl_InvalidMechanism = lit ''InvalidMechanism''"
| "sasl_condition_debug Sasl_MalformedRequest = lit ''MalformedRequest''"
| "sasl_condition_debug Sasl_MechanismTooWeak = lit ''MechanismTooWeak''"
| "sasl_condition_debug Sasl_NotAuthorized = lit ''NotAuthorized''"
| "sasl_condition_debug Sasl_TemporaryAuthFailure = lit ''TemporaryAuthFailure''"

fun auth_error_display :: "auth_error \<Rightarrow> ustr" where
  "auth_error_display AE_NoMechanism = lit ''no matching SASL mechanism available''"
| "auth_error_display (AE_Sasl e) = lit ''local SASL implementation error: '' @ e"
| "auth_error_display (AE_Fail c) = lit ''failure from the server: '' @ sasl_condition_debug c"
| "auth_error_display AE_ComponentFail = lit ''component authentication failure''"

fun xmpp_error_display :: "xmpp_error \<Rightarrow> ustr" where
  "xmpp_error_display (XE_Io e) = lit ''I/O error: '' @ e"
| "xmpp_error_display (XE_JidParse e) = lit ''JID parse error: '' @ e"
| "xmpp_error_display (XE_Protocol e) = lit ''protocol error: '' @ e"
| "xmpp_error_display (XE_Auth e) = lit ''authentication error: '' @ auth_error_display e"
| "xmpp_error_display XE_Disconnected = lit ''disconnected''"
| "xmpp_error_display XE_InvalidState = lit ''invalid state''"
| "xmpp_error_display (XE_Fmt e) = lit ''fmt error: '' @ e"
| "xmpp_error_display (XE_Utf8 e) = lit ''UTF-8 error: '' @ e"
| "xmpp_error_display (XE_Connection e) = lit ''connection error: '' @ e"
| "xmpp_error_display (XE_DnsProto e) = e"
| "xmpp_error_display (XE_DnsNet e) = e"
| "xmpp_error_display XE_Idna = lit ''IDNA error''"
| "xmpp_error_display (XE_Addr e) = lit ''wrong network address: '' @ e"
| "xmpp_error_display (XE_StreamError e) = e"
| "xmpp_error_display (XE_Tls e _) = lit ''TLS error: '' @ e"
| "xmpp_error_display XE_ReconnectBudgetExhausted = lit ''reconnect attempts exceeded the retry budget''"

fun is_auth_error :: "xmpp_error \<Rightarrow> bool" where
  "is_auth_error (XE_Auth e) = (e \<noteq> AE_Fail Sasl_TemporaryAuthFailure)"
| "is_auth_error _ = False"

fun is_tls_verification_error :: "xmpp_error \<Rightarrow> bool" where
  "is_tls_verification_error (XE_Tls _ verification) = verification"
| "is_tls_verification_error _ = False"

definition classify_disconnect :: "xmpp_error \<Rightarrow> disconnect_kind" where
  "classify_disconnect e =
     (if is_tls_verification_error e then DK_TlsVerificationFailed
      else case e of
        XE_Auth _ \<Rightarrow> DK_AuthenticationFailed
      | XE_StreamError _ \<Rightarrow> DK_ServerRefused
      | XE_Io _ \<Rightarrow> DK_NetworkLost
      | XE_Disconnected \<Rightarrow> DK_NetworkLost
      | XE_Connection _ \<Rightarrow> DK_NetworkLost
      | XE_Addr _ \<Rightarrow> DK_NetworkLost
      | XE_DnsProto _ \<Rightarrow> DK_NetworkLost
      | XE_DnsNet _ \<Rightarrow> DK_NetworkLost
      | XE_Idna \<Rightarrow> DK_NetworkLost
      | XE_ReconnectBudgetExhausted \<Rightarrow> DK_NetworkLost
      | XE_Tls _ _ \<Rightarrow> DK_NetworkLost
      | XE_JidParse _ \<Rightarrow> DK_Unknown
      | XE_Protocol _ \<Rightarrow> DK_Unknown
      | XE_InvalidState \<Rightarrow> DK_Unknown
      | XE_Fmt _ \<Rightarrow> DK_Unknown
      | XE_Utf8 _ \<Rightarrow> DK_Unknown)"

definition disconnected_is_recoverable :: "xmpp_error \<Rightarrow> bool" where
  "disconnected_is_recoverable e \<longleftrightarrow> \<not> is_auth_error e \<and> \<not> is_tls_verification_error e"

fun reconnect_budget_exhausted :: "xmpp_error \<Rightarrow> bool" where
  "reconnect_budget_exhausted XE_ReconnectBudgetExhausted = True"
| "reconnect_budget_exhausted _ = False"

fun map_xmpp_error :: "xmpp_error \<Rightarrow> transport_error" where
  "map_xmpp_error (XE_Auth _) = TE_AuthenticationFailed"
| "map_xmpp_error e = TE_ConnectionFailed (xmpp_error_display e)"

definition map_io_error :: "ustr \<Rightarrow> transport_error" where
  "map_io_error e = TE_ConnectionFailed e"

section \<open>Stanzas\<close>

type_synonym jid = ustr

datatype message_type = MT_Chat | MT_Error | MT_Groupchat | MT_Headline | MT_Normal

text \<open>Bodies by language and payloads in document order.\<close>

record 'e xmessage =
  xm_type :: message_type
  xm_from :: "jid option"
  xm_to :: "jid option"
  xm_id :: "ustr option"
  xm_bodies :: "(ustr \<times> ustr) list"
  xm_payloads :: "'e list"

definition message_new :: "message_type \<Rightarrow> jid option \<Rightarrow> 'e xmessage" where
  "message_new ty recipient = \<lparr>xm_type = ty, xm_from = None, xm_to = recipient, xm_id = None,
     xm_bodies = [], xm_payloads = []\<rparr>"

datatype show_state = Show_Away | Show_Chat | Show_Dnd | Show_Xa

datatype presence_type =
    PT_None | PT_Error | PT_Probe | PT_Subscribe | PT_Subscribed | PT_Unavailable | PT_Unsubscribe | PT_Unsubscribed

text \<open>Statuses by language, in the order of the languages.\<close>

record xpresence =
  xp_from :: "jid option"
  xp_type :: presence_type
  xp_show :: "show_state option"
  xp_statuses :: "(ustr \<times> ustr) list"

definition presence_available :: xpresence where
  "presence_available = \<lparr>xp_from = None, xp_type = PT_None, xp_show = None, xp_statuses = []\<rparr>"

text \<open>The addresses (from, to), the identifier and the payload; an error's condition is a parameter.\<close>

datatype 'e iq =
    Iq_Get "jid option" "jid option" ustr 'e
  | Iq_Set "jid option" "jid option" ustr 'e
  | Iq_Result "jid option" "jid option" ustr "'e option"
  | Iq_Error "jid option" "jid option" ustr 'e

datatype 'e stanza = St_Message "'e xmessage" | St_Presence xpresence | St_Iq "'e iq"

datatype subscription = Sub_None | Sub_From | Sub_To | Sub_Both | Sub_Remove

datatype ask = Ask_None | Ask_Subscribe

record roster_item =
  ri_jid :: jid
  ri_name :: "ustr option"
  ri_subscription :: subscription
  ri_ask :: ask

record stream_features =
  sf_stream_management :: bool
  sf_in_band_registration :: bool

datatype 'e client_event =
    Ev_Online jid stream_features bool
  | Ev_Disconnected xmpp_error
  | Ev_Stanza "'e stanza"

datatype namespace =
    NS_ROSTER | NS_DISCO_INFO | NS_RECEIPTS | NS_MUC | NS_MAM | NS_SM | NS_HTTP_UPLOAD | NS_PUSH
  | NS_DISPLAYED_MARKERS | NS_CHATSTATES | NS_REACTIONS | NS_MESSAGE_CORRECT | NS_LEGACY_OMEMO

text \<open>The functions of the parsers crate: JIDs; the test of an element's name and namespace; the best body
  for a list of languages; and for each payload its reading from and its writing to an element.\<close>

record 'e parsers =
  pr_jid :: "ustr \<Rightarrow> jid option"
  pr_bare_jid :: "ustr \<Rightarrow> jid option"
  pr_to_bare :: "jid \<Rightarrow> jid"
  pr_domain :: "jid \<Rightarrow> ustr"
  pr_ns :: "namespace \<Rightarrow> ustr"
  pr_is :: "'e \<Rightarrow> ustr \<Rightarrow> ustr \<Rightarrow> bool"
  pr_best_body :: "'e xmessage \<Rightarrow> ustr list \<Rightarrow> (ustr \<times> ustr) option"
  pr_received :: "'e \<Rightarrow> ustr option"
  pr_received_element :: "ustr \<Rightarrow> 'e"
  pr_request :: "'e \<Rightarrow> bool"
  pr_request_element :: 'e
  pr_roster :: "'e \<Rightarrow> roster_item list option"
  pr_roster_query :: 'e
  pr_disco :: "'e \<Rightarrow> ustr list option"
  pr_disco_query :: 'e
  pr_ping_element :: 'e

section \<open>Outgoing messages\<close>

definition build_message_stanza :: "'e parsers \<Rightarrow> outgoing_message \<Rightarrow> transport_error + 'e xmessage" where
  "build_message_stanza L m =
     (case pr_jid L (om_recipient m) of
        None \<Rightarrow> Inl (TE_ProtocolViolation (lit ''invalid conversation JID supplied to XMPP transport''))
      | Some recipient \<Rightarrow>
          let stanza = (case om_kind m of
                CK_Direct \<Rightarrow> message_new MT_Chat (Some recipient)
              | CK_MultiUserChat \<Rightarrow> message_new MT_Groupchat (Some recipient));
              stanza = stanza\<lparr>xm_id := Some (lit ''mindchat-'' @ show_dec (unat (om_message_id m))),
                xm_bodies := [([], om_body m)]\<rparr>
          in Inr (if om_kind m = CK_Direct
                  then stanza\<lparr>xm_payloads := xm_payloads stanza @ [pr_request_element L]\<rparr> else stanza))"

section \<open>Incoming messages\<close>

text \<open>\<^verbatim>\<open>now_epoch_ms\<close> saturates; \<open>now\<close> is the clock's reading in milliseconds.\<close>

definition now_epoch_ms :: "nat \<Rightarrow> u64" where
  "now_epoch_ms now = (if now < 2 ^ 64 then of_nat now else - 1)"

definition translate_incoming_message ::
  "'e parsers \<Rightarrow> nat \<Rightarrow> account_id \<Rightarrow> 'e xmessage \<Rightarrow> transport_event option" where
  "translate_incoming_message L now account_id m =
     (if xm_type m \<noteq> MT_Chat then None
      else case xm_from m of
        None \<Rightarrow> None
      | Some from \<Rightarrow>
          let sender = pr_to_bare L from
          in case pr_best_body L m [lit ''ru'', lit ''en''] of
               None \<Rightarrow> None
             | Some (_, body) \<Rightarrow>
                 if trim body \<noteq> []
                 then Some (IncomingText account_id CK_Direct sender sender body (now_epoch_ms now))
                 else None)"

definition is_direct_receipt_message :: "'e xmessage \<Rightarrow> bool" where
  "is_direct_receipt_message m \<longleftrightarrow> xm_type m = MT_Chat \<or> xm_type m = MT_Normal"

definition parse_receipt_message_id :: "ustr \<Rightarrow> u64 option" where
  "parse_receipt_message_id i =
     (case strip_prefix (lit ''mindchat-'') i of
        None \<Rightarrow> None
      | Some suffix \<Rightarrow>
          if suffix = [] \<or> \<not> list_all is_digit suffix then None
          else (case parse_uint 64 suffix of
              None \<Rightarrow> None
            | Some n \<Rightarrow> let message_id = of_nat n in if message_id \<noteq> 0 then Some message_id else None))"

definition translate_incoming_receipts ::
  "'e parsers \<Rightarrow> account_id \<Rightarrow> 'e xmessage \<Rightarrow> transport_event list" where
  "translate_incoming_receipts L account_id m =
     (if \<not> is_direct_receipt_message m then []
      else case xm_from m of
        None \<Rightarrow> []
      | Some from \<Rightarrow>
          let sender = pr_to_bare L from;
              received = filter (\<lambda>p. pr_is L p (lit ''received'') (pr_ns L NS_RECEIPTS)) (xm_payloads m);
              ids = List.map_filter parse_receipt_message_id (List.map_filter (pr_received L) received)
          in map (\<lambda>message_id. DeliveryUpdated account_id sender message_id DS_Delivered) ids)"

definition receipt_acknowledgement ::
  "'e parsers \<Rightarrow> nat \<Rightarrow> account_id \<Rightarrow> 'e xmessage \<Rightarrow> 'e xmessage option" where
  "receipt_acknowledgement L now account_id m =
     (if \<not> is_direct_receipt_message m
         \<or> \<not> list_ex (\<lambda>p. pr_is L p (lit ''request'') (pr_ns L NS_RECEIPTS) \<and> pr_request L p) (xm_payloads m)
      then None
      else case xm_from m of
        None \<Rightarrow> None
      | Some from \<Rightarrow> (case xm_id m of
            None \<Rightarrow> None
          | Some stanza_id \<Rightarrow>
              if stanza_id = [] \<or> has_ws stanza_id then None
              else Some ((message_new MT_Chat (Some (pr_to_bare L from)))
                \<lparr>xm_id := Some (lit ''mindchat-receipt-'' @ show_dec (unat account_id) @ lit ''-''
                    @ show_dec (unat (now_epoch_ms now))),
                 xm_payloads := [pr_received_element L stanza_id]\<rparr>)))"

section \<open>Presence, roster and capabilities\<close>

definition translate_presence :: "'e parsers \<Rightarrow> account_id \<Rightarrow> xpresence \<Rightarrow> transport_event option" where
  "translate_presence L account_id p =
     (case xp_from p of
        None \<Rightarrow> None
      | Some from \<Rightarrow>
          let jid = pr_to_bare L from;
              contact_presence = (case xp_type p of
                  PT_None \<Rightarrow> Some (case xp_show p of
                      Some Show_Away \<Rightarrow> CP_Away
                    | Some Show_Xa \<Rightarrow> CP_Away
                    | Some Show_Dnd \<Rightarrow> CP_DoNotDisturb
                    | Some Show_Chat \<Rightarrow> CP_Online
                    | None \<Rightarrow> CP_Online)
                | PT_Unavailable \<Rightarrow> Some CP_Offline
                | _ \<Rightarrow> None);
              status = (case map_of (xp_statuses p) [] of
                  Some s \<Rightarrow> Some s
                | None \<Rightarrow> (case xp_statuses p of [] \<Rightarrow> None | (_, s) # _ \<Rightarrow> Some s))
          in map_option (\<lambda>cp. ContactPresenceUpdated account_id jid cp status) contact_presence)"

fun roster_subscription_of :: "subscription \<Rightarrow> ask \<Rightarrow> roster_subscription" where
  "roster_subscription_of Sub_To _ = RS_Inbound"
| "roster_subscription_of Sub_From _ = RS_Outbound"
| "roster_subscription_of Sub_Both _ = RS_Mutual"
| "roster_subscription_of Sub_None Ask_Subscribe = RS_PendingOutbound"
| "roster_subscription_of Sub_None Ask_None = RS_None"
| "roster_subscription_of Sub_Remove _ = RS_None"

definition emit_roster :: "account_id \<Rightarrow> roster_item list \<Rightarrow> transport_event list" where
  "emit_roster account_id items = map (\<lambda>item.
     if ri_subscription item = Sub_Remove then RosterContactRemoved account_id (ri_jid item)
     else RosterContactUpsert account_id (ri_jid item)
       (case ri_name item of None \<Rightarrow> [] | Some name \<Rightarrow> name)
       (roster_subscription_of (ri_subscription item) (ri_ask item))) items"

definition stream_capabilities_from_features :: "stream_features \<Rightarrow> protocol_capability set" where
  "stream_capabilities_from_features f = (if sf_stream_management f then {Cap_StreamManagement} else {})"

definition capability_of_feature :: "'e parsers \<Rightarrow> ustr \<Rightarrow> protocol_capability option" where
  "capability_of_feature L f =
     (if f = pr_ns L NS_MUC then Some Cap_MultiUserChat
      else if f = pr_ns L NS_MAM then Some Cap_MessageArchiveManagement
      else if f = pr_ns L NS_SM then Some Cap_StreamManagement
      else if f = pr_ns L NS_HTTP_UPLOAD then Some Cap_HttpFileUpload
      else if f = pr_ns L NS_PUSH then Some Cap_PushNotifications
      else if f = pr_ns L NS_RECEIPTS then Some Cap_Receipts
      else if f = pr_ns L NS_DISPLAYED_MARKERS then Some Cap_ChatMarkers
      else if f = pr_ns L NS_CHATSTATES then Some Cap_ChatStates
      else if f = pr_ns L NS_REACTIONS then Some Cap_MessageReactions
      else if f = pr_ns L NS_MESSAGE_CORRECT then Some Cap_MessageCorrections
      else if f = lit ''urn:xmpp:reply:0'' then Some Cap_MessageReplies
      else if f = lit ''urn:xmpp:omemo:1'' \<or> f = lit ''urn:xmpp:omemo:2'' \<or> f = pr_ns L NS_LEGACY_OMEMO
      then Some Cap_Omemo else None)"

definition capabilities_from_disco :: "'e parsers \<Rightarrow> ustr list \<Rightarrow> protocol_capability set" where
  "capabilities_from_disco L features = foldl (\<lambda>caps f. case capability_of_feature L f of
     Some c \<Rightarrow> insert c caps | None \<Rightarrow> caps) {} features"

definition roster_request_id :: "account_id \<Rightarrow> ustr" where
  "roster_request_id account_id = lit ''mindchat-roster-'' @ show_dec (unat account_id)"

definition disco_request_id :: "account_id \<Rightarrow> ustr" where
  "disco_request_id account_id = lit ''mindchat-disco-'' @ show_dec (unat account_id)"

section \<open>Receipts\<close>

lemma parse_own_id:
  "parse_receipt_message_id (lit ''mindchat-'' @ show_dec (unat w)) = (if w = 0 then None else Some w)"
proof -
  have "parse_uint 64 (show_dec (unat w)) = Some (unat w)"
    using unsigned_less [of w] by (intro parse_uint_show_dec) simp
  then show ?thesis
    using show_dec_digits [of "unat w"] by (simp add: parse_receipt_message_id_def Let_def)
qed

lemma own_id_text: "lit ''mindchat-'' @ show_dec n \<noteq> [] \<and> \<not> has_ws (lit ''mindchat-'' @ show_dec n)"
proof -
  have "list_all is_digit (show_dec n)" using show_dec_digits [of n] by simp
  then have "\<not> has_ws (show_dec n)"
    by (auto simp: has_ws_iff list_all_iff is_digit_def is_ws_def)
  then show ?thesis by (simp add: lit_def is_ws_def)
qed

text \<open>What the receipts need of the parsers crate: the two payloads of XEP-0184 are read back as written,
  under their names and namespace.\<close>

definition receipts_ok :: "'e parsers \<Rightarrow> bool" where
  "receipts_ok L \<longleftrightarrow> pr_is L (pr_request_element L) (lit ''request'') (pr_ns L NS_RECEIPTS)
     \<and> pr_request L (pr_request_element L)
     \<and> (\<forall>i. pr_is L (pr_received_element L i) (lit ''received'') (pr_ns L NS_RECEIPTS)
          \<and> pr_received L (pr_received_element L i) = Some i)"

text \<open>C34: A direct message and its receipt fit together across two clients: the stanza built for a message,
  once it arrives with its sender's address, is acknowledged to that sender's bare JID, and the
  acknowledgement, once it arrives with the recipient's address, is exactly one delivery update for
  that very message from the recipient's bare JID. A group message asks for no receipt and gets none.\<close>

theorem receipt_roundtrip:
  assumes "receipts_ok L" and "build_message_stanza L m = Inr stanza" and "om_message_id m \<noteq> 0"
  shows "case om_kind m of
      CK_Direct \<Rightarrow> (case receipt_acknowledgement L now peer (stanza\<lparr>xm_from := Some alice\<rparr>) of
          Some ack \<Rightarrow> xm_type ack = MT_Chat \<and> xm_to ack = Some (pr_to_bare L alice) \<and> xm_bodies ack = []
            \<and> translate_incoming_receipts L account (ack\<lparr>xm_from := Some bob\<rparr>)
              = [DeliveryUpdated account (pr_to_bare L bob) (om_message_id m) DS_Delivered]
        | None \<Rightarrow> False)
    | CK_MultiUserChat \<Rightarrow> xm_payloads stanza = []
        \<and> receipt_acknowledgement L now peer (stanza\<lparr>xm_from := Some alice\<rparr>) = None
        \<and> translate_incoming_receipts L account (stanza\<lparr>xm_from := Some bob\<rparr>) = []"
proof -
  obtain r where r: "pr_jid L (om_recipient m) = Some r"
    using assms(2) by (auto simp: build_message_stanza_def split: option.splits)
  show ?thesis
  proof (cases "om_kind m")
    case CK_Direct
    have stanza: "stanza = (message_new MT_Chat (Some r))\<lparr>xm_id := Some (lit ''mindchat-'' @ show_dec (unat (om_message_id m))),
        xm_bodies := [([], om_body m)], xm_payloads := [pr_request_element L]\<rparr>"
      using assms(2) CK_Direct by (simp add: build_message_stanza_def r message_new_def)
    show ?thesis
      using assms(1,3) own_id_text [of "unat (om_message_id m)"] parse_own_id [of "om_message_id m"]
      by (simp add: CK_Direct stanza receipts_ok_def receipt_acknowledgement_def is_direct_receipt_message_def
        message_new_def translate_incoming_receipts_def Let_def List.map_filter_simps)
  next
    case CK_MultiUserChat
    then show ?thesis
      using assms(2)
      by (auto simp: build_message_stanza_def r message_new_def receipt_acknowledgement_def
        is_direct_receipt_message_def translate_incoming_receipts_def)
  qed
qed

text \<open>A parsers crate whose elements are tagged texts.\<close>

definition demo_parsers :: "(ustr \<times> ustr) parsers" where
  "demo_parsers = \<lparr>pr_jid = Some, pr_bare_jid = Some, pr_to_bare = takeWhile (\<lambda>c. c \<noteq> 47), pr_domain = (\<lambda>j. j),
     pr_ns = (\<lambda>_. []), pr_is = (\<lambda>(t, _) name _. t = name),
     pr_best_body = (\<lambda>m _. case xm_bodies m of [] \<Rightarrow> None | b # _ \<Rightarrow> Some b),
     pr_received = (\<lambda>(t, i). if t = lit ''received'' then Some i else None),
     pr_received_element = (\<lambda>i. (lit ''received'', i)),
     pr_request = (\<lambda>(t, _). t = lit ''request''), pr_request_element = (lit ''request'', []),
     pr_roster = (\<lambda>_. None), pr_roster_query = ([], []), pr_disco = (\<lambda>_. None), pr_disco_query = ([], []),
     pr_ping_element = ([], [])\<rparr>"

definition demo_message_out :: outgoing_message where
  "demo_message_out = \<lparr>om_account_id = 1, om_conversation_id = 2, om_message_id = 42, om_kind = CK_Direct,
     om_recipient = lit ''bob@example.org'', om_body = lit ''hi'', om_in_reply_to = None\<rparr>"

theorem receipt_roundtrip_witness:
  "\<exists>stanza ack. build_message_stanza demo_parsers demo_message_out = Inr stanza
     \<and> receipt_acknowledgement demo_parsers 0 7 (stanza\<lparr>xm_from := Some (lit ''alice@example.org/desk'')\<rparr>) = Some ack
     \<and> translate_incoming_receipts demo_parsers 1 (ack\<lparr>xm_from := Some (lit ''bob@example.org/phone'')\<rparr>)
       = [DeliveryUpdated 1 (lit ''bob@example.org'') 42 DS_Delivered]"
proof -
  have ok: "receipts_ok demo_parsers" by (simp add: receipts_ok_def demo_parsers_def)
  obtain st where st: "build_message_stanza demo_parsers demo_message_out = Inr st"
    by (simp add: build_message_stanza_def demo_message_out_def demo_parsers_def Let_def)
  have "om_message_id demo_message_out \<noteq> 0" by (simp add: demo_message_out_def)
  from receipt_roundtrip [OF ok st this, where now = 0 and peer = 7 and alice = "lit ''alice@example.org/desk''"
      and account = 1 and bob = "lit ''bob@example.org/phone''"] st
  show ?thesis
    by (auto simp: demo_message_out_def demo_parsers_def lit_def split: option.splits)
qed

end
