(* ===== verification/Xmpp_Connect.thy ===== *)
theory Xmpp_Connect
  imports Xmpp_Endpoint Xmpp_Stanza Proxy_Config "HOL-Library.Multiset"
begin

text \<open>
  The connect phase of an XMPP worker (\<^verbatim>\<open>xmpp.rs\<close>): from a request to a client with its first event, or
  to a failure. The network is a parameter: the name services and, for every client the phase may
  start, when its first \<^verbatim>\<open>next()\<close> is ready (in milliseconds from its start, if ever) and with what.
\<close>

section \<open>Socket addresses as text\<close>

fun show_hex :: "nat \<Rightarrow> ustr" where
  "show_hex n = (let d = (\<lambda>k. if k < 10 then 48 + k else 87 + k)
     in if n < 16 then [d n] else show_hex (n div 16) @ [d (n mod 16)])"

definition show_ipv4 :: "u8 list \<Rightarrow> ustr" where
  "show_ipv4 ip = join_with [dot] (map (\<lambda>b. show_dec (unat b)) ip)"

fun segments :: "u8 list \<Rightarrow> nat list" where
  "segments (hi # lo # r) = (unat hi * 256 + unat lo) # segments r"
| "segments _ = []"

text \<open>The first longest run of zero segments: the run that ends here and the best one, as start and length.\<close>

fun zero_run :: "nat \<Rightarrow> nat \<times> nat \<Rightarrow> nat \<times> nat \<Rightarrow> nat list \<Rightarrow> nat \<times> nat" where
  "zero_run i (start, len) (bstart, blen) [] = (bstart, blen)"
| "zero_run i (start, len) (bstart, blen) (x # xs) =
     (if x = 0 then
        let cur = (if len = 0 then i else start, len + 1)
        in zero_run (i + 1) cur (if blen < snd cur then cur else (bstart, blen)) xs
      else zero_run (i + 1) (0, 0) (bstart, blen) xs)"

definition show_segments :: "nat list \<Rightarrow> ustr" where
  "show_segments xs = join_with [colon] (map show_hex xs)"

definition show_ipv6 :: "u8 list \<Rightarrow> ustr" where
  "show_ipv6 ip =
     (if take 12 ip = replicate 10 0 @ [255, 255] then lit ''::ffff:'' @ show_ipv4 (drop 12 ip)
      else let xs = segments ip; (start, len) = zero_run 0 (0, 0) (0, 0) xs
           in if 1 < len then show_segments (take start xs) @ lit ''::'' @ show_segments (drop (start + len) xs)
              else show_segments xs)"

definition show_addr :: "socket_addr \<Rightarrow> ustr" where
  "show_addr a =
     (let port = [colon] @ show_dec (unat (sa_port a))
      in if length (sa_ip a) = 4 then show_ipv4 (sa_ip a) @ port
         else lit ''['' @ show_ipv6 (sa_ip a)
           @ (if sa_scope_id a = 0 then [] else lit ''%'' @ show_dec (unat (sa_scope_id a))) @ lit '']'' @ port)"

section \<open>Connections and failures\<close>

record worker_connection =
  wc_account_id :: account_id
  wc_jid :: jid
  wc_password :: ustr
  wc_server :: ustr
  wc_auto_reconnect :: bool
  wc_connect_strategy :: connect_strategy
  wc_proxy :: "proxy_config option"
  wc_proxy_password :: "ustr option"

definition from_request :: "'e parsers \<Rightarrow> connection_request \<Rightarrow> transport_error + worker_connection" where
  "from_request L request =
     (case pr_bare_jid L (cr_jid request) of
        None \<Rightarrow> Inl (TE_ProtocolViolation (lit ''invalid account JID supplied to XMPP transport''))
      | Some jid \<Rightarrow>
          let server = trim (cr_server request)
          in if server = [] then Inl (TE_ProtocolViolation (lit ''XMPP server is empty''))
             else (case validate_endpoint_syntax server of
                 Inl e \<Rightarrow> Inl e
               | Inr _ \<Rightarrow> Inr \<lparr>wc_account_id = cr_account_id request, wc_jid = jid,
                   wc_password = into_inner (cr_password request), wc_server = server,
                   wc_auto_reconnect = cr_auto_reconnect request,
                   wc_connect_strategy = (case cr_proxy request of
                      None \<Rightarrow> ST_Direct | Some config \<Rightarrow> strategy_of_kind (px_kind config)),
                   wc_proxy = cr_proxy request,
                   wc_proxy_password = map_option into_inner (cr_proxy_password request)\<rparr>))"

record connect_failure =
  cf_detail :: ustr
  cf_recoverable :: bool
  cf_kind :: disconnect_kind

definition network_failure :: "ustr \<Rightarrow> connect_failure" where
  "network_failure detail = \<lparr>cf_detail = detail, cf_recoverable = True, cf_kind = DK_NetworkLost\<rparr>"

definition terminal_failure_for_event :: "'e client_event \<Rightarrow> connect_failure option" where
  "terminal_failure_for_event event =
     (case event of
        Ev_Disconnected error \<Rightarrow> Some \<lparr>cf_detail = xmpp_error_display error,
          cf_recoverable = disconnected_is_recoverable error, cf_kind = classify_disconnect error\<rparr>
      | _ \<Rightarrow> None)"

definition terminal_if_auth :: "connect_failure \<Rightarrow> connect_failure option" where
  "terminal_if_auth failure = (if \<not> cf_recoverable failure then Some failure else None)"

definition strategy_connect_failure :: "connect_strategy \<Rightarrow> bool \<Rightarrow> connect_failure option" where
  "strategy_connect_failure strategy proxy_configured =
     (if strategy = ST_Direct \<or> proxy_configured then None
      else Some \<lparr>cf_detail = strategy_as_str strategy @ lit '' connect strategy has no proxy configuration'',
        cf_recoverable = True, cf_kind = DK_Unknown\<rparr>)"

section \<open>Racing\<close>

text \<open>How a client is dialled, and what its first \<^verbatim>\<open>next()\<close> gives: after some milliseconds an event, or the
  end of its stream, or nothing ever.\<close>

datatype dialled = Dialled socket_addr bool | Tunnelled proxy_config "ustr option" proxy_target

type_synonym 'e answer = "(nat \<times> 'e client_event option) option"

record 'e network =
  nw_names :: name_service
  nw_dial :: "dialled \<Rightarrow> 'e answer"

record 'e ready_client =
  rc_client :: dialled
  rc_pending_event :: "'e client_event option"

definition CONNECT_ATTEMPT_TIMEOUT :: nat where "CONNECT_ATTEMPT_TIMEOUT = 10000"
definition HAPPY_EYEBALLS_HEAD_START :: nat where "HAPPY_EYEBALLS_HEAD_START = 250"

definition first_event_to_ready :: "dialled \<Rightarrow> 'e client_event \<Rightarrow> connect_failure + 'e ready_client" where
  "first_event_to_ready client event =
     (case terminal_failure_for_event event of
        Some failure \<Rightarrow> Inl failure
      | None \<Rightarrow> Inr \<lparr>rc_client = client, rc_pending_event = Some event\<rparr>)"

text \<open>\<^verbatim>\<open>select_all\<close>: the position and the time of the first answer, the first position among equals.\<close>

fun earliest :: "'e answer list \<Rightarrow> (nat \<times> nat) option" where
  "earliest [] = None"
| "earliest (a # r) = (case (a, earliest r) of
     (None, q) \<Rightarrow> map_option (\<lambda>(i, t). (Suc i, t)) q
   | (Some (t, _), None) \<Rightarrow> Some (0, t)
   | (Some (t, _), Some (i, u)) \<Rightarrow> if u < t then Some (Suc i, u) else Some (0, t))"

text \<open>The futures that remain: \<^verbatim>\<open>Vec::swap_remove\<close>.\<close>

definition swap_remove :: "'a list \<Rightarrow> nat \<Rightarrow> 'a list" where
  "swap_remove xs i = (if i + 1 = length xs then butlast xs else (butlast xs)[i := last xs])"

lemma earliest_index: "earliest as = Some (i, t) \<Longrightarrow> i < length as \<and> (\<exists>e. as ! i = Some (t, e))"
  by (induction as arbitrary: i t) (auto split: option.splits if_splits)

datatype 'e race_outcome = Race_Won dialled "'e client_event" | Race_Closed | Race_TimedOut

function race :: "nat \<Rightarrow> (dialled \<times> 'e answer) list \<Rightarrow> 'e race_outcome" where
  "race deadline pending =
     (case earliest (map snd pending) of
        None \<Rightarrow> Race_TimedOut
      | Some (i, t) \<Rightarrow>
          if deadline < t then Race_TimedOut
          else (case pending ! i of
              (client, Some (_, Some event)) \<Rightarrow> Race_Won client event
            | _ \<Rightarrow> (let remaining = swap_remove pending i
                    in if remaining = [] then Race_Closed else race deadline remaining)))"
  by pat_completeness auto

termination
proof (relation "measure (length \<circ> snd)", goal_cases)
  case (2 deadline pending p i t q client a)
  then show ?case using earliest_index [of "map snd pending" i t] by (auto simp: swap_remove_def)
next
  case (3 deadline pending p i t q client a x y)
  then show ?case using earliest_index [of "map snd pending" i t] by (auto simp: swap_remove_def)
qed simp

declare race.simps [simp del]

text \<open>The clock of a client that was already running for some milliseconds.\<close>

definition running_for :: "nat \<Rightarrow> 'e answer \<Rightarrow> 'e answer" where
  "running_for d = map_option (\<lambda>(t, e). (t - d, e))"

definition try_group :: "'e network \<Rightarrow> attempt_group \<Rightarrow> connect_failure + 'e ready_client" where
  "try_group N g =
     (let dial = (\<lambda>a. Dialled a (ag_direct_tls g));
          first = hd (ag_addresses g);
          rest = tl (ag_addresses g);
          answer = nw_dial N (dial first);
          races = (case race CONNECT_ATTEMPT_TIMEOUT
                ((dial first, running_for HAPPY_EYEBALLS_HEAD_START answer) # map (\<lambda>a. (dial a, nw_dial N (dial a))) rest) of
              Race_Won client event \<Rightarrow> first_event_to_ready client event
            | Race_Closed \<Rightarrow> Inl (network_failure (lit ''connection to port '' @ show_dec (unat (ag_port g))
                @ lit '' closed during handshake''))
            | Race_TimedOut \<Rightarrow> Inl (network_failure (lit ''connection to port '' @ show_dec (unat (ag_port g))
                @ lit '' timed out after 10 seconds'')))
      in case answer of
           Some (t, head) \<Rightarrow>
             if t \<le> HAPPY_EYEBALLS_HEAD_START
             then (case head of
                 Some event \<Rightarrow> first_event_to_ready (dial first) event
               | None \<Rightarrow> Inl (network_failure (lit ''connection to '' @ show_addr first @ lit '' closed during handshake'')))
             else races
         | None \<Rightarrow> races)"

section \<open>The connect phase\<close>

text \<open>The loop over the groups with \<^verbatim>\<open>last_failure\<close>.\<close>

fun attempt_loop ::
  "(attempt_group \<Rightarrow> connect_failure + 'e ready_client) \<Rightarrow> connect_failure \<Rightarrow> attempt_group list
    \<Rightarrow> connect_failure + 'e ready_client" where
  "attempt_loop attempt last_failure [] = Inl last_failure"
| "attempt_loop attempt last_failure (g # groups) =
     (case attempt g of
        Inr ready \<Rightarrow> Inr ready
      | Inl failure \<Rightarrow> (case terminal_if_auth failure of
            Some terminal \<Rightarrow> Inl terminal
          | None \<Rightarrow> attempt_loop attempt failure groups))"

definition connect_attempt ::
  "'e network \<Rightarrow> worker_connection \<Rightarrow> candidate list \<Rightarrow> connect_failure + 'e ready_client" where
  "connect_attempt N connection attempts =
     (case strategy_connect_failure (wc_connect_strategy connection) (wc_proxy connection \<noteq> None) of
        Some failure \<Rightarrow> Inl failure
      | None \<Rightarrow> attempt_loop (try_group N) (network_failure (lit ''no connection candidates'')) (group_attempts attempts))"

definition connect_attempt_proxy ::
  "'e network \<Rightarrow> worker_connection \<Rightarrow> connect_failure + 'e ready_client" where
  "connect_attempt_proxy N connection =
     (case strategy_connect_failure (wc_connect_strategy connection) (wc_proxy connection \<noteq> None) of
        Some failure \<Rightarrow> Inl failure
      | None \<Rightarrow>
          (case proxy_target_from_server (wc_server connection) of
             Inl e \<Rightarrow> Inl \<lparr>cf_detail = proxy_error_display e, cf_recoverable = True, cf_kind = DK_Unknown\<rparr>
           | Inr target \<Rightarrow>
               let client = Tunnelled (the (wc_proxy connection)) (wc_proxy_password connection) target;
                   late = Inl (network_failure (lit ''the proxy connection timed out after 10 seconds''))
               in (case nw_dial N client of
                     None \<Rightarrow> late
                   | Some (t, first) \<Rightarrow>
                       if CONNECT_ATTEMPT_TIMEOUT < t then late
                       else (case first of
                           Some event \<Rightarrow> first_event_to_ready client event
                         | None \<Rightarrow> Inl (network_failure (lit ''the proxy tunnel closed during the XMPP handshake''))))))"

text \<open>The phase of \<^verbatim>\<open>run_worker\<close>, without its own deadline.\<close>

definition connect_phase :: "'e network \<Rightarrow> worker_connection \<Rightarrow> connect_failure + 'e ready_client" where
  "connect_phase N connection =
     (case wc_connect_strategy connection of
        ST_Direct \<Rightarrow>
          (case resolve_endpoints (nw_names N) (wc_server connection) of
             Inl detail \<Rightarrow> Inl (network_failure detail)
           | Inr attempts \<Rightarrow> connect_attempt N connection attempts)
      | _ \<Rightarrow> connect_attempt_proxy N connection)"

section \<open>The race\<close>

lemma earliest_None: "earliest as = None \<longleftrightarrow> (\<forall>a \<in> set as. a = None)"
  by (induction as) (auto split: option.splits if_splits)

lemma earliest_min: "earliest as = Some (i, t) \<Longrightarrow> Some (u, e) \<in> set as \<Longrightarrow> t \<le> u"
proof (induction as arbitrary: i t)
  case (Cons a r)
  then show ?case
    by (cases "earliest r"; cases a) (fastforce simp: earliest_None split: if_splits)+
qed simp

lemma mset_swap_remove:
  assumes "i < length xs"
  shows "mset xs = add_mset (xs ! i) (mset (swap_remove xs i))"
proof -
  have ne: "xs \<noteq> []" using assms by auto
  have xs: "mset xs = add_mset (last xs) (mset (butlast xs))"
    using ne by (metis append_butlast_last_id mset.simps(1) mset.simps(2) mset_append union_mset_add_mset_right
      add.right_neutral)
  show ?thesis
  proof (cases "i + 1 = length xs")
    case True
    then have "xs ! i = last xs" using ne by (metis last_conv_nth add_diff_cancel_right')
    with True xs show ?thesis by (simp add: swap_remove_def)
  next
    case False
    then have i: "i < length (butlast xs)" using assms by simp
    then have "mset ((butlast xs)[i := last xs]) = add_mset (last xs) (mset (butlast xs) - {#xs ! i#})"
      by (simp add: mset_update nth_butlast)
    moreover have "xs ! i \<in># mset (butlast xs)"
      using i by (metis nth_butlast nth_mem set_mset_mset)
    ultimately show ?thesis using False xs by (simp add: swap_remove_def)
  qed
qed

lemma set_swap_remove: "i < length xs \<Longrightarrow> set xs = insert (xs ! i) (set (swap_remove xs i))"
  using mset_swap_remove [of i xs] by (metis set_mset_add_mset_insert set_mset_mset)

text \<open>One round of a race: the earliest answer ends it, or its client leaves.\<close>

lemma race_round:
  assumes "earliest (map snd pending) = Some (i, t)"
  obtains c x where "i < length pending" "pending ! i = (c, Some (t, x))" "(c, Some (t, x)) \<in> set pending"
    and "\<And>c u y. (c, Some (u, y)) \<in> set pending \<Longrightarrow> t \<le> u"
    and "race deadline pending = (if deadline < t then Race_TimedOut
      else case x of
        Some ev \<Rightarrow> Race_Won c ev
      | None \<Rightarrow> if swap_remove pending i = [] then Race_Closed else race deadline (swap_remove pending i))"
proof -
  obtain x where i: "i < length pending" "snd (pending ! i) = Some (t, x)"
    using earliest_index [OF assms] by auto
  obtain c where pi: "pending ! i = (c, Some (t, x))" using i(2) by (metis prod.collapse)
  have "race deadline pending = (if deadline < t then Race_TimedOut
      else case x of
        Some ev \<Rightarrow> Race_Won c ev
      | None \<Rightarrow> if swap_remove pending i = [] then Race_Closed else race deadline (swap_remove pending i))"
    using assms pi by (subst race.simps) (simp add: Let_def split: option.split)
  moreover have "t \<le> u" if "(c, Some (u, y)) \<in> set pending" for c u y
    using earliest_min [OF assms, of u y] that by force
  moreover have "(c, Some (t, x)) \<in> set pending" using i(1) pi by (metis nth_mem)
  ultimately show thesis using that i(1) pi by blast
qed

text \<open>The winner is a racer whose first event comes in time and before every other racer's; without one,
  no racer has an event in time.\<close>

definition race_right :: "nat \<Rightarrow> (dialled \<times> 'e answer) list \<Rightarrow> 'e race_outcome \<Rightarrow> bool" where
  "race_right deadline pending outcome = (case outcome of
     Race_Won c ev \<Rightarrow> \<exists>t. (c, Some (t, Some ev)) \<in> set pending \<and> t \<le> deadline
       \<and> (\<forall>c' t' ev'. (c', Some (t', Some ev')) \<in> set pending \<longrightarrow> t \<le> t')
   | _ \<Rightarrow> \<forall>c t ev. (c, Some (t, Some ev)) \<in> set pending \<longrightarrow> deadline < t)"

lemma race_spec: "race_right deadline pending (race deadline pending)"
proof (induction deadline pending rule: race.induct)
  case (1 deadline pending)
  show ?case
  proof (cases "earliest (map snd pending)")
    case None
    then have "\<forall>x \<in> set pending. snd x = None" by (simp add: earliest_None)
    then show ?thesis using None by (subst race.simps) (fastforce simp: race_right_def split: option.splits)
  next
    case (Some p)
    obtain i t where e: "earliest (map snd pending) = Some (i, t)" using Some by (metis prod.collapse)
    obtain c x where i: "i < length pending" and pi: "pending ! i = (c, Some (t, x))" and mem: "(c, Some (t, x)) \<in> set pending"
      and minimal: "\<And>c u y. (c, Some (u, y)) \<in> set pending \<Longrightarrow> t \<le> u"
      and round: "race deadline pending = (if deadline < t then Race_TimedOut
        else case x of Some ev \<Rightarrow> Race_Won c ev
        | None \<Rightarrow> if swap_remove pending i = [] then Race_Closed else race deadline (swap_remove pending i))"
      using race_round [OF e, of deadline] by metis
    show ?thesis
    proof (cases "deadline < t \<or> x \<noteq> None")
      case True
      then show ?thesis using mem minimal by (cases x) (fastforce simp: round race_right_def)+
    next
      case False
      let ?rest = "swap_remove pending i"
      have same: "(c', Some (t', Some ev')) \<in> set pending \<longleftrightarrow> (c', Some (t', Some ev')) \<in> set ?rest" for c' t' ev'
        using set_swap_remove [OF i] pi False by auto
      have "race_right deadline pending out \<longleftrightarrow> race_right deadline ?rest out" for out
        by (cases out) (simp_all add: race_right_def same)
      moreover have "?rest \<noteq> [] \<Longrightarrow> race_right deadline ?rest (race deadline ?rest)"
        using 1 [OF e refl _ pi [symmetric]] False by auto
      ultimately show ?thesis using False by (auto simp: round) (auto simp: race_right_def)
    qed
  qed
qed

text \<open>The clients of a group that yield an event, with the time since the group was started: the first
  address is dialled at once, the others after the head start.\<close>

definition offers :: "'e network \<Rightarrow> attempt_group \<Rightarrow> (dialled \<times> nat \<times> 'e client_event) set" where
  "offers N g = {(c, t, ev). \<exists>a \<in> set (ag_addresses g). c = Dialled a (ag_direct_tls g)
     \<and> (a = hd (ag_addresses g) \<and> nw_dial N c = Some (t, Some ev)
        \<or> a \<in> set (tl (ag_addresses g)) \<and> (\<exists>u. nw_dial N c = Some (u, Some ev) \<and> t = u + 250))}"

text \<open>What a group comes to when its first address answers within the head start, and when it does not.\<close>

lemma try_group_early:
  assumes "ag_addresses g = first # rest" and "nw_dial N (Dialled first (ag_direct_tls g)) = Some (t, x)" and "t \<le> 250"
  shows "case x of
      None \<Rightarrow> try_group N g = Inl (network_failure (lit ''connection to '' @ show_addr first @ lit '' closed during handshake''))
    | Some ev \<Rightarrow> (Dialled first (ag_direct_tls g), t, ev) \<in> offers N g \<and> (\<forall>(c', t', ev') \<in> offers N g. t \<le> t')
        \<and> try_group N g = first_event_to_ready (Dialled first (ag_direct_tls g)) ev"
  using assms by (auto simp: try_group_def offers_def HAPPY_EYEBALLS_HEAD_START_def split: option.split)

lemma try_group_late:
  assumes "ag_addresses g = first # rest"
    and late: "\<And>t x. nw_dial N (Dialled first (ag_direct_tls g)) = Some (t, x) \<Longrightarrow> 250 < t"
  shows "(\<exists>c t ev. (c, t, ev) \<in> offers N g \<and> t \<le> 10250 \<and> (\<forall>(c', t', ev') \<in> offers N g. t \<le> t')
      \<and> try_group N g = first_event_to_ready c ev)
    \<or> (\<forall>(c, t, ev) \<in> offers N g. 10250 < t) \<and> (\<exists>detail. try_group N g = Inl (network_failure detail))"
proof -
  let ?d = "\<lambda>a. Dialled a (ag_direct_tls g)"
  let ?ans = "nw_dial N (?d first)"
  let ?racers = "(?d first, running_for 250 ?ans) # map (\<lambda>a. (?d a, nw_dial N (?d a))) rest"
  let ?run = "race 10000 ?racers"
  have offers: "(c, t, ev) \<in> offers N g \<longleftrightarrow> (c = ?d first \<and> ?ans = Some (t, Some ev))
      \<or> (\<exists>a \<in> set rest. c = ?d a \<and> (\<exists>u. nw_dial N c = Some (u, Some ev) \<and> t = u + 250))" for c t ev
    by (auto simp: offers_def assms(1))
  have group: "try_group N g = (case ?run of
      Race_Won client event \<Rightarrow> first_event_to_ready client event
    | Race_Closed \<Rightarrow> Inl (network_failure (lit ''connection to port '' @ show_dec (unat (ag_port g)) @ lit '' closed during handshake''))
    | Race_TimedOut \<Rightarrow> Inl (network_failure (lit ''connection to port '' @ show_dec (unat (ag_port g)) @ lit '' timed out after 10 seconds'')))"
    using late by (cases ?ans)
      (auto simp: try_group_def assms(1) HAPPY_EYEBALLS_HEAD_START_def CONNECT_ATTEMPT_TIMEOUT_def Let_def not_le)
  have racers: "(c, Some (t, Some ev)) \<in> set ?racers \<longleftrightarrow> (c, t + 250, ev) \<in> offers N g" for c t ev
    using late by (cases "?ans") (force simp: running_for_def offers)+
  have offer_late: "(c, t, ev) \<in> offers N g \<Longrightarrow> \<exists>u. t = u + 250" for c t ev
    using late by (auto simp: offers) (metis less_imp_le nat_le_iff_add add.commute)
  note raced = race_spec [where deadline = 10000 and pending = ?racers, unfolded race_right_def racers]
  show ?thesis
  proof (cases ?run)
    case (Race_Won c ev)
    then obtain t where t: "(c, t + 250, ev) \<in> offers N g" "t \<le> 10000"
      "\<forall>c' t' ev'. (c', t' + 250, ev') \<in> offers N g \<longrightarrow> t \<le> t'"
      using raced by auto
    then have "\<forall>(c', t', ev') \<in> offers N g. t + 250 \<le> t'" using offer_late by fastforce
    then show ?thesis using t by (intro disjI1 exI [of _ c] exI [of _ "t + 250"] exI [of _ ev]) (simp add: group Race_Won)
  next
    case Race_Closed
    then have "\<forall>c t ev. (c, t + 250, ev) \<in> offers N g \<longrightarrow> 10000 < t" using raced by simp
    then have "\<forall>(c, t, ev) \<in> offers N g. 10250 < t" using offer_late by fastforce
    then show ?thesis by (intro disjI2 conjI) (auto simp: group Race_Closed)
  next
    case Race_TimedOut
    then have "\<forall>c t ev. (c, t + 250, ev) \<in> offers N g \<longrightarrow> 10000 < t" using raced by simp
    then have "\<forall>(c, t, ev) \<in> offers N g. 10250 < t" using offer_late by fastforce
    then show ?thesis by (intro disjI2 conjI) (auto simp: group Race_TimedOut)
  qed
qed

lemma try_group_outcome:
  assumes "ag_addresses g = first # rest"
  shows "if \<exists>t \<le> 250. nw_dial N (Dialled first (ag_direct_tls g)) = Some (t, None)
    then try_group N g = Inl (network_failure (lit ''connection to '' @ show_addr first @ lit '' closed during handshake''))
    else if \<exists>c t ev. (c, t, ev) \<in> offers N g \<and> t \<le> 10250
    then \<exists>c t ev. (c, t, ev) \<in> offers N g \<and> t \<le> 10250 \<and> (\<forall>(c', t', ev') \<in> offers N g. t \<le> t')
      \<and> try_group N g = first_event_to_ready c ev
    else \<exists>detail. try_group N g = Inl (network_failure detail)"
proof (cases "\<exists>t x. nw_dial N (Dialled first (ag_direct_tls g)) = Some (t, x) \<and> t \<le> 250")
  case True
  then obtain t x where ans: "nw_dial N (Dialled first (ag_direct_tls g)) = Some (t, x)" "t \<le> 250" by blast
  note early = try_group_early [OF assms ans]
  show ?thesis
  proof (cases x)
    case None
    then show ?thesis using ans early by simp
  next
    case (Some ev)
    then have "t \<le> 10250" "\<not> (\<exists>t \<le> 250. nw_dial N (Dialled first (ag_direct_tls g)) = Some (t, None))" using ans by auto
    then show ?thesis using early Some by (simp, blast)
  qed
next
  case False
  have going: "\<not> (\<exists>t \<le> 250. nw_dial N (Dialled first (ag_direct_tls g)) = Some (t, None))" using False by blast
  have "(\<exists>c t ev. (c, t, ev) \<in> offers N g \<and> t \<le> 10250 \<and> (\<forall>(c', t', ev') \<in> offers N g. t \<le> t')
      \<and> try_group N g = first_event_to_ready c ev)
    \<or> (\<forall>(c, t, ev) \<in> offers N g. 10250 < t) \<and> (\<exists>detail. try_group N g = Inl (network_failure detail))"
    by (rule try_group_late [OF assms]) (use False in \<open>auto simp: not_le [symmetric]\<close>)
  then show ?thesis
  proof
    assume won: "\<exists>c t ev. (c, t, ev) \<in> offers N g \<and> t \<le> 10250 \<and> (\<forall>(c', t', ev') \<in> offers N g. t \<le> t')
      \<and> try_group N g = first_event_to_ready c ev"
    then have some: "\<exists>c t ev. (c, t, ev) \<in> offers N g \<and> t \<le> 10250" by blast
    show ?thesis unfolding if_not_P [OF going] if_P [OF some] by (rule won)
  next
    assume lost: "(\<forall>(c, t, ev) \<in> offers N g. 10250 < t) \<and> (\<exists>detail. try_group N g = Inl (network_failure detail))"
    then have none: "\<not> (\<exists>c t ev. (c, t, ev) \<in> offers N g \<and> t \<le> 10250)" by fastforce
    show ?thesis unfolding if_not_P [OF going] if_not_P [OF none] using lost by blast
  qed
qed

lemma first_event_outcome:
  "first_event_to_ready c ev = (case ev of
     Ev_Disconnected e \<Rightarrow> Inl \<lparr>cf_detail = xmpp_error_display e, cf_recoverable = disconnected_is_recoverable e,
       cf_kind = classify_disconnect e\<rparr>
   | _ \<Rightarrow> Inr \<lparr>rc_client = c, rc_pending_event = Some ev\<rparr>)"
  by (cases ev) (simp_all add: first_event_to_ready_def terminal_failure_for_event_def)

text \<open>C39: An attempt on a group of addresses has the outcome of the first event that any of its clients
  yields within ten seconds after the head start of 250 milliseconds, whichever address it comes from: a
  disconnect fails the attempt, for good or recoverably as its error says, and with any other event that client
  is taken and the event kept for its worker. Without such an event the attempt fails recoverably. One case is
  different: a first address whose stream ends during the head start fails the attempt recoverably at once, and
  the other addresses are never dialled.\<close>

theorem try_group_spec:
  assumes "ag_addresses g = first # rest"
  shows "if \<exists>t \<le> 250. nw_dial N (Dialled first (ag_direct_tls g)) = Some (t, None)
    then try_group N g = Inl (network_failure (lit ''connection to '' @ show_addr first @ lit '' closed during handshake''))
    else if \<exists>c t ev. (c, t, ev) \<in> offers N g \<and> t \<le> 10250
    then \<exists>c t ev. (c, t, ev) \<in> offers N g \<and> t \<le> 10250 \<and> (\<forall>(c', t', ev') \<in> offers N g. t \<le> t')
      \<and> try_group N g = (case ev of
          Ev_Disconnected e \<Rightarrow> Inl \<lparr>cf_detail = xmpp_error_display e, cf_recoverable = disconnected_is_recoverable e,
            cf_kind = classify_disconnect e\<rparr>
        | _ \<Rightarrow> Inr \<lparr>rc_client = c, rc_pending_event = Some ev\<rparr>)
    else \<exists>detail. try_group N g = Inl (network_failure detail) \<and> cf_recoverable (network_failure detail)"
proof -
  have recoverable: "cf_recoverable (network_failure detail) = True" for detail
    by (simp add: network_failure_def)
  show ?thesis
    unfolding recoverable simp_thms by (rule try_group_outcome [OF assms, unfolded first_event_outcome])
qed

text \<open>A network in which the first address of a name hangs and the second answers.\<close>

definition demo_addr :: "u8 \<Rightarrow> socket_addr" where
  "demo_addr n = socket_addr_new [192, 0, 2, n] 5222"

definition demo_online :: "unit client_event" where
  "demo_online = Ev_Online (lit ''alice@example.org/desk'') \<lparr>sf_stream_management = True, sf_in_band_registration = False\<rparr> False"

definition demo_network :: "unit network" where
  "demo_network = \<lparr>nw_names = demo_names, nw_dial = (\<lambda>c. case c of
       Dialled a _ \<Rightarrow> if a = demo_addr 2 then Some (40, Some demo_online) else None
     | Tunnelled _ _ _ \<Rightarrow> Some (900, Some demo_online))\<rparr>"

definition demo_group :: attempt_group where
  "demo_group = \<lparr>ag_port = 5222, ag_direct_tls = False, ag_addresses = [demo_addr 1, demo_addr 2]\<rparr>"

theorem try_group_spec_witness:
  "\<exists>c t ev. (c, t, ev) \<in> offers demo_network demo_group \<and> t \<le> 10250
     \<and> try_group demo_network demo_group = (case ev of
          Ev_Disconnected e \<Rightarrow> Inl \<lparr>cf_detail = xmpp_error_display e, cf_recoverable = disconnected_is_recoverable e,
            cf_kind = classify_disconnect e\<rparr>
        | _ \<Rightarrow> Inr \<lparr>rc_client = c, rc_pending_event = Some ev\<rparr>)"
proof -
  have ne: "demo_addr 1 \<noteq> demo_addr 2" by (simp add: demo_addr_def socket_addr_new_def)
  have "(Dialled (demo_addr 2) False, 290, demo_online) \<in> offers demo_network demo_group"
    using ne by (simp add: offers_def demo_group_def demo_network_def)
  then have some: "\<exists>c t ev. (c, t, ev) \<in> offers demo_network demo_group \<and> t \<le> 10250"
    by (intro exI conjI) auto
  have slow: "\<not> (\<exists>t \<le> 250. nw_dial demo_network (Dialled (demo_addr 1) (ag_direct_tls demo_group)) = Some (t, None))"
    using ne by (simp add: demo_network_def)
  have "ag_addresses demo_group = demo_addr 1 # [demo_addr 2]" by (simp add: demo_group_def)
  from try_group_spec [OF this, of demo_network] show ?thesis
    unfolding if_not_P [OF slow] if_P [OF some] by blast
qed

section \<open>Whom the phase talks to\<close>

lemma first_event_client: "first_event_to_ready c ev = Inr r \<Longrightarrow> rc_client r = c"
  by (auto simp: first_event_to_ready_def split: option.splits)

lemma proxy_attempt_client:
  "connect_attempt_proxy N conn = Inr r \<Longrightarrow> wc_proxy conn = Some px \<Longrightarrow> \<exists>target.
     proxy_target_from_server (wc_server conn) = Inr target
     \<and> rc_client r = Tunnelled px (wc_proxy_password conn) target"
  by (auto simp: connect_attempt_proxy_def strategy_connect_failure_def Let_def first_event_client
      split: option.splits sum.splits if_splits)

text \<open>C35: An account with a proxy connects through it or not at all. The outcome of its connect phase does
  not depend on the name services nor on any address that could be dialled directly, so neither the
  server's name nor its records are looked up locally; and a client that comes out of the phase is the
  tunnel to the server the account names, with the proxy and the proxy password of the request.\<close>

theorem proxy_never_bypassed:
  assumes "from_request L request = Inr conn" and "cr_proxy request = Some px"
    and "\<forall>pw target. nw_dial N (Tunnelled px pw target) = nw_dial N' (Tunnelled px pw target)"
  shows "connect_phase N conn = connect_phase N' conn
    \<and> (case connect_phase N conn of
         Inl failure \<Rightarrow> True
       | Inr ready \<Rightarrow> (case proxy_target_from_server (trim (cr_server request)) of
             Inl e \<Rightarrow> False
           | Inr target \<Rightarrow> rc_client ready = Tunnelled px (map_option into_inner (cr_proxy_password request)) target))"
proof -
  have conn: "wc_connect_strategy conn = strategy_of_kind (px_kind px)" "wc_proxy conn = Some px"
    "wc_server conn = trim (cr_server request)"
    "wc_proxy_password conn = map_option into_inner (cr_proxy_password request)"
    using assms(1,2) by (auto simp: from_request_def Let_def split: option.splits sum.splits if_splits)
  have phase: "connect_phase N conn = connect_attempt_proxy N conn"
    "connect_phase N' conn = connect_attempt_proxy N' conn"
    by (cases "px_kind px"; simp add: connect_phase_def conn)+
  have "connect_attempt_proxy N conn = connect_attempt_proxy N' conn"
    using assms(3) conn(2) by (simp add: connect_attempt_proxy_def Let_def split: option.split sum.split)
  moreover have "case connect_attempt_proxy N conn of
         Inl failure \<Rightarrow> True
       | Inr ready \<Rightarrow> (case proxy_target_from_server (trim (cr_server request)) of
             Inl e \<Rightarrow> False
           | Inr target \<Rightarrow> rc_client ready = Tunnelled px (map_option into_inner (cr_proxy_password request)) target)"
  proof (cases "connect_attempt_proxy N conn")
    case (Inr r)
    from proxy_attempt_client [OF this conn(2)] show ?thesis by (auto simp: Inr conn)
  qed simp
  ultimately show ?thesis by (simp add: phase)
qed

definition demo_proxied :: connection_request where
  "demo_proxied = \<lparr>cr_account_id = 1, cr_jid = lit ''alice@example.org'', cr_server = lit ''example.org'',
     cr_password = SecretString (lit ''secret''), cr_auto_reconnect = True,
     cr_proxy = Some \<lparr>px_host = lit ''127.0.0.1'', px_port = 9050, px_kind = PK_Socks5\<rparr>,
     cr_proxy_password = None\<rparr>"

lemma demo_server: "trim (lit ''example.org'') = lit ''example.org''"
  "xmpp_split_host_and_port (lit ''example.org'') = Inr None"
  by (simp_all add: trim_def is_ws_def xmpp_split_host_and_port_def strip_prefix_def lit_def colon_def)

theorem proxy_never_bypassed_witness:
  "\<exists>conn. from_request demo_parsers demo_proxied = Inr conn
     \<and> connect_phase demo_network conn = connect_phase (demo_network\<lparr>nw_names := demo_names\<lparr>ns_late := True\<rparr>\<rparr>) conn"
proof -
  have "\<exists>conn. from_request demo_parsers demo_proxied = Inr conn"
    by (simp add: from_request_def demo_proxied_def demo_server validate_endpoint_syntax_def demo_parsers_def Let_def)
      (simp add: lit_def)
  then obtain conn where conn: "from_request demo_parsers demo_proxied = Inr conn" by blast
  obtain px where "cr_proxy demo_proxied = Some px" by (simp add: demo_proxied_def)
  from proxy_never_bypassed [OF conn this, where N = demo_network
      and N' = "demo_network\<lparr>nw_names := demo_names\<lparr>ns_late := True\<rparr>\<rparr>"] conn
  show ?thesis by simp
qed

section \<open>The order of the attempts\<close>

lemma attempt_loop_cases:
  "case attempt_loop f e0 gs of
     Inr ready \<Rightarrow> \<exists>before g later. gs = before @ g # later \<and> f g = Inr ready
       \<and> (\<forall>h \<in> set before. \<exists>e. f h = Inl e \<and> cf_recoverable e)
   | Inl e \<Rightarrow> if cf_recoverable e then (gs = [] \<and> e = e0 \<or> gs \<noteq> [] \<and> f (last gs) = Inl e)
         \<and> (\<forall>h \<in> set gs. \<exists>e. f h = Inl e \<and> cf_recoverable e)
       else gs = [] \<and> e = e0 \<or> (\<exists>before g later. gs = before @ g # later \<and> f g = Inl e
         \<and> (\<forall>h \<in> set before. \<exists>e. f h = Inl e \<and> cf_recoverable e))"
proof (induction gs arbitrary: e0)
  case (Cons g gs)
  show ?case
  proof (cases "f g")
    case (Inr r)
    then show ?thesis by (auto intro!: exI [of _ "[]"])
  next
    case (Inl e)
    show ?thesis
    proof (cases "cf_recoverable e")
      case False
      with Inl show ?thesis by (auto simp: terminal_if_auth_def intro!: exI [of _ "[]"])
    next
      case True
      have step: "attempt_loop f e0 (g # gs) = attempt_loop f e gs"
        using Inl True by (simp add: terminal_if_auth_def)
      have ext: "\<exists>before h later. g # gs = before @ h # later \<and> P h
          \<and> (\<forall>h \<in> set before. \<exists>e. f h = Inl e \<and> cf_recoverable e)"
        if "\<exists>before h later. gs = before @ h # later \<and> P h
          \<and> (\<forall>h \<in> set before. \<exists>e. f h = Inl e \<and> cf_recoverable e)" for P
      proof -
        from that obtain before h later where "gs = before @ h # later" "P h"
          "\<forall>h \<in> set before. \<exists>e. f h = Inl e \<and> cf_recoverable e" by blast
        with Inl True show ?thesis by (intro exI [of _ "g # before"] exI [of _ h] exI [of _ later]) auto
      qed
      note ih = Cons.IH [of e]
      show ?thesis
      proof (cases "attempt_loop f e gs")
        case (Inr r)
        from ext [of "\<lambda>h. f h = Inr r"] ih show ?thesis unfolding step by (simp add: Inr)
      next
        case (Inl a)
        show ?thesis
        proof (cases "cf_recoverable a")
          case False
          with ih True Inl have "\<exists>before h later. gs = before @ h # later \<and> f h = Inl a
              \<and> (\<forall>h \<in> set before. \<exists>e. f h = Inl e \<and> cf_recoverable e)" by auto
          from ext [of "\<lambda>h. f h = Inl a", OF this] False show ?thesis unfolding step by (simp add: Inl)
        next
          case rec: True
          with ih \<open>f g = Inl e\<close> True show ?thesis unfolding step by (auto simp: Inl)
        qed
      qed
    qed
  qed
qed simp

text \<open>C40: A direct connection tries its groups of candidates in order and stops at the first group that
  yields a client or a rejection. It reports a rejection that no retry can cure only when some group
  was rejected after nothing but recoverable failures, and a recoverable failure only when every group
  failed that way, with the failure of the last one.\<close>

theorem connect_attempt_spec:
  assumes "wc_connect_strategy conn = ST_Direct"
  shows "case connect_attempt N conn attempts of
     Inr ready \<Rightarrow> \<exists>before g later. group_attempts attempts = before @ g # later \<and> try_group N g = Inr ready
       \<and> (\<forall>h \<in> set before. \<exists>e. try_group N h = Inl e \<and> cf_recoverable e)
   | Inl e \<Rightarrow> if cf_recoverable e
       then (if attempts = [] then cf_detail e = lit ''no connection candidates''
             else try_group N (last (group_attempts attempts)) = Inl e)
         \<and> (\<forall>h \<in> set (group_attempts attempts). \<exists>e. try_group N h = Inl e \<and> cf_recoverable e)
       else \<exists>before g later. group_attempts attempts = before @ g # later \<and> try_group N g = Inl e
         \<and> (\<forall>h \<in> set before. \<exists>e. try_group N h = Inl e \<and> cf_recoverable e)"
proof -
  have empty: "group_attempts attempts = [] \<longleftrightarrow> attempts = []"
    using group_attempts_flat [of attempts] by (auto simp: group_attempts_def)
  have run: "connect_attempt N conn attempts
      = attempt_loop (try_group N) (network_failure (lit ''no connection candidates'')) (group_attempts attempts)"
    by (simp add: connect_attempt_def strategy_connect_failure_def assms)
  show ?thesis
    using attempt_loop_cases [where f = "try_group N" and gs = "group_attempts attempts"
      and ?e0.0 = "network_failure (lit ''no connection candidates'')"]
    unfolding run
    by (cases "attempt_loop (try_group N) (network_failure (lit ''no connection candidates'')) (group_attempts attempts)")
      (auto simp: empty network_failure_def split: if_splits)
qed

text \<open>A server whose first group of candidates hangs and whose second answers.\<close>

definition demo_direct :: worker_connection where
  "demo_direct = \<lparr>wc_account_id = 1, wc_jid = lit ''alice@example.org'', wc_password = [],
     wc_server = lit ''example.org'', wc_auto_reconnect = True, wc_connect_strategy = ST_Direct,
     wc_proxy = None, wc_proxy_password = None\<rparr>"

theorem connect_attempt_spec_witness:
  "\<exists>ready before g later.
     connect_attempt demo_network demo_direct [(demo_addr 1, True), (demo_addr 2, False)] = Inr ready
     \<and> group_attempts [(demo_addr 1, True), (demo_addr 2, False)] = before @ g # later
     \<and> try_group demo_network g = Inr ready"
proof -
  have ne: "demo_addr 1 \<noteq> demo_addr 2" by (simp add: demo_addr_def socket_addr_new_def)
  have "\<exists>ready. connect_attempt demo_network demo_direct [(demo_addr 1, True), (demo_addr 2, False)] = Inr ready"
    using ne by (simp add: connect_attempt_def strategy_connect_failure_def demo_direct_def group_attempts_def
        add_attempt_def try_group_def demo_network_def HAPPY_EYEBALLS_HEAD_START_def race.simps
        first_event_to_ready_def demo_online_def terminal_failure_for_event_def network_failure_def terminal_if_auth_def
        Let_def running_for_def)
  then obtain ready
    where "connect_attempt demo_network demo_direct [(demo_addr 1, True), (demo_addr 2, False)] = Inr ready" by blast
  with connect_attempt_spec [where conn = demo_direct and N = demo_network
      and attempts = "[(demo_addr 1, True), (demo_addr 2, False)]"]
  show ?thesis by (auto simp: demo_direct_def)
qed

end
