(* ===== verification/Xmpp_Worker.thy ===== *)
theory Xmpp_Worker
  imports Xmpp_Connect
begin

text \<open>
  The XMPP worker of one account (\<^verbatim>\<open>xmpp.rs\<close>): how it handles the events of its client, and its loop as
  a step relation. A step takes one input - what the \<^verbatim>\<open>select!\<close> of \<^verbatim>\<open>run_worker\<close> picked, with what the
  client answered - and gives the outputs of the branch in order and the new state. Times are in
  milliseconds.
\<close>

section \<open>Outputs and inputs\<close>

text \<open>An event for the domain, a stanza handed to the client, the answer to a command, the end of the
  stream, a forced reconnect.\<close>

datatype 'e worker_output =
    Emit transport_event
  | Transmit "'e stanza"
  | Reply "transport_error + unit"
  | Close_Stream
  | Request_Reconnect

text \<open>What became of a bounded send or of a bounded close of the stream.\<close>

datatype send_outcome = Send_Ok | Send_Failed ustr | Send_TimedOut
datatype close_outcome = Close_Ok | Close_Failed xmpp_error | Close_TimedOut

datatype 'e worker_input =
    W_Phase "(connect_failure + 'e ready_client) option" nat nat nat
  | W_Send outgoing_message send_outcome
  | W_Disconnect close_outcome
  | W_Closed
  | W_Ping
  | W_Watchdog nat
  | W_Event "'e client_event option" nat nat nat
  | W_Panic

datatype loop_action = Keep | Stop

datatype worker_phase = Phase_Connecting | Phase_Running | Phase_Exited

record worker =
  wk_account_id :: account_id
  wk_auto_reconnect :: bool
  wk_phase :: worker_phase
  wk_capabilities :: "protocol_capability set"
  wk_session_live :: bool
  wk_last_inbound :: nat
  wk_ping_counter :: u64

definition INBOUND_STALE_TIMEOUT :: nat where "INBOUND_STALE_TIMEOUT = 180000"

definition is_inbound_stale :: "nat \<Rightarrow> nat \<Rightarrow> bool" where
  "is_inbound_stale idle threshold \<longleftrightarrow> threshold < idle"

section \<open>Handling client events\<close>

definition reconnect_decision :: "'e client_event \<Rightarrow> bool \<Rightarrow> loop_action" where
  "reconnect_decision event auto_reconnect =
     (case event of
        Ev_Disconnected error \<Rightarrow>
          if reconnect_budget_exhausted error then Stop
          else if disconnected_is_recoverable error \<and> auto_reconnect then Keep
          else Stop
      | _ \<Rightarrow> Keep)"

definition query :: ustr where "query = lit ''query''"

definition handle_iq ::
  "'e parsers \<Rightarrow> account_id \<Rightarrow> 'e iq \<Rightarrow> protocol_capability set \<Rightarrow> 'e worker_output list" where
  "handle_iq L account_id iq stream_capabilities =
     (case iq of
        Iq_Result _ _ i (Some payload) \<Rightarrow>
          if i = roster_request_id account_id
          then (if pr_is L payload query (pr_ns L NS_ROSTER)
                then (case pr_roster L payload of
                    None \<Rightarrow> [] | Some items \<Rightarrow> map Emit (emit_roster account_id items))
                else [])
          else if i = disco_request_id account_id
          then (if pr_is L payload query (pr_ns L NS_DISCO_INFO)
                then (case pr_disco L payload of
                    None \<Rightarrow> []
                  | Some features \<Rightarrow> [Emit (CapabilitiesDiscovered account_id
                      (stream_capabilities \<union> capabilities_from_disco L features))])
                else [])
          else []
      | Iq_Set from _ i payload \<Rightarrow>
          if pr_is L payload query (pr_ns L NS_ROSTER)
          then (case pr_roster L payload of
              None \<Rightarrow> [] | Some items \<Rightarrow> map Emit (emit_roster account_id items))
            @ [Transmit (St_Iq (Iq_Result None from i None))]
          else []
      | _ \<Rightarrow> [])"

text \<open>\<open>now1\<close> and \<open>now2\<close> are the readings of the clock for an acknowledgement and for an incoming text.\<close>

definition handle_client_event ::
  "'e parsers \<Rightarrow> nat \<Rightarrow> nat \<Rightarrow> 'e client_event \<Rightarrow> worker \<Rightarrow> 'e worker_output list \<times> worker \<times> loop_action" where
  "handle_client_event L now1 now2 event w =
     (let account_id = wk_account_id w in
      case event of
        Ev_Online bound_jid features _ \<Rightarrow>
          let capabilities = stream_capabilities_from_features features
          in ([Emit (Connected account_id capabilities),
               Transmit (St_Presence presence_available),
               Transmit (St_Iq (Iq_Get None None (roster_request_id account_id) (pr_roster_query L)))]
              @ (case pr_jid L (pr_domain L bound_jid) of
                   None \<Rightarrow> []
                 | Some server_jid \<Rightarrow>
                     [Transmit (St_Iq (Iq_Get None (Some server_jid) (disco_request_id account_id) (pr_disco_query L)))]),
              w\<lparr>wk_session_live := True, wk_capabilities := capabilities\<rparr>, Keep)
      | Ev_Disconnected error \<Rightarrow>
          ([Emit (Disconnected account_id (disconnected_is_recoverable error)
              (Some (xmpp_error_display error)) (classify_disconnect error))],
           w\<lparr>wk_session_live := False\<rparr>, reconnect_decision event (wk_auto_reconnect w))
      | Ev_Stanza (St_Message m) \<Rightarrow>
          (map Emit (translate_incoming_receipts L account_id m)
           @ (case receipt_acknowledgement L now1 account_id m of None \<Rightarrow> [] | Some ack \<Rightarrow> [Transmit (St_Message ack)])
           @ (case translate_incoming_message L now2 account_id m of None \<Rightarrow> [] | Some ev \<Rightarrow> [Emit ev]),
           w, Keep)
      | Ev_Stanza (St_Presence p) \<Rightarrow>
          ((case translate_presence L account_id p of None \<Rightarrow> [] | Some ev \<Rightarrow> [Emit ev]), w, Keep)
      | Ev_Stanza (St_Iq iq) \<Rightarrow> (handle_iq L account_id iq (wk_capabilities w), w, Keep))"

section \<open>The loop\<close>

definition exited :: "worker \<Rightarrow> worker" where
  "exited w = w\<lparr>wk_phase := Phase_Exited\<rparr>"

definition after_action :: "loop_action \<Rightarrow> worker \<Rightarrow> worker" where
  "after_action action w = (case action of Keep \<Rightarrow> w | Stop \<Rightarrow> exited w)"

definition send_message ::
  "'e parsers \<Rightarrow> outgoing_message \<Rightarrow> send_outcome \<Rightarrow> 'e worker_output list \<times> (transport_error + unit)" where
  "send_message L m outcome =
     (case build_message_stanza L m of
        Inl e \<Rightarrow> ([], Inl e)
      | Inr stanza \<Rightarrow> ([Transmit (St_Message stanza)], case outcome of
            Send_Ok \<Rightarrow> Inr ()
          | Send_Failed e \<Rightarrow> Inl (map_io_error e)
          | Send_TimedOut \<Rightarrow> Inl (TE_ConnectionFailed (lit ''timed out while sending XMPP stanza''))))"

text \<open>The first \<^verbatim>\<open>select!\<close> of \<^verbatim>\<open>run_worker\<close>, between the connect phase and the command channel.\<close>

definition connecting_step :: "'e parsers \<Rightarrow> worker \<Rightarrow> 'e worker_input \<Rightarrow> 'e worker_output list \<times> worker" where
  "connecting_step L w input =
     (case input of
        W_Disconnect _ \<Rightarrow> ([Reply (Inr ())], exited w)
      | W_Send _ _ \<Rightarrow> ([Reply (Inl (TE_ConnectionFailed (lit ''account is still connecting'')))], exited w)
      | W_Closed \<Rightarrow> ([], exited w)
      | W_Phase None _ _ _ \<Rightarrow>
          ([Emit (Disconnected (wk_account_id w) True (Some (lit ''connection attempt exceeded 30 seconds'')) DK_NetworkLost)],
           exited w)
      | W_Phase (Some (Inl failure)) _ _ _ \<Rightarrow>
          ([Emit (Disconnected (wk_account_id w) (cf_recoverable failure) (Some (cf_detail failure)) (cf_kind failure))],
           exited w)
      | W_Phase (Some (Inr ready)) now1 now2 instant \<Rightarrow>
          let started = w\<lparr>wk_phase := Phase_Running, wk_capabilities := {}, wk_session_live := False,
                wk_last_inbound := instant, wk_ping_counter := 0\<rparr>
          in (case rc_pending_event ready of
                None \<Rightarrow> ([], started)
              | Some event \<Rightarrow>
                  let (outs, w1, action) = handle_client_event L now1 now2 event started
                  in (outs, after_action action w1))
      | _ \<Rightarrow> ([], w))"

text \<open>One round of the loop of \<^verbatim>\<open>run_worker\<close>.\<close>

definition running_step :: "'e parsers \<Rightarrow> worker \<Rightarrow> 'e worker_input \<Rightarrow> 'e worker_output list \<times> worker" where
  "running_step L w input =
     (case input of
        W_Send m outcome \<Rightarrow> (let (outs, result) = send_message L m outcome in (outs @ [Reply result], w))
      | W_Disconnect outcome \<Rightarrow>
          let result = (case outcome of
                Close_Ok \<Rightarrow> Inr ()
              | Close_Failed e \<Rightarrow> Inl (map_xmpp_error e)
              | Close_TimedOut \<Rightarrow> Inl (TE_ConnectionFailed (lit ''timed out while closing XMPP connection'')))
          in ([Close_Stream, Reply result], exited w)
      | W_Closed \<Rightarrow> ([Close_Stream], exited w)
      | W_Ping \<Rightarrow>
          let counter = wk_ping_counter w + 1
          in ([Transmit (St_Iq (Iq_Get None None (lit ''mindchat-ping-'' @ show_dec (unat counter)) (pr_ping_element L)))],
              w\<lparr>wk_ping_counter := counter\<rparr>)
      | W_Watchdog instant \<Rightarrow>
          if is_inbound_stale (instant - wk_last_inbound w) INBOUND_STALE_TIMEOUT
          then let w1 = w\<lparr>wk_session_live := False\<rparr>;
                   lost = Emit (Disconnected (wk_account_id w) True
                     (Some (lit ''no inbound data from the server for 3 minutes'')) DK_NetworkLost)
               in if wk_auto_reconnect w then ([lost, Request_Reconnect], w1) else ([lost], exited w1)
          else ([], w)
      | W_Event (Some event) now1 now2 instant \<Rightarrow>
          let (outs, w1, action) = handle_client_event L now1 now2 event (w\<lparr>wk_last_inbound := instant\<rparr>)
          in (outs, after_action action w1)
      | W_Event None _ _ _ \<Rightarrow> ([Emit (Disconnected (wk_account_id w) True None DK_NetworkLost)], exited w)
      | _ \<Rightarrow> ([], w))"

text \<open>Which inputs a phase can take: the ping and the watchdog only while the session is live.\<close>

definition takes :: "worker \<Rightarrow> 'e worker_input \<Rightarrow> bool" where
  "takes w input = (case wk_phase w of
     Phase_Connecting \<Rightarrow> (case input of
         W_Phase _ _ _ _ \<Rightarrow> True | W_Send _ _ \<Rightarrow> True | W_Disconnect _ \<Rightarrow> True | W_Closed \<Rightarrow> True | W_Panic \<Rightarrow> True
       | _ \<Rightarrow> False)
   | Phase_Running \<Rightarrow> (case input of
         W_Phase _ _ _ _ \<Rightarrow> False | W_Ping \<Rightarrow> wk_session_live w | W_Watchdog _ \<Rightarrow> wk_session_live w | _ \<Rightarrow> True)
   | Phase_Exited \<Rightarrow> False)"

text \<open>A panic anywhere in the worker is caught by its thread, which then reports the crash.\<close>

definition worker_step :: "'e parsers \<Rightarrow> worker \<Rightarrow> 'e worker_input \<Rightarrow> 'e worker_output list \<times> worker" where
  "worker_step L w input =
     (if input = W_Panic
      then ([Emit (Disconnected (wk_account_id w) True (Some (lit ''XMPP worker crashed'')) DK_Unknown)], exited w)
      else if wk_phase w = Phase_Connecting then connecting_step L w input
      else running_step L w input)"

definition worker_start :: "worker_connection \<Rightarrow> worker" where
  "worker_start conn = \<lparr>wk_account_id = wc_account_id conn, wk_auto_reconnect = wc_auto_reconnect conn,
     wk_phase = Phase_Connecting, wk_capabilities = {}, wk_session_live = False, wk_last_inbound = 0,
     wk_ping_counter = 0\<rparr>"

text \<open>A run of a worker: the inputs it took and the outputs it made.\<close>

inductive worker_run :: "'e parsers \<Rightarrow> worker \<Rightarrow> 'e worker_input list \<Rightarrow> 'e worker_output list \<Rightarrow> worker \<Rightarrow> bool"
  for L w0 where
  run_start: "worker_run L w0 [] [] w0"
| run_step: "worker_run L w0 ins outs w \<Longrightarrow> takes w i \<Longrightarrow> worker_step L w i = (new, w')
    \<Longrightarrow> worker_run L w0 (ins @ [i]) (outs @ new) w'"

inductive_cases worker_run_snocE: "worker_run L w0 (ins @ [i]) outs w"

section \<open>The events of a worker\<close>

definition emitted :: "'e worker_output list \<Rightarrow> transport_event list" where
  "emitted outs = List.map_filter (\<lambda>out. case out of Emit ev \<Rightarrow> Some ev | _ \<Rightarrow> None) outs"

lemma emitted_simps [simp]:
  "emitted [] = []" "emitted (Emit ev # outs) = ev # emitted outs" "emitted (Transmit st # outs) = emitted outs"
  "emitted (Reply r # outs) = emitted outs" "emitted (Close_Stream # outs) = emitted outs"
  "emitted (Request_Reconnect # outs) = emitted outs"
  by (simp_all add: emitted_def List.map_filter_simps)

lemma emitted_append [simp]: "emitted (a @ b) = emitted a @ emitted b"
  by (simp add: emitted_def List.map_filter_def)

lemma emitted_map [simp]: "emitted (map Emit evs) = evs"
  by (induction evs) simp_all

text \<open>
  What the domain is told of a session: an abstract machine over the events alone. It starts out
  connecting, a \<^verbatim>\<open>Connected\<close> event puts it online, a \<^verbatim>\<open>Disconnected\<close> event takes it down.
\<close>

datatype session = Session_Connecting | Session_Online | Session_Lost

fun session_after :: "session \<Rightarrow> transport_event \<Rightarrow> session" where
  "session_after s (Connected _ _) = Session_Online"
| "session_after s (Disconnected _ _ _ _) = Session_Lost"
| "session_after s _ = s"

abbreviation session_of :: "session \<Rightarrow> transport_event list \<Rightarrow> session" where
  "session_of \<equiv> foldl session_after"

lemma session_of_keep: "\<forall>ev \<in> set evs. \<forall>s. session_after s ev = s \<Longrightarrow> session_of s evs = s"
  by (induction evs) auto

text \<open>Events of a stanza change no session.\<close>

lemma stanza_events:
  "ev \<in> set (translate_incoming_receipts L a m) \<Longrightarrow> ev_account ev = a \<and> session_after s ev = s"
  "translate_incoming_message L now a m = Some ev \<Longrightarrow> ev_account ev = a \<and> session_after s ev = s"
  "translate_presence L a p = Some ev \<Longrightarrow> ev_account ev = a \<and> session_after s ev = s"
  "ev \<in> set (emit_roster a items) \<Longrightarrow> ev_account ev = a \<and> session_after s ev = s"
  "ev \<in> set (emitted (handle_iq L a iq caps)) \<Longrightarrow> ev_account ev = a \<and> session_after s ev = s"
proof -
  show roster: "ev \<in> set (emit_roster a items) \<Longrightarrow> ev_account ev = a \<and> session_after s ev = s" for items
    by (auto simp: emit_roster_def)
  show "ev \<in> set (emitted (handle_iq L a iq caps)) \<Longrightarrow> ev_account ev = a \<and> session_after s ev = s"
    by (auto simp: handle_iq_def split: iq.splits option.splits if_splits dest: roster)
qed (auto simp: translate_incoming_receipts_def translate_incoming_message_def translate_presence_def Let_def
    split: option.splits if_splits)

lemma handle_event_effect:
  assumes "handle_client_event L now1 now2 event w = (outs, w', action)"
  shows "wk_account_id w' = wk_account_id w \<and> wk_phase w' = wk_phase w
    \<and> wk_auto_reconnect w' = wk_auto_reconnect w \<and> wk_last_inbound w' = wk_last_inbound w
    \<and> (\<forall>ev \<in> set (emitted outs). ev_account ev = wk_account_id w)
    \<and> (case event of
         Ev_Online _ _ _ \<Rightarrow> session_of s (emitted outs) = Session_Online \<and> wk_session_live w' \<and> action = Keep
       | Ev_Disconnected e \<Rightarrow> session_of s (emitted outs) = Session_Lost \<and> \<not> wk_session_live w'
           \<and> action = (if wk_auto_reconnect w \<and> disconnected_is_recoverable e \<and> e \<noteq> XE_ReconnectBudgetExhausted then Keep else Stop)
       | Ev_Stanza _ \<Rightarrow> session_of s (emitted outs) = s \<and> wk_session_live w' = wk_session_live w \<and> action = Keep)"
proof (cases event)
  case (Ev_Online j f r)
  then show ?thesis
    using assms by (auto simp: handle_client_event_def Let_def split: option.splits)
next
  case (Ev_Disconnected e)
  then show ?thesis
    using assms by (cases e) (auto simp: handle_client_event_def reconnect_decision_def)
next
  case (Ev_Stanza st)
  then have w: "w' = w" "action = Keep"
    using assms by (auto simp: handle_client_event_def Let_def split: stanza.splits)
  have "ev_account ev = wk_account_id w \<and> session_after s ev = s" if "ev \<in> set (emitted outs)" for ev s
    using that assms Ev_Stanza
    by (cases st) (auto simp: handle_client_event_def Let_def split: option.splits
        dest: stanza_events)
  then show ?thesis using Ev_Stanza w by (auto intro: session_of_keep)
qed

definition is_command :: "'e worker_input \<Rightarrow> bool" where
  "is_command i = (case i of W_Send _ _ \<Rightarrow> True | W_Disconnect _ \<Rightarrow> True | W_Closed \<Rightarrow> True | _ \<Rightarrow> False)"

text \<open>A step that tells the truth: it keeps the identity of the worker, its events are of the account, the
  session is live exactly when the events say online, and the worker ends only after the events say
  lost, or where a command may end it.\<close>

definition truthful :: "bool \<Rightarrow> session \<Rightarrow> worker \<Rightarrow> 'e worker_output list \<Rightarrow> worker \<Rightarrow> bool" where
  "truthful command s w outs w' \<longleftrightarrow>
     wk_account_id w' = wk_account_id w \<and> wk_auto_reconnect w' = wk_auto_reconnect w
     \<and> wk_phase w' \<noteq> Phase_Connecting
     \<and> (\<forall>ev \<in> set (emitted outs). ev_account ev = wk_account_id w)
     \<and> (wk_phase w' = Phase_Running \<longrightarrow> wk_session_live w' = (session_of s (emitted outs) = Session_Online)
         \<and> (session_of s (emitted outs) = Session_Lost \<longrightarrow> wk_auto_reconnect w \<or> s = Session_Lost))
     \<and> (wk_phase w' = Phase_Exited \<longrightarrow> command \<or> session_of s (emitted outs) = Session_Lost)"

lemma handled_truthful:
  assumes "handle_client_event L n1 n2 ev u = (outs, v, a)" and "wk_account_id u = wk_account_id w"
    and "wk_phase u = Phase_Running" and "wk_auto_reconnect u = wk_auto_reconnect w"
    and "wk_session_live u = (s = Session_Online)"
  shows "truthful b s w outs (after_action a v)"
  using handle_event_effect [OF assms(1), of s] assms(2-)
  by (cases ev) (auto simp: truthful_def after_action_def exited_def split: if_splits loop_action.splits)

lemma ready_truthful:
  assumes "connecting_step L w (W_Phase (Some (Inr ready)) n1 n2 t) = (outs, w')"
  shows "truthful b Session_Connecting w outs w'"
proof (cases "rc_pending_event ready")
  case None
  then show ?thesis using assms by (auto simp: truthful_def connecting_step_def)
next
  case (Some ev)
  let ?u = "w\<lparr>wk_phase := Phase_Running, wk_capabilities := {}, wk_session_live := False,
            wk_last_inbound := t, wk_ping_counter := 0\<rparr>"
  obtain os v a where h: "handle_client_event L n1 n2 ev ?u = (os, v, a)" by (metis prod_cases3)
  then have "outs = os" "w' = after_action a v"
    using assms Some by (auto simp: connecting_step_def)
  then show ?thesis using handled_truthful [OF h, of w Session_Connecting] by simp
qed

lemma connecting_truthful:
  assumes "takes w i" and "wk_phase w = Phase_Connecting" and "connecting_step L w i = (outs, w')" and "i \<noteq> W_Panic"
  shows "truthful (is_command i) Session_Connecting w outs w'"
proof (cases "\<exists>ready n1 n2 t. i = W_Phase (Some (Inr ready)) n1 n2 t")
  case True
  then show ?thesis using ready_truthful assms(3) by blast
next
  case False
  then show ?thesis using assms
    by (auto simp: truthful_def connecting_step_def takes_def exited_def is_command_def
        split: worker_input.splits option.splits sum.splits)
qed

lemma running_truthful:
  assumes "takes w i" and "wk_phase w = Phase_Running" and "running_step L w i = (outs, w')" and "i \<noteq> W_Panic"
    and live: "wk_session_live w = (s = Session_Online)"
  shows "truthful (is_command i) s w outs w'"
proof (cases "\<exists>ev n1 n2 t. i = W_Event (Some ev) n1 n2 t")
  case True
  then obtain ev n1 n2 t where i: "i = W_Event (Some ev) n1 n2 t" by blast
  obtain os v a where h: "handle_client_event L n1 n2 ev (w\<lparr>wk_last_inbound := t\<rparr>) = (os, v, a)"
    by (metis prod_cases3)
  then have "outs = os" "w' = after_action a v" using assms(3) i by (auto simp: running_step_def)
  then show ?thesis using handled_truthful [OF h, of w s] live assms(2) by simp
next
  case False
  then show ?thesis using assms
    by (auto simp: truthful_def running_step_def takes_def exited_def is_command_def send_message_def Let_def
        split: worker_input.splits option.splits sum.splits if_splits)
qed

text \<open>One step, seen by the domain.\<close>

lemma worker_step_effect:
  assumes "takes w i" and "worker_step L w i = (outs, w')"
    and "wk_phase w = Phase_Connecting \<Longrightarrow> s = Session_Connecting"
    and "wk_phase w = Phase_Running \<Longrightarrow> wk_session_live w = (s = Session_Online)"
  shows "truthful (is_command i) s w outs w'"
proof (cases "i = W_Panic")
  case True
  then show ?thesis using assms(2) by (auto simp: truthful_def worker_step_def exited_def)
next
  case False
  then show ?thesis
    using assms connecting_truthful [OF assms(1)] running_truthful [OF assms(1)]
    by (cases "wk_phase w") (auto simp: worker_step_def takes_def)
qed

end
