(* ===== verification/Xmpp_Session.thy ===== *)
theory Xmpp_Session
  imports Xmpp_Worker
begin

text \<open>
  What the domain learns from a worker over a whole run (\<^verbatim>\<open>run_worker\<close> in \<^verbatim>\<open>xmpp.rs\<close>): the session its
  events tell of, the detection of a silent link, and the answers to its commands.
\<close>

section \<open>The session of a run\<close>

lemma worker_run_invariant:
  assumes "worker_run L (worker_start conn) ins outs w"
  shows "wk_account_id w = wc_account_id conn \<and> wk_auto_reconnect w = wc_auto_reconnect conn
    \<and> (\<forall>ev \<in> set (emitted outs). ev_account ev = wc_account_id conn)
    \<and> (wk_phase w = Phase_Connecting \<longrightarrow> ins = [] \<and> outs = [])
    \<and> (wk_phase w = Phase_Running \<longrightarrow>
        wk_session_live w = (session_of Session_Connecting (emitted outs) = Session_Online)
        \<and> (session_of Session_Connecting (emitted outs) = Session_Lost \<longrightarrow> wc_auto_reconnect conn))
    \<and> (wk_phase w = Phase_Exited \<longrightarrow>
        session_of Session_Connecting (emitted outs) = Session_Lost \<or> ins \<noteq> [] \<and> is_command (last ins))"
  using assms
proof (induction rule: worker_run.induct)
  case run_start
  then show ?case by (simp add: worker_start_def)
next
  case (run_step ins outs w i new w')
  let ?s = "session_of Session_Connecting (emitted outs)"
  have s: "wk_phase w = Phase_Connecting \<Longrightarrow> ?s = Session_Connecting"
    "wk_phase w = Phase_Running \<Longrightarrow> wk_session_live w = (?s = Session_Online)"
    using run_step.IH by simp_all
  have lost: "wk_auto_reconnect w \<or> ?s = Session_Lost \<longrightarrow> wk_phase w \<noteq> Phase_Exited \<longrightarrow> wk_phase w' = Phase_Running
      \<longrightarrow> ?s = Session_Lost \<longrightarrow> wc_auto_reconnect conn"
    using run_step.IH by (cases "wk_phase w") auto
  have "wk_phase w \<noteq> Phase_Exited" using run_step.hyps(2) by (auto simp: takes_def)
  with worker_step_effect [OF run_step.hyps(2,3) s, unfolded truthful_def] lost run_step.IH show ?case
    by (simp add: ball_Un) blast
qed

text \<open>C27: In every run of an account's worker, all events are about that account, and the events tell the
  truth about it. A running worker has a live session exactly when the last session event was a
  connect, and keeps running after a disconnect only if the account reconnects by itself. A worker that
  ended has told the domain that the session is lost, unless a command ended it.\<close>

theorem worker_lifecycle:
  assumes "worker_run L (worker_start conn) ins outs w"
  shows "(\<forall>ev \<in> set (emitted outs). ev_account ev = wc_account_id conn)
    \<and> (let session = session_of Session_Connecting (emitted outs) in
       case wk_phase w of
         Phase_Connecting \<Rightarrow> outs = []
       | Phase_Running \<Rightarrow> wk_session_live w = (session = Session_Online)
           \<and> (if session = Session_Lost then wc_auto_reconnect conn else True)
       | Phase_Exited \<Rightarrow> if ins \<noteq> [] \<and> is_command (last ins) then True else session = Session_Lost)"
  using worker_run_invariant [OF assms] by (auto simp: Let_def split: worker_phase.split)

definition demo_connection :: worker_connection where
  "demo_connection = \<lparr>wc_account_id = 1, wc_jid = lit ''alice@example.org'', wc_password = [],
     wc_server = lit ''example.org'', wc_auto_reconnect = True, wc_connect_strategy = ST_Direct,
     wc_proxy = None, wc_proxy_password = None\<rparr>"

definition demo_ready :: "(ustr \<times> ustr) ready_client" where
  "demo_ready = \<lparr>rc_client = Dialled (demo_addr 2) False, rc_pending_event = Some (Ev_Online (lit ''alice@example.org/desk'')
     \<lparr>sf_stream_management = True, sf_in_band_registration = False\<rparr> False)\<rparr>"

text \<open>A session that comes up and then loses its stream.\<close>

definition demo_inputs :: "(ustr \<times> ustr) worker_input list" where
  "demo_inputs = [W_Phase (Some (Inr demo_ready)) 0 0 5, W_Event None 0 0 9]"

lemma demo_worker_run:
  "\<exists>outs w. worker_run demo_parsers (worker_start demo_connection) demo_inputs outs w
     \<and> wk_phase w = Phase_Exited \<and> emitted outs = [Connected 1 {Cap_StreamManagement}, Disconnected 1 True None DK_NetworkLost]"
proof -
  let ?i = "W_Phase (Some (Inr demo_ready)) 0 0 5"
  obtain o1 w1 where s1: "worker_step demo_parsers (worker_start demo_connection) ?i = (o1, w1)" by fastforce
  then have w1: "wk_phase w1 = Phase_Running \<and> wk_account_id w1 = 1 \<and> emitted o1 = [Connected 1 {Cap_StreamManagement}]"
    by (auto simp: worker_step_def worker_start_def connecting_step_def demo_ready_def handle_client_event_def Let_def
        demo_connection_def after_action_def stream_capabilities_from_features_def demo_parsers_def)
  have "takes (worker_start demo_connection) ?i" by (simp add: takes_def worker_start_def)
  from run_step [OF run_start this s1] have r1: "worker_run demo_parsers (worker_start demo_connection) [?i] o1 w1"
    by simp
  obtain o2 w2 where s2: "worker_step demo_parsers w1 (W_Event None 0 0 9) = (o2, w2)" by fastforce
  then have "wk_phase w2 = Phase_Exited \<and> emitted o2 = [Disconnected 1 True None DK_NetworkLost]"
    using w1 by (auto simp: worker_step_def running_step_def exited_def)
  moreover have "takes w1 (W_Event None 0 0 9 :: (ustr \<times> ustr) worker_input)" using w1 by (simp add: takes_def)
  ultimately show ?thesis
    using run_step [OF r1 _ s2] w1 by (auto simp: demo_inputs_def intro!: exI [of _ "o1 @ o2"] exI [of _ w2])
qed

theorem worker_lifecycle_witness:
  "\<exists>outs w. worker_run demo_parsers (worker_start demo_connection) demo_inputs outs w
     \<and> session_of Session_Connecting (emitted outs) = Session_Lost"
proof -
  obtain outs w where run: "worker_run demo_parsers (worker_start demo_connection) demo_inputs outs w"
    and w: "wk_phase w = Phase_Exited"
    using demo_worker_run by blast
  have "\<not> is_command (last demo_inputs)" by (simp add: demo_inputs_def is_command_def)
  with worker_lifecycle [OF run] w have "session_of Session_Connecting (emitted outs) = Session_Lost"
    by (simp add: Let_def)
  with run show ?thesis by blast
qed

section \<open>A silent link\<close>

definition stale_notice :: "account_id \<Rightarrow> transport_event" where
  "stale_notice a = Disconnected a True (Some (lit ''no inbound data from the server for 3 minutes'')) DK_NetworkLost"

text \<open>Inputs that are not evidence of the server: commands to send, pings and watchdog ticks.\<close>

fun local_input :: "'e worker_input \<Rightarrow> bool" where
  "local_input (W_Send _ _) = True"
| "local_input W_Ping = True"
| "local_input (W_Watchdog _) = True"
| "local_input _ = False"

lemma silent_step:
  assumes "takes w i" and "local_input i" and "wk_phase w = Phase_Running" and "worker_step L w i = (new, w')"
  shows "wk_account_id w' = wk_account_id w \<and> wk_auto_reconnect w' = wk_auto_reconnect w
    \<and> wk_last_inbound w' = wk_last_inbound w
    \<and> (if \<exists>t. i = W_Watchdog t \<and> wk_last_inbound w + 180000 < t
       then wk_session_live w \<and> emitted new = [stale_notice (wk_account_id w)] \<and> \<not> wk_session_live w'
         \<and> wk_phase w' = (if wk_auto_reconnect w then Phase_Running else Phase_Exited)
       else emitted new = [] \<and> wk_session_live w' = wk_session_live w \<and> wk_phase w' = Phase_Running)"
proof (cases i)
  case (W_Send m out)
  then show ?thesis using assms
    by (cases "build_message_stanza L m") (auto simp: worker_step_def running_step_def send_message_def)
qed (use assms in \<open>auto simp: worker_step_def running_step_def takes_def is_inbound_stale_def INBOUND_STALE_TIMEOUT_def
    stale_notice_def exited_def Let_def split: if_splits\<close>)

text \<open>C36: A live session whose server has gone silent does not stay online: whatever is sent and pinged
  meanwhile, once the watchdog ticks more than three minutes after the last inbound data, the domain
  has been told that the network was lost, exactly once. The worker then waits for the reconnect if the
  account reconnects by itself, and has ended otherwise.\<close>

theorem silent_link_detected:
  assumes "worker_run L w ins outs w'" and "wk_phase w = Phase_Running" and "wk_session_live w"
    and "\<forall>i \<in> set ins. local_input i" and "W_Watchdog t \<in> set ins" and "wk_last_inbound w + 180000 < t"
  shows "emitted outs = [Disconnected (wk_account_id w) True
      (Some (lit ''no inbound data from the server for 3 minutes'')) DK_NetworkLost]
    \<and> \<not> wk_session_live w'
    \<and> wk_phase w' = (if wk_auto_reconnect w then Phase_Running else Phase_Exited)"
proof -
  have "wk_account_id w' = wk_account_id w \<and> wk_auto_reconnect w' = wk_auto_reconnect w
      \<and> wk_last_inbound w' = wk_last_inbound w
      \<and> (if \<exists>t. W_Watchdog t \<in> set ins \<and> wk_last_inbound w + 180000 < t
         then emitted outs = [stale_notice (wk_account_id w)] \<and> \<not> wk_session_live w'
           \<and> wk_phase w' = (if wk_auto_reconnect w then Phase_Running else Phase_Exited)
         else emitted outs = [] \<and> wk_session_live w' \<and> wk_phase w' = Phase_Running)"
    using assms(1,4)
  proof (induction rule: worker_run.induct)
    case run_start
    then show ?case using assms(2,3) by simp
  next
    case (run_step ins outs v i new v')
    have i: "local_input i" using run_step.prems by simp
    have running: "wk_phase v = Phase_Running"
      using run_step.hyps(2) run_step.IH run_step.prems by (auto simp: takes_def split: if_splits worker_phase.splits)
    from silent_step [OF run_step.hyps(2) i running run_step.hyps(3)] run_step.IH run_step.prems running
    show ?case by (auto split: if_splits)
  qed
  then show ?thesis using assms(5,6) by (auto simp: stale_notice_def split: if_splits)
qed

definition demo_live :: worker where
  "demo_live = (worker_start demo_connection)\<lparr>wk_phase := Phase_Running, wk_session_live := True, wk_last_inbound := 5\<rparr>"

theorem silent_link_detected_witness:
  "\<exists>outs w'. worker_run demo_parsers demo_live [W_Ping, W_Watchdog 180006] outs w'
     \<and> emitted outs = [Disconnected 1 True (Some (lit ''no inbound data from the server for 3 minutes'')) DK_NetworkLost]"
proof -
  obtain o1 w1 where s1: "worker_step demo_parsers demo_live W_Ping = (o1, w1)" by fastforce
  then have w1: "w1 = demo_live\<lparr>wk_ping_counter := 1\<rparr>"
    by (auto simp: worker_step_def running_step_def demo_live_def worker_start_def)
  have "takes demo_live (W_Ping :: (ustr \<times> ustr) worker_input)" by (simp add: takes_def demo_live_def)
  from run_step [OF run_start this s1] have r1: "worker_run demo_parsers demo_live [W_Ping] o1 w1" by simp
  obtain o2 w2 where s2: "worker_step demo_parsers w1 (W_Watchdog 180006) = (o2, w2)" by fastforce
  have "takes w1 (W_Watchdog 180006 :: (ustr \<times> ustr) worker_input)" by (simp add: takes_def demo_live_def w1)
  from run_step [OF r1 this s2] have run: "worker_run demo_parsers demo_live [W_Ping, W_Watchdog 180006] (o1 @ o2) w2"
    by simp
  have "emitted (o1 @ o2) = [Disconnected (wk_account_id demo_live) True
      (Some (lit ''no inbound data from the server for 3 minutes'')) DK_NetworkLost]"
    using silent_link_detected [OF run, where t = 180006] by (simp add: demo_live_def)
  with run show ?thesis by (auto simp: demo_live_def worker_start_def demo_connection_def)
qed

section \<open>Commands\<close>

definition replies :: "'e worker_output list \<Rightarrow> nat" where
  "replies outs = length (filter (\<lambda>out. case out of Reply _ \<Rightarrow> True | _ \<Rightarrow> False) outs)"

definition asks_reply :: "'e worker_input \<Rightarrow> bool" where
  "asks_reply i = (case i of W_Send _ _ \<Rightarrow> True | W_Disconnect _ \<Rightarrow> True | _ \<Rightarrow> False)"

lemma replies_simps [simp]:
  "replies [] = 0" "replies (Emit ev # outs) = replies outs" "replies (Transmit st # outs) = replies outs"
  "replies (Reply r # outs) = Suc (replies outs)" "replies (Close_Stream # outs) = replies outs"
  "replies (Request_Reconnect # outs) = replies outs" "replies (a @ b) = replies a + replies b"
  "replies (map Emit evs) = 0"
  by (simp_all add: replies_def)

lemma handle_no_reply: "handle_client_event L n1 n2 ev w = (outs, w', a) \<Longrightarrow> replies outs = 0"
  by (auto simp: handle_client_event_def handle_iq_def Let_def
      split: client_event.splits stanza.splits option.splits iq.splits if_splits)

text \<open>Every command that reaches a worker is answered exactly once.\<close>

lemma worker_answers:
  assumes "worker_run L w0 ins outs w"
  shows "replies outs = length (filter asks_reply ins)"
  using assms
proof (induction rule: worker_run.induct)
  case (run_step ins outs v i new v')
  have "replies new = (if asks_reply i then 1 else 0)"
    using run_step.hyps(2,3)
    by (auto simp: worker_step_def connecting_step_def running_step_def send_message_def asks_reply_def takes_def Let_def
        split: worker_input.splits worker_phase.splits option.splits sum.splits if_splits prod.splits
        dest: handle_no_reply)
  then show ?case using run_step.IH by simp
qed simp

end
