(* ===== verification/Core_Properties.thy ===== *)
theory Core_Properties
  imports Core_Snapshot Samples
begin

text \<open>
  What the core promises its callers: the properties of \<^verbatim>\<open>MindChatCore\<close>, each with a witness on the
  sample state.
\<close>

section \<open>Runs\<close>

text \<open>C7: Every state a new core reaches through its public operations, in any order, with any
  arguments and with the event queue drained at any time, is well formed: identifiers are unique,
  nothing refers to a removed value, stored texts are validated and no conversation is stored twice.
  The bound is that of the identifier counters, which start to wrap after \<open>2 ^ 64 - 2\<close> calls.\<close>

theorem reachable_core_wf:
  assumes "core_run n default_core log c" and "n < 2 ^ 64 - 2"
  shows "wf_core c"
  using run_wf [OF assms(1) wf_default] assms(2) by (simp add: budget_default)

theorem reachable_core_wf_witness:
  "wf_core (snd (perform (Call_open_conversation 1 CK_Direct jid_b [] 7)
     (snd (perform (Call_add_account demo_setup) default_core))))"
proof (rule reachable_core_wf)
  let ?c1 = "snd (perform (Call_add_account demo_setup) default_core)"
  have "core_run 1 default_core [] ?c1"
    using run_call [OF run_start, of "Call_add_account demo_setup"] by (metis One_nat_def prod.collapse)
  then show "core_run (Suc 1) default_core [] (snd (perform (Call_open_conversation 1 CK_Direct jid_b [] 7) ?c1))"
    by (rule run_call) (rule prod.collapse [symmetric])
qed simp

text \<open>C11: A call that returns an error has changed nothing: no table, no counter, no event.\<close>

theorem failed_call_changes_nothing:
  assumes "wf_core c" and "perform k c = (Inl e, d)"
  shows "d = c"
  using call.op_atomic [OF assms(1), of k e] assms(2) by simp

theorem failed_call_changes_nothing_witness:
  "snd (perform (Call_send_text 1 jid_a (lit ''hi'') (Some 9) 3) demo_core) = demo_core"
proof -
  let ?k = "Call_send_text 1 jid_a (lit ''hi'') (Some 9) 3"
  have "fst (perform ?k demo_core) = Inl (UnknownMessage 9)"
    by (simp add: outcome_def send_text_def check_reply_def ensure_conversation_def hm_contains_def demo_core_def)
  then show ?thesis
    using failed_call_changes_nothing [OF demo_wf, of ?k "UnknownMessage 9"] by (metis prod.collapse)
qed

text \<open>The events a client drains, followed by those still queued, are a log that only grows at
  its end: no event is lost, repeated or reordered by draining at any point of a run.\<close>

lemma event_log_append_only:
  assumes "core_run n c log d" and "core_run m d log' e"
  shows "\<exists>es. log @ log' @ core_events e = (log @ core_events d) @ es"
  using run_log_grows [OF assms(2)] by auto

section \<open>Snapshots\<close>

text \<open>C15: A core restored from the snapshot of a well-formed core is well formed (so the
  identifiers it hands out next are unused), shows the same snapshot and the same messages.\<close>

theorem snapshot_restores:
  assumes "wf_core c"
  shows "snapshot (from_snapshot (snapshot c)) = snapshot c \<and> wf_core (from_snapshot (snapshot c))
    \<and> hm_get (core_messages (from_snapshot (snapshot c))) = hm_get (core_messages c)"
  using restored_snapshot restored_wf restored_tables(4) assms by blast

theorem snapshot_restores_witness: "snapshot (from_snapshot (snapshot demo_core)) = snapshot demo_core"
  using snapshot_restores [OF demo_wf] by blast

section \<open>Conversations\<close>

text \<open>Opening a conversation is idempotent and never creates a second one for the same account,
  kind and address: after a successful call exactly one conversation has that key, its identifier is
  the one returned, and a repeated call with any title and time returns it and changes nothing.\<close>

lemma open_conversation_idempotent:
  assumes "wf_core c" and "headroom c" and "open_conversation c i k a t now = (Inr j, d)"
  shows "(\<forall>n. (\<exists>v. hm_get (core_conversations d) n = Some v \<and> conv_key v = (i, k, a)) \<longleftrightarrow> n = j)
    \<and> open_conversation d i k a t' now' = (Inr j, d)"
proof -
  have wfd: "wf_core d"
    using op_open.op_wf [OF assms(1,2), of i k a t now] assms(3) by simp
  have acc: "core_accounts d = core_accounts c"
    using assms(3) by (auto simp: open_conversation_def allocate_conversation_id_def Let_def
        split: try_q_splits option.splits if_splits)
  have ex: "\<exists>v. hm_get (core_conversations d) j = Some v \<and> conv_key v = (i, k, a)"
    using assms(3) find_conv_Some [OF assms(1), of i k a]
    by (auto simp: open_conversation_def allocate_conversation_id_def Let_def
        split: try_q_splits option.splits if_splits)
  then have uniq: "(\<exists>v. hm_get (core_conversations d) n = Some v \<and> conv_key v = (i, k, a)) \<longleftrightarrow> n = j" for n
    using wf_conv_unique [OF wfd] by metis
  obtain w where w: "find (conv_matches i k a) (hm_values (core_conversations d)) = Some w"
    using ex find_conv_None [OF wfd, of i k a] by blast
  then have "cv_id w = j"
    using find_conv_Some [OF wfd w] uniq [of "cv_id w"] by blast
  with w have "open_conversation d i k a t' now' = (Inr j, d)"
    using assms(3) acc by (auto simp: open_conversation_def split: try_q_splits if_splits)
  with uniq show ?thesis by blast
qed

text \<open>A deletion by the conversations of the account: their messages go, and a reaction goes with its
  message.\<close>

lemma delete_account_lookups:
  assumes "wf_core c" and "delete_account c i = (Inr u, d)"
  shows "hm_get (core_accounts d) = (hm_get (core_accounts c))(i := None)"
    and "hm_get (core_contacts d) = (\<lambda>(j, a). if j = i then None else hm_get (core_contacts c) (j, a))"
    and "hm_get (core_conversations d) n =
      (if n \<in> set (account_conv_ids c i) then None else hm_get (core_conversations c) n)"
    and "hm_get (core_messages d) k = Some m \<longleftrightarrow>
      hm_get (core_messages c) k = Some m \<and> msg_conversation_id m \<notin> set (account_conv_ids c i)"
    and "hm_get (core_reactions d) q = Some r \<longleftrightarrow> hm_get (core_reactions c) q = Some r
      \<and> (\<forall>j \<in> set (account_conv_ids c i). rx_message_id r \<notin> conv_msg_ids c j)"
proof -
  let ?ids = "account_conv_ids c i"
  have d: "d = push_event (AccountChanged i) ((foldl remove_conversation_state c ?ids)\<lparr>
      core_contacts := hm_retain (\<lambda>k _. fst k \<noteq> i) (core_contacts c), core_accounts := hm_remove i (core_accounts c)\<rparr>)"
    using assms(2) by (auto simp: delete_account_def Let_def split: if_splits)
  show "hm_get (core_accounts d) = (hm_get (core_accounts c))(i := None)" by (simp add: d)
  show "hm_get (core_contacts d) = (\<lambda>(j, a). if j = i then None else hm_get (core_contacts c) (j, a))"
    using wf_hm_ok(2) [OF assms(1)] by (auto simp: d hm.get_ret fun_eq_iff split: option.splits)
  show "hm_get (core_conversations d) n = (if n \<in> set ?ids then None else hm_get (core_conversations c) n)"
    by (simp add: d hm_remove_all_get del: set_map)
  show "hm_get (core_messages d) k = Some m \<longleftrightarrow> hm_get (core_messages c) k = Some m \<and> msg_conversation_id m \<notin> set ?ids"
    using foldl_remove_conv_message [OF assms(1), of ?ids k m] by (simp add: d del: set_map)
  show "hm_get (core_reactions d) q = Some r \<longleftrightarrow> hm_get (core_reactions c) q = Some r
      \<and> (\<forall>j \<in> set ?ids. rx_message_id r \<notin> conv_msg_ids c j)"
    using foldl_remove_conv_reaction [OF assms(1), of ?ids q r] by (simp add: d del: set_map)
qed

lemma deleted_reaction:
  assumes "wf_core c" and "delete_account c i = (Inr u, d)" and "hm_get (core_reactions c) q = Some r"
  shows "hm_get (core_messages d) (rx_message_id r) \<noteq> None \<longleftrightarrow>
    (\<forall>j \<in> set (account_conv_ids c i). rx_message_id r \<notin> conv_msg_ids c j)"
proof -
  obtain w where w: "hm_get (core_messages c) (rx_message_id r) = Some w"
    using wf_reaction(3) [OF assms(1,3)] by blast
  then have gone: "hm_get (core_messages d) (rx_message_id r) \<noteq> None \<longleftrightarrow> msg_conversation_id w \<notin> set (account_conv_ids c i)"
    using delete_account_lookups(4) [OF assms(1,2), of "rx_message_id r"] by (metis not_None_eq option.inject)
  have own: "rx_message_id r \<in> conv_msg_ids c j \<longleftrightarrow> j = msg_conversation_id w" for j
    using w by (auto simp: conv_msg_ids_def)
  show ?thesis unfolding gone own by blast
qed

text \<open>C17: Deleting an account removes exactly what it owns: the account, its contacts, its
  conversations, their messages and the reactions on those; every other value stays as it was.\<close>

theorem delete_account_cascade:
  assumes "wf_core c" and "delete_account c i = (Inr u, d)"
  shows "hm_get (core_accounts d) = (hm_get (core_accounts c))(i := None)
    \<and> hm_get (core_contacts d) = (\<lambda>(j, a). if j = i then None else hm_get (core_contacts c) (j, a))
    \<and> (\<forall>n v. hm_get (core_conversations d) n = Some v \<longleftrightarrow>
          hm_get (core_conversations c) n = Some v \<and> cv_account_id v \<noteq> i)
    \<and> (\<forall>k m. hm_get (core_messages d) k = Some m \<longleftrightarrow> hm_get (core_messages c) k = Some m
          \<and> (\<exists>v. hm_get (core_conversations c) (msg_conversation_id m) = Some v \<and> cv_account_id v \<noteq> i))
    \<and> (\<forall>q r. hm_get (core_reactions d) q = Some r \<longleftrightarrow> hm_get (core_reactions c) q = Some r
          \<and> hm_get (core_messages d) (rx_message_id r) \<noteq> None)"
proof -
  note tables = delete_account_lookups [OF assms] and ids = account_conv_ids_iff [OF assms(1)]
  have "hm_get (core_conversations d) n = Some v \<longleftrightarrow> hm_get (core_conversations c) n = Some v \<and> cv_account_id v \<noteq> i" for n v
    unfolding tables(3) ids by auto
  moreover have "hm_get (core_messages d) k = Some m \<longleftrightarrow> hm_get (core_messages c) k = Some m
      \<and> (\<exists>v. hm_get (core_conversations c) (msg_conversation_id m) = Some v \<and> cv_account_id v \<noteq> i)" for k m
    unfolding tables(4) ids using wf_message(3) [OF assms(1), of k m] by auto
  moreover have "hm_get (core_reactions d) q = Some r \<longleftrightarrow> hm_get (core_reactions c) q = Some r
      \<and> hm_get (core_messages d) (rx_message_id r) \<noteq> None" for q r
    using deleted_reaction [OF assms, of q r] tables(5) [of q r] by blast
  ultimately show ?thesis using tables(1,2) by (intro conjI allI)
qed

theorem delete_account_cascade_witness:
  "hm_get (core_messages (snd (delete_account demo_core 1))) 1 = None"
proof -
  have "delete_account demo_core 1 = (Inr (), snd (delete_account demo_core 1))"
    by (simp add: delete_account_def hm_contains_def demo_core_def Let_def)
  note cascade = delete_account_cascade [OF demo_wf this, THEN conjunct2, THEN conjunct2, THEN conjunct2, THEN conjunct1, rule_format]
  have "cv_account_id v = 1" if "hm_get (core_conversations demo_core) n = Some v" for n v
    using that by (auto simp: demo_defs split: if_splits)
  with cascade show ?thesis by (meson not_None_eq)
qed

text \<open>Deleting a conversation removes exactly the conversation, its messages and the reactions on
  them, and tells the interface once.\<close>

lemma delete_conversation_cascade:
  assumes "wf_core c" and "delete_conversation c i = (Inr u, d)"
  shows "core_accounts d = core_accounts c \<and> core_contacts d = core_contacts c
    \<and> hm_get (core_conversations d) = (hm_get (core_conversations c))(i := None)
    \<and> (\<forall>k m. hm_get (core_messages d) k = Some m \<longleftrightarrow>
          hm_get (core_messages c) k = Some m \<and> msg_conversation_id m \<noteq> i)
    \<and> (\<forall>q r. hm_get (core_reactions d) q = Some r \<longleftrightarrow> hm_get (core_reactions c) q = Some r
          \<and> hm_get (core_messages d) (rx_message_id r) \<noteq> None)
    \<and> core_events d = core_events c @ [ConversationChanged i]"
proof -
  have d: "d = push_event (ConversationChanged i) (remove_conversation_state c i)"
    using assms(2) by (auto simp: delete_conversation_def split: if_splits)
  have "hm_get (core_reactions d) q = Some r \<longleftrightarrow> hm_get (core_reactions c) q = Some r
      \<and> hm_get (core_messages d) (rx_message_id r) \<noteq> None" for q r
    using wf_reaction(3) [OF assms(1), of q r]
    by (auto simp: d remove_conv_reaction [OF assms(1)] remove_conversation_tables(10) [OF assms(1)])
  then show ?thesis
    by (simp add: d remove_conv_message [OF assms(1)])
qed

end
