(* ===== verification/Core_Delivery.thy ===== *)
theory Core_Delivery
  imports Core_Properties
begin

text \<open>
  The promises about messages: sending, receiving, receipts, and the queue of outgoing messages that
  the coordinator flushes.
\<close>

section \<open>Sending and receiving\<close>

text \<open>When \<^verbatim>\<open>send_text\<close> succeeds, and what it stores.\<close>

definition sendable :: "mindchat_core \<Rightarrow> conversation_id \<Rightarrow> ustr \<Rightarrow> message_id option \<Rightarrow> bool" where
  "sendable c i b rep \<longleftrightarrow> hm_get (core_conversations c) i \<noteq> None \<and> body_ok (trim b) \<and>
     (\<forall>r. rep = Some r \<longrightarrow> (\<exists>w. hm_get (core_messages c) r = Some w \<and> msg_conversation_id w = i))"

definition queued_message ::
  "message_id \<Rightarrow> conversation_id \<Rightarrow> ustr \<Rightarrow> ustr \<Rightarrow> message_id option \<Rightarrow> u64 \<Rightarrow> message" where
  "queued_message n i s b rep now = \<lparr>msg_id = n, msg_conversation_id = i, msg_sender = s,
     msg_body = trim b, msg_direction = MD_Outgoing, msg_kind = MK_Text, msg_sent_at_epoch_ms = now,
     msg_delivery_state = DS_Pending, msg_in_reply_to = rep, msg_attachment = None\<rparr>"

text \<open>C16: Sending a text succeeds exactly when the conversation exists, the trimmed body is not empty
  and at most 16384 characters long, and a reply names a message of the same conversation. Then the
  trimmed text is queued as pending under an identifier no message had, every other message is as
  before, and the interface hears of the conversation first and of the message second.\<close>

theorem send_text_spec:
  assumes "wf_core c"
  shows "(\<exists>n d. send_text c i s b rep now = (Inr n, d)) = sendable c i b rep
    \<and> (\<forall>n d. send_text c i s b rep now = (Inr n, d) \<longrightarrow>
         hm_get (core_messages c) n = None
       \<and> hm_get (core_messages d) = (hm_get (core_messages c))(n \<mapsto> queued_message n i s b rep now)
       \<and> core_events d = core_events c @ [ConversationChanged i, MessageAdded n])"
proof -
  have ens: "ensure_conversation c i = Inr () \<longleftrightarrow> hm_get (core_conversations c) i \<noteq> None" by auto
  have rep: "check_reply c i rep = Inr () \<longleftrightarrow>
      (\<forall>r. rep = Some r \<longrightarrow> (\<exists>w. hm_get (core_messages c) r = Some w \<and> msg_conversation_id w = i))"
    by (auto simp: check_reply_def split: option.splits)
  have fresh: "hm_get (core_messages c) (max (next_message_id c) 1) = None"
    using assms alloc_id_fresh [of msg_id "next_message_id c" "core_messages c"]
    by (simp add: wf_core_def tables_ok_def alloc_id_def Let_def)
  have "send_text c i s b rep now = (Inr n, d) \<Longrightarrow> sendable c i b rep" for n d
    by (auto simp: send_text_def sendable_def validate_body_Inr split: try_q_splits dest: check_reply_Inr)
  moreover have "\<exists>n d. send_text c i s b rep now = (Inr n, d)" if ok: "sendable c i b rep"
  proof -
    have "check_reply c i rep = Inr ()" "validate_body b = Inr (trim b)"
      using ok unfolding ens rep by (auto simp: sendable_def validate_body_Inr)
    moreover obtain v where "hm_get (core_conversations c) i = Some v"
      using ok by (auto simp: sendable_def)
    ultimately show ?thesis
      by (simp add: send_text_def allocate_message_id_def Let_def touch_unfold ensure_conversation_def hm_contains_def)
  qed
  moreover have "hm_get (core_messages c) n = None
       \<and> hm_get (core_messages d) = (hm_get (core_messages c))(n \<mapsto> queued_message n i s b rep now)
       \<and> core_events d = core_events c @ [ConversationChanged i, MessageAdded n]"
    if "send_text c i s b rep now = (Inr n, d)" for n d
    using that fresh
    by (auto simp: send_text_def allocate_message_id_def Let_def touch_unfold queued_message_def
        validate_body_Inr split: try_q_splits)
  ultimately show ?thesis by blast
qed

theorem send_text_spec_witness:
  "\<exists>n d. send_text demo_core 1 jid_a (lit ''hi'') (Some 2) 8 = (Inr n, d)"
proof -
  have "sendable demo_core 1 (lit ''hi'') (Some 2)"
    using demo_text(2) by (simp add: sendable_def demo_defs body_ok_def trimmed_def)
  with send_text_spec [OF demo_wf, of 1 jid_a "lit ''hi''" "Some 2" 8] show ?thesis by blast
qed

text \<open>The conversation table once an incoming text has been counted.\<close>

definition received_message ::
  "message_id \<Rightarrow> conversation_id \<Rightarrow> ustr \<Rightarrow> ustr \<Rightarrow> u64 \<Rightarrow> message" where
  "received_message n i s b now = \<lparr>msg_id = n, msg_conversation_id = i, msg_sender = s,
     msg_body = trim b, msg_direction = MD_Incoming, msg_kind = MK_Text, msg_sent_at_epoch_ms = now,
     msg_delivery_state = DS_Delivered, msg_in_reply_to = None, msg_attachment = None\<rparr>"

lemma receive_text_effect:
  assumes "hm_get (core_conversations c) i = Some v" and "body_ok (trim b)"
  shows "\<exists>d. receive_text c i s b now = (Inr (max (next_message_id c) 1), d)
    \<and> hm_get (core_messages d) = (hm_get (core_messages c))(max (next_message_id c) 1 \<mapsto>
        received_message (max (next_message_id c) 1) i s b now)
    \<and> hm_get (core_conversations d) = (hm_get (core_conversations c))(i \<mapsto>
        v\<lparr>cv_last_activity_epoch_ms := now, cv_unread_count := saturating_inc (cv_unread_count v)\<rparr>)"
  using assms
  by (simp add: receive_text_def allocate_message_id_def Let_def touch_unfold received_message_def
      ensure_conversation_def hm_contains_def validate_body_def body_ok_def trimmed_def not_less)

text \<open>The conversation that an incoming text goes to: the one there is, or a new one beside the others.\<close>

lemma inbound_conversation_frame:
  assumes "wf_core c" and "inbound_conversation c i k a now = (j, d)"
  shows "(\<forall>j'. j' \<noteq> j \<longrightarrow> hm_get (core_conversations d) j' = hm_get (core_conversations c) j')
    \<and> (case hm_get (core_conversations c) j of
         Some w \<Rightarrow> conv_key w = (i, k, a) \<and> d = c
       | None \<Rightarrow> (\<forall>j' w. hm_get (core_conversations c) j' = Some w \<longrightarrow> conv_key w \<noteq> (i, k, a))
           \<and> (\<forall>v. hm_get (core_conversations d) j = Some v \<longrightarrow> cv_unread_count v = 0))"
proof (cases "find (conv_matches i k a) (hm_values (core_conversations c))")
  case None
  then have "hm_get (core_conversations c) j = None"
    using assms alloc_id_fresh [of cv_id "next_conversation_id c" "core_conversations c"]
    by (auto simp: inbound_conversation_def wf_core_def tables_ok_def alloc_id_def Let_def)
  then show ?thesis
    using None assms find_conv_None [OF assms(1) None] by (auto simp: inbound_conversation_def)
next
  case (Some v)
  then show ?thesis
    using assms find_conv_Some [OF assms(1) Some] by (auto simp: inbound_conversation_def)
qed

text \<open>C8: A text delivered by the transport for a configured account, from a valid address and with a
  valid body is stored exactly once, in the one conversation of that account, kind and address: the one
  that was there, or else a new one, so that there is never a second. That conversation counts one more unread message
  without wrapping; every other conversation is left alone. Bodies that are empty or too long are refused and leave no
  conversation behind.\<close>

theorem transport_text_spec:
  assumes "wf_core c" and "headroom c" and "hm_contains (core_accounts c) i" and "bare_jid a"
    and "receive_transport_text c i k a s b now = (r, d)"
  shows "if body_ok (trim b)
    then (\<exists>n j v. r = Inr (Some n) \<and> hm_get (core_messages c) n = None
        \<and> hm_get (core_messages d) = (hm_get (core_messages c))(n \<mapsto> received_message n j s b now)
        \<and> hm_get (core_conversations d) j = Some v \<and> conv_key v = (i, k, a)
        \<and> (\<forall>j' w. hm_get (core_conversations d) j' = Some w \<and> conv_key w = (i, k, a) \<longrightarrow> j' = j)
        \<and> (\<forall>j'. j' \<noteq> j \<longrightarrow> hm_get (core_conversations d) j' = hm_get (core_conversations c) j')
        \<and> (case hm_get (core_conversations c) j of
             Some w \<Rightarrow> conv_key w = (i, k, a) \<and> cv_unread_count v = saturating_inc (cv_unread_count w)
           | None \<Rightarrow> (\<forall>j' w. hm_get (core_conversations c) j' = Some w \<longrightarrow> conv_key w \<noteq> (i, k, a))
               \<and> cv_unread_count v = 1))
    else is_err r \<and> d = c"
proof (cases "validate_body b")
  case (Inl e)
  then have "\<not> body_ok (trim b)"
    by (auto simp: validate_body_errors body_ok_def trimmed_def)
  with assms(3-5) Inl show ?thesis by (auto simp: receive_transport_unfold)
next
  case (Inr t)
  then have ok: "body_ok (trim b)" by (simp add: validate_body_Inr)
  obtain j e where je: "inbound_conversation c i k a now = (j, e)" by fastforce
  note props = inbound_conversation_props [OF assms(1-4) je]
  note frame = inbound_conversation_frame [OF assms(1) je]
  obtain v where v: "hm_get (core_conversations e) j = Some v" "conv_key v = (i, k, a)"
    using props(4) by blast
  let ?n = "max (next_message_id c) 1"
  let ?v = "v\<lparr>cv_last_activity_epoch_ms := now, cv_unread_count := saturating_inc (cv_unread_count v)\<rparr>"
  obtain f where f: "receive_text e j s b now = (Inr ?n, f)"
    "hm_get (core_messages f) = (hm_get (core_messages c))(?n \<mapsto> received_message ?n j s b now)"
    "hm_get (core_conversations f) = (hm_get (core_conversations e))(j \<mapsto> ?v)"
    using receive_text_effect [OF v(1) ok, of s now] props(2,3) by auto
  have d: "r = Inr (Some ?n)" "d = f"
    using assms(3-5) Inr je f(1) by (simp_all add: receive_transport_unfold)
  have wf: "wf_core d"
    using op_transport_text.op_wf [OF assms(1,2), of i k a s b now] assms(5) by simp
  obtain w where w: "w = ?v" by blast
  have key: "hm_get (core_conversations d) j = Some w" "conv_key w = (i, k, a)"
    using f(3) v(2) d(2) w by (simp_all add: conv_key_def)
  have one: "\<forall>j' u. hm_get (core_conversations d) j' = Some u \<and> conv_key u = (i, k, a) \<longrightarrow> j' = j"
    using wf_conv_unique [OF wf _ key(1)] key(2) by auto
  have others: "\<forall>j'. j' \<noteq> j \<longrightarrow> hm_get (core_conversations d) j' = hm_get (core_conversations c) j'"
    using frame f(3) d(2) by simp
  have counted: "case hm_get (core_conversations c) j of
      Some u \<Rightarrow> conv_key u = (i, k, a) \<and> cv_unread_count w = saturating_inc (cv_unread_count u)
    | None \<Rightarrow> (\<forall>j' u. hm_get (core_conversations c) j' = Some u \<longrightarrow> conv_key u \<noteq> (i, k, a)) \<and> cv_unread_count w = 1"
    using frame v(1) w by (cases "hm_get (core_conversations c) j") (simp_all add: saturating_inc_def)
  have stored: "hm_get (core_messages c) ?n = None"
    "hm_get (core_messages d) = (hm_get (core_messages c))(?n \<mapsto> received_message ?n j s b now)"
    using assms(1) alloc_id_fresh [of msg_id "next_message_id c" "core_messages c"] d f(2)
    by (simp_all add: wf_core_def tables_ok_def alloc_id_def Let_def)
  show ?thesis
    unfolding if_P [OF ok]
    using d(1) stored key one others counted by (intro exI conjI)
qed

theorem transport_text_spec_witness:
  "\<exists>n j v d. receive_transport_text demo_core 1 CK_Direct jid_r jid_r (lit ''hi'') 9 = (Inr (Some n), d)
    \<and> hm_get (core_conversations d) j = Some v \<and> conv_key v = (1, CK_Direct, jid_r)"
proof -
  obtain r d where rd: "receive_transport_text demo_core 1 CK_Direct jid_r jid_r (lit ''hi'') 9 = (r, d)" by fastforce
  have "hm_contains (core_accounts demo_core) 1"
    by (simp add: hm_contains_def demo_core_def)
  note spec = transport_text_spec [OF demo_wf demo_headroom this sample_bare(3) rd]
  have "body_ok (trim (lit ''hi''))"
    using demo_text(2) by (simp add: body_ok_def trimmed_def)
  note found = spec [unfolded if_P [OF this]]
  obtain n j v where "r = Inr (Some n)" "hm_get (core_conversations d) j = Some v" "conv_key v = (1, CK_Direct, jid_r)"
    using found by (elim exE conjE) (rule that)
  then show ?thesis using rd by blast
qed

section \<open>Receipts\<close>

text \<open>The message a receipt is entitled to change: an outgoing one in the direct chat of this account
  with the sender of the receipt, in a weaker state than the receipt reports.\<close>

definition receipt_target ::
  "mindchat_core \<Rightarrow> account_id \<Rightarrow> ustr \<Rightarrow> message_id \<Rightarrow> delivery_state \<Rightarrow> message option" where
  "receipt_target c i s n st =
     (case hm_get (core_messages c) n of
        None \<Rightarrow> None
      | Some m \<Rightarrow> (case hm_get (core_conversations c) (msg_conversation_id m) of
          None \<Rightarrow> None
        | Some v \<Rightarrow>
            if hm_contains (core_accounts c) i \<and> bare_jid s \<and> msg_direction m = MD_Outgoing
              \<and> conv_key v = (i, CK_Direct, s) \<and> delivery_rank (msg_delivery_state m) < delivery_rank st
            then Some m else None))"

lemma apply_delivery_update_effect:
  "apply_delivery_update c i s n st = (case receipt_target c i s n st of
      None \<Rightarrow> (Inr False, c)
    | Some m \<Rightarrow> (Inr True, push_event (MessageChanged n)
        (c\<lparr>core_messages := hm_insert n (m\<lparr>msg_delivery_state := st\<rparr>) (core_messages c)\<rparr>)))"
proof -
  have jid: "is_err (validate_jid s) \<longleftrightarrow> \<not> bare_jid s" by (simp add: validate_jid_cases)
  show ?thesis
    by (simp add: apply_delivery_update_def receipt_target_def set_delivery_state_def
        jid conv_key_def split: option.splits)
qed

lemma receipt_event:
  "snd (apply_transport_event c (DeliveryUpdated i s n st)) = snd (apply_delivery_update c i s n st)"
  by (simp add: apply_transport_event_def apply_delivery_update_effect split: option.splits)

text \<open>C10: A receipt changes the delivery state of its target message and nothing else; a receipt that
  is stale, repeated, malformed, for an unknown message, from another account or from someone else
  than the recipient changes nothing at all. It is never an error.\<close>

theorem receipt_spec:
  "apply_transport_event c (DeliveryUpdated i s n st) =
     (Inr None, case receipt_target c i s n st of
        None \<Rightarrow> c
      | Some m \<Rightarrow> push_event (MessageChanged n)
          (c\<lparr>core_messages := hm_insert n (m\<lparr>msg_delivery_state := st\<rparr>) (core_messages c)\<rparr>))"
  by (simp add: apply_transport_event_def apply_delivery_update_effect split: option.splits)

lemma receipt_target_Some:
  "receipt_target c i s n st = Some m \<Longrightarrow> hm_get (core_messages c) n = Some m
     \<and> delivery_rank (msg_delivery_state m) < delivery_rank st
     \<and> (\<exists>v. hm_get (core_conversations c) (msg_conversation_id m) = Some v \<and> cv_account_id v = i)"
  by (auto simp: receipt_target_def conv_key_def split: option.splits if_splits)

text \<open>The part of a message no transport event may change.\<close>

definition message_content :: "message \<Rightarrow> message" where
  "message_content m = m\<lparr>msg_delivery_state := DS_Pending\<rparr>"

lemma account_events_keep_messages:
  "\<not> is_IncomingText ev \<Longrightarrow> \<not> is_DeliveryUpdated ev \<Longrightarrow> core_messages (snd (apply_transport_event c ev)) = core_messages c
      \<and> core_conversations (snd (apply_transport_event c ev)) = core_conversations c"
  by (cases ev) (auto simp: apply_transport_event_def set_capabilities_def modify_account_def
      sync_roster_contact_def remove_contact_def update_contact_presence_def Let_def
      split: option.splits try_q_splits)

lemma transport_text_messages:
  assumes "wf_core c" and "headroom c"
  shows "hm_get (core_messages (snd (receive_transport_text c i k a s b now))) = hm_get (core_messages c)
    \<or> (\<exists>n m. hm_get (core_messages c) n = None \<and>
        hm_get (core_messages (snd (receive_transport_text c i k a s b now))) = (hm_get (core_messages c))(n \<mapsto> m))"
proof (cases "hm_contains (core_accounts c) i \<and> bare_jid a \<and> (\<exists>t. validate_body b = Inr t)")
  case True
  obtain j e where je: "inbound_conversation c i k a now = (j, e)" by fastforce
  have jok: "hm_contains (core_accounts c) i" "bare_jid a" "body_ok (trim b)"
    using True by (auto simp: validate_body_Inr)
  note props = inbound_conversation_props [OF assms jok(1,2) je]
  obtain v where v: "hm_get (core_conversations e) j = Some v" using props(4) by blast
  have "hm_get (core_messages c) (max (next_message_id c) 1) = None"
    using assms(1) alloc_id_fresh [of msg_id "next_message_id c" "core_messages c"]
    by (simp add: wf_core_def tables_ok_def alloc_id_def Let_def)
  moreover have "snd (receive_transport_text c i k a s b now) = snd (receive_text e j s b now)"
    using True je by (auto simp: receive_transport_unfold)
  ultimately show ?thesis
    using receive_text_effect [OF v jok(3), of s now] props(2,3) by (metis snd_conv)
next
  case False
  then have "snd (receive_transport_text c i k a s b now) = c"
    by (auto simp: receive_transport_unfold split: sum.splits)
  then show ?thesis by simp
qed

text \<open>C12: No transport event, whatever the server sends, removes a message, changes its text or moves
  its delivery state backwards.\<close>

theorem transport_never_regresses:
  assumes "wf_core c" and "headroom c" and "apply_transport_event c ev = (r, d)"
    and "hm_get (core_messages c) n = Some m"
  shows "\<exists>m'. hm_get (core_messages d) n = Some m' \<and> message_content m' = message_content m
    \<and> delivery_rank (msg_delivery_state m) \<le> delivery_rank (msg_delivery_state m')"
proof (cases "is_DeliveryUpdated ev")
  case True
  then obtain j s k st where ev: "ev = DeliveryUpdated j s k st" by (cases ev) auto
  show ?thesis
    using assms(3) [THEN arg_cong [where f = snd]] assms(4) receipt_target_Some [of c j s k st]
    by (auto simp: ev receipt_event apply_delivery_update_effect message_content_def split: option.splits)
next
  case False
  have "hm_get (core_messages d) = hm_get (core_messages c) \<or>
      (\<exists>k w. hm_get (core_messages c) k = None \<and> hm_get (core_messages d) = (hm_get (core_messages c))(k \<mapsto> w))"
  proof (cases "is_IncomingText ev")
    case True
    then obtain j k a s b now where "ev = IncomingText j k a s b now" by (cases ev) auto
    then show ?thesis
      using transport_text_messages [OF assms(1,2), of j k a s b now] assms(3)
      by (simp add: apply_transport_event_def)
  next
    case no: False
    then show ?thesis
      using account_events_keep_messages [of ev c] False assms(3) by auto
  qed
  then show ?thesis using assms(4) by auto
qed

theorem transport_never_regresses_witness:
  "\<exists>m'. hm_get (core_messages (snd (apply_transport_event demo_core (DeliveryUpdated 1 jid_b 3 DS_Read)))) 3 = Some m'
     \<and> delivery_rank DS_Failed \<le> delivery_rank (msg_delivery_state m')"
proof -
  have "hm_get (core_messages demo_core) 3 = Some (demo_message 3 1 MD_Outgoing DS_Failed (Some 2))"
    by (simp add: demo_core_def)
  from transport_never_regresses [OF demo_wf demo_headroom prod.collapse [symmetric] this]
  show ?thesis by (auto simp: demo_message_def)
qed

section \<open>The outgoing queue\<close>

lemma outgoing_of_id: "outgoing_of c i m = Some out \<Longrightarrow> om_message_id out = msg_id m"
  by (auto simp: outgoing_of_def split: option.splits if_splits)

lemma map_filter_ids:
  assumes "\<And>x y. f x = Some y \<Longrightarrow> g y = h x"
  shows "map g (List.map_filter f xs) = map h (filter (\<lambda>x. f x \<noteq> None) xs)"
  using assms by (induction xs) (auto simp: List.map_filter_def)

lemma map_filter_set: "set (List.map_filter f xs) = {y. \<exists>x \<in> set xs. f x = Some y}"
  by (force simp: List.map_filter_def)

text \<open>The queue of an account lists exactly its outgoing messages that are pending or failed,
  each once, with the address and kind of their conversation, by increasing identifier; it does not
  depend on the iteration order of the message table.\<close>

lemma pending_queue_spec:
  assumes "wf_core c" and "pending_outgoing_messages c i = Inr out"
  shows "sorted (map om_message_id out) \<and> distinct (map om_message_id out)
    \<and> set out = {o'. \<exists>k m. hm_get (core_messages c) k = Some m \<and> is_pending m \<and> outgoing_of c i m = Some o'}"
proof -
  let ?ms = "filter is_pending (hm_values (core_messages c))"
  have out: "out = sort_key om_message_id (List.map_filter (outgoing_of c i) ?ms)"
    using assms(2) by (simp add: pending_outgoing_messages_def split: if_splits)
  have "distinct (map msg_id (filter (\<lambda>m. outgoing_of c i m \<noteq> None) ?ms))"
    using keyed_values [OF wf_keyed(4) [OF assms(1)]] by (simp add: distinct_map_filter)
  then have "distinct (map om_message_id (List.map_filter (outgoing_of c i) ?ms))"
    by (simp add: map_filter_ids [where h = msg_id, OF outgoing_of_id])
  then have "distinct (map om_message_id out)"
    by (simp add: out distinct_map)
  moreover have "set out = {o'. \<exists>k m. hm_get (core_messages c) k = Some m \<and> is_pending m \<and> outgoing_of c i m = Some o'}"
    using hm.vals_iff [OF wf_hm_ok(4) [OF assms(1)]] by (auto simp: out map_filter_set)
  ultimately show ?thesis by (simp add: out)
qed

text \<open>The same queue, spelled out over the tables.\<close>

definition queue_of :: "mindchat_core \<Rightarrow> account_id \<Rightarrow> outgoing_message set" where
  "queue_of c i = {\<lparr>om_account_id = i, om_conversation_id = msg_conversation_id m, om_message_id = k,
       om_kind = cv_kind v, om_recipient = cv_address v, om_body = msg_body m, om_in_reply_to = msg_in_reply_to m\<rparr> | k m v.
     hm_get (core_messages c) k = Some m \<and> msg_direction m = MD_Outgoing \<and> msg_delivery_state m \<in> {DS_Pending, DS_Failed}
     \<and> hm_get (core_conversations c) (msg_conversation_id m) = Some v \<and> cv_account_id v = i}"

lemma pending_queue_of:
  assumes "wf_core c" and "pending_outgoing_messages c i = Inr out"
  shows "set out = queue_of c i"
proof -
  have ids: "hm_get (core_messages c) k = Some m \<Longrightarrow> msg_id m = k"
    "hm_get (core_conversations c) j = Some v \<Longrightarrow> cv_id v = j" for k m j v
    using wf_message(1) [OF assms(1)] wf_conversation(1) [OF assms(1)] by blast+
  show ?thesis
    using pending_queue_spec [OF assms] ids
    by (auto simp: queue_of_def is_pending_def outgoing_of_def split: option.splits) (fastforce split: if_splits)+
qed

definition demo_out :: "message_id \<Rightarrow> outgoing_message" where
  "demo_out n = (if n = 1
     then \<lparr>om_account_id = 1, om_conversation_id = 2, om_message_id = 1, om_kind = CK_MultiUserChat,
        om_recipient = jid_r, om_body = lit ''hi'', om_in_reply_to = None\<rparr>
     else \<lparr>om_account_id = 1, om_conversation_id = 1, om_message_id = 3, om_kind = CK_Direct,
        om_recipient = jid_b, om_body = lit ''hi'', om_in_reply_to = Some 2\<rparr>)"

lemma demo_pending: "pending_outgoing_messages demo_core 1 = Inr [demo_out 1, demo_out 3]"
proof -
  have le: "((3 :: u64) \<le> 1) = False" by (simp add: word_le_nat_alt)
  show ?thesis
    by (simp add: le demo_out_def pending_outgoing_messages_def hm_contains_def demo_defs hm_values_def
        is_pending_def outgoing_of_def List.map_filter_def)
qed

section \<open>Isolation of accounts\<close>

lemma receive_text_other_tables:
  "core_accounts (snd (receive_text c i s b now)) = core_accounts c"
  "core_contacts (snd (receive_text c i s b now)) = core_contacts c"
  "n \<noteq> i \<Longrightarrow> hm_get (core_conversations (snd (receive_text c i s b now))) n = hm_get (core_conversations c) n"
  by (auto simp: receive_text_def allocate_message_id_def Let_def touch_unfold split: try_q_splits)

lemma inbound_conversation_tables:
  assumes "wf_core c" and "inbound_conversation c i k a now = (j, e)"
  shows "core_accounts e = core_accounts c" and "core_contacts e = core_contacts c"
    and "hm_get (core_conversations c) n = Some v \<Longrightarrow> cv_account_id v \<noteq> i \<Longrightarrow>
      n \<noteq> j \<and> hm_get (core_conversations e) n = Some v"
proof -
  show "core_accounts e = core_accounts c" "core_contacts e = core_contacts c"
    using assms(2) by (auto simp: inbound_conversation_def split: option.splits)
  assume v: "hm_get (core_conversations c) n = Some v" "cv_account_id v \<noteq> i"
  show "n \<noteq> j \<and> hm_get (core_conversations e) n = Some v"
  proof (cases "find (conv_matches i k a) (hm_values (core_conversations c))")
    case None
    have "hm_get (core_conversations c) (max (next_conversation_id c) 1) = None"
      using assms(1) alloc_id_fresh [of cv_id "next_conversation_id c" "core_conversations c"]
      by (simp add: wf_core_def tables_ok_def alloc_id_def Let_def)
    with v(1) have "n \<noteq> max (next_conversation_id c) 1" by auto
    then show ?thesis using None assms(2) v(1) by (auto simp: inbound_conversation_def)
  next
    case (Some w)
    from find_conv_Some [OF assms(1) Some] have "cv_id w \<noteq> n"
      using v by (auto simp: conv_key_def)
    then show ?thesis using Some assms(2) v(1) by (auto simp: inbound_conversation_def)
  qed
qed

lemma transport_text_other_tables:
  assumes "wf_core c"
  shows "core_accounts (snd (receive_transport_text c i k a s b now)) = core_accounts c"
    and "core_contacts (snd (receive_transport_text c i k a s b now)) = core_contacts c"
    and "hm_get (core_conversations c) n = Some v \<Longrightarrow> cv_account_id v \<noteq> i \<Longrightarrow>
      hm_get (core_conversations (snd (receive_transport_text c i k a s b now))) n = Some v"
proof -
  obtain j e where je: "inbound_conversation c i k a now = (j, e)" by fastforce
  note tabs = inbound_conversation_tables [OF assms je]
  show "core_accounts (snd (receive_transport_text c i k a s b now)) = core_accounts c"
    "core_contacts (snd (receive_transport_text c i k a s b now)) = core_contacts c"
    by (simp_all add: receive_transport_unfold je receive_text_other_tables tabs split: sum.splits)
  show "hm_get (core_conversations c) n = Some v \<Longrightarrow> cv_account_id v \<noteq> i \<Longrightarrow>
      hm_get (core_conversations (snd (receive_transport_text c i k a s b now))) n = Some v"
    using tabs(3) [of n v] by (simp add: receive_transport_unfold je receive_text_other_tables split: sum.splits)
qed

lemma account_events_isolated:
  assumes "\<not> is_IncomingText ev" and "\<not> is_DeliveryUpdated ev" and "j \<noteq> ev_account ev"
  shows "hm_get (core_accounts (snd (apply_transport_event c ev))) j = hm_get (core_accounts c) j"
    and "hm_get (core_contacts (snd (apply_transport_event c ev))) (j, a) = hm_get (core_contacts c) (j, a)"
  using assms
  by (cases ev; auto simp: apply_transport_event_def set_capabilities_def modify_account_def
      sync_roster_contact_def remove_contact_def update_contact_presence_def Let_def
      split: option.splits try_q_splits)+

text \<open>C13: A transport event of one account leaves every other account alone: its record, its contacts,
  its conversations and the messages in them.\<close>

theorem transport_event_isolated:
  assumes "wf_core c" and "headroom c" and "apply_transport_event c ev = (r, d)" and "j \<noteq> ev_account ev"
  shows "hm_get (core_accounts d) j = hm_get (core_accounts c) j
    \<and> hm_get (core_contacts d) (j, a) = hm_get (core_contacts c) (j, a)
    \<and> (\<forall>n v. hm_get (core_conversations c) n = Some v \<and> cv_account_id v = j \<longrightarrow>
         hm_get (core_conversations d) n = Some v
         \<and> (\<forall>k m. hm_get (core_messages c) k = Some m \<and> msg_conversation_id m = n \<longrightarrow>
              hm_get (core_messages d) k = Some m))"
proof -
  have d: "d = snd (apply_transport_event c ev)" using assms(3) by simp
  consider (chat) i k b s t now where "ev = IncomingText i k b s t now"
    | (rcpt) i s n st where "ev = DeliveryUpdated i s n st"
    | (other) "\<not> is_IncomingText ev" "\<not> is_DeliveryUpdated ev"
    by (cases ev) auto
  then show ?thesis
  proof cases
    case chat
    then have j: "j \<noteq> i" and dd: "d = snd (receive_transport_text c i k b s t now)"
      using assms(4) d by (simp_all add: apply_transport_event_def)
    have keep: "hm_get (core_messages d) q = Some m" if "hm_get (core_messages c) q = Some m" for q m
      using transport_text_messages [OF assms(1,2), of i k b s t now] that by (auto simp: dd)
    show ?thesis
      using j keep transport_text_other_tables [OF assms(1), where i = i and k = k and a = b and s = s and b = t and now = now]
      by (simp add: dd)
  next
    case rcpt
    then have dd: "d = (case receipt_target c i s n st of None \<Rightarrow> c
      | Some m \<Rightarrow> push_event (MessageChanged n)
          (c\<lparr>core_messages := hm_insert n (m\<lparr>msg_delivery_state := st\<rparr>) (core_messages c)\<rparr>))"
      and j: "j \<noteq> i"
      using assms(4) d by (simp_all add: receipt_event apply_delivery_update_effect split: option.splits)
    then show ?thesis
      using receipt_target_Some [of c i s n st] by (auto split: option.splits)
  next
    case other
    then show ?thesis
      using account_events_isolated [OF other assms(4)] account_events_keep_messages [OF other] by (simp add: d)
  qed
qed

theorem transport_event_isolated_witness:
  "hm_get (core_contacts (snd (apply_transport_event demo_core (RosterContactRemoved 2 jid_b)))) (1, jid_b) = Some demo_contact"
proof -
  have "(1 :: u64) \<noteq> ev_account (RosterContactRemoved 2 jid_b)" by simp
  from transport_event_isolated [OF demo_wf demo_headroom prod.collapse [symmetric] this]
  show ?thesis by (simp add: demo_core_def)
qed

end
