(* ===== verification/Coordinator.thy ===== *)
theory Coordinator
  imports Core_Delivery
begin

text \<open>
  \<^verbatim>\<open>TransportCoordinator\<close> (\<^verbatim>\<open>lib.rs\<close>): a core beside a transport. The transport is a parameter, the
  record of the four operations of the trait \<^verbatim>\<open>XmppTransport\<close> on a state of its own. The clock of
  \<^verbatim>\<open>flush_outbox\<close> is a parameter too: \<open>elapsed k\<close> is what \<^verbatim>\<open>started.elapsed()\<close> returns, in
  milliseconds, before the message at position \<open>k\<close>.
\<close>

section \<open>Definitions\<close>

record 't transport_coordinator =
  tc_core :: mindchat_core
  tc_transport :: 't

type_synonym ('t, 'a) coordinator_result = "(coordinator_error + 'a) \<times> 't transport_coordinator"

definition FLUSH_SEND_TIMEOUT :: nat where
  "FLUSH_SEND_TIMEOUT = 4000"

definition FLUSH_OUTBOX_MAX_BATCH :: nat where
  "FLUSH_OUTBOX_MAX_BATCH = 16"

text \<open>\<^verbatim>\<open>self.core.operation(...)?\<close>: the new core is kept, an error is wrapped by \<^verbatim>\<open>From\<close>.\<close>

definition on_core ::
  "'a core_result \<Rightarrow> 't transport_coordinator \<Rightarrow> ('a \<Rightarrow> 't transport_coordinator \<Rightarrow> ('t, 'b) coordinator_result)
    \<Rightarrow> ('t, 'b) coordinator_result" where
  "on_core p s k =
     (let s1 = s\<lparr>tc_core := snd p\<rparr>
      in (case fst p of Inl e \<Rightarrow> (Inl (CE_Core e), s1) | Inr a \<Rightarrow> k a s1))"

definition connect_with_proxy ::
  "'t xmpp_transport \<Rightarrow> 't transport_coordinator \<Rightarrow> account_id \<Rightarrow> secret_string \<Rightarrow> proxy_config option
    \<Rightarrow> secret_string option \<Rightarrow> ('t, unit) coordinator_result" where
  "connect_with_proxy X s account_id password proxy proxy_password =
     (case hm_get (core_accounts (tc_core s)) account_id of
        None \<Rightarrow> (Inl (CE_Core (UnknownAccount account_id)), s)
      | Some account \<Rightarrow>
          let request = \<lparr>cr_account_id = account_id, cr_jid = acct_jid account,
                cr_server = acct_server account, cr_password = password,
                cr_auto_reconnect = acct_auto_reconnect account, cr_proxy = proxy,
                cr_proxy_password = proxy_password\<rparr>
          in on_core (set_connection_state (tc_core s) account_id CS_Connecting) s (\<lambda>_ s1.
               let (r, t) = tr_connect X (tc_transport s1) request;
                   s2 = s1\<lparr>tc_transport := t\<rparr>
               in (case r of
                     Inl e \<Rightarrow> on_core (set_connection_state (tc_core s2) account_id CS_Failed) s2
                                (\<lambda>_ s3. (Inl (CE_Transport e), s3))
                   | Inr _ \<Rightarrow> (Inr (), s2))))"

definition tc_connect ::
  "'t xmpp_transport \<Rightarrow> 't transport_coordinator \<Rightarrow> account_id \<Rightarrow> secret_string \<Rightarrow> ('t, unit) coordinator_result" where
  "tc_connect X s account_id password = connect_with_proxy X s account_id password None None"

definition tc_disconnect ::
  "'t xmpp_transport \<Rightarrow> 't transport_coordinator \<Rightarrow> account_id \<Rightarrow> ('t, unit) coordinator_result" where
  "tc_disconnect X s account_id =
     (let (r, t) = tr_disconnect X (tc_transport s) account_id;
          s1 = s\<lparr>tc_transport := t\<rparr>
      in (case r of
            Inl e \<Rightarrow> (Inl (CE_Transport e), s1)
          | Inr _ \<Rightarrow> on_core (apply_transport_event (tc_core s1) (Disconnected account_id True None DK_Cancelled)) s1
                       (\<lambda>_ s2. (Inr (), s2))))"

text \<open>The loop of \<^verbatim>\<open>flush_outbox\<close>; every iteration that does not leave it sends one message, so
  \<open>sent_count\<close> is the iteration's position as well.\<close>

fun flush_loop ::
  "'t xmpp_transport \<Rightarrow> (nat \<Rightarrow> nat) \<Rightarrow> nat \<Rightarrow> outgoing_message list \<Rightarrow> 't transport_coordinator
    \<Rightarrow> ('t, nat) coordinator_result" where
  "flush_loop X elapsed sent_count [] s = (Inr sent_count, s)"
| "flush_loop X elapsed sent_count (message # rest) s =
     (if FLUSH_SEND_TIMEOUT \<le> elapsed sent_count then (Inr sent_count, s)
      else
        let message_id = om_message_id message;
            (r, t) = tr_send X (tc_transport s) message;
            s1 = s\<lparr>tc_transport := t\<rparr>
        in (case r of
              Inl e \<Rightarrow> on_core (set_delivery_state (tc_core s1) message_id DS_Failed) s1
                         (\<lambda>_ s2. (Inl (CE_Transport e), s2))
            | Inr _ \<Rightarrow> on_core (set_delivery_state (tc_core s1) message_id DS_Sent) s1
                         (\<lambda>_ s2. flush_loop X elapsed (sent_count + 1) rest s2)))"

definition flush_outbox ::
  "'t xmpp_transport \<Rightarrow> (nat \<Rightarrow> nat) \<Rightarrow> 't transport_coordinator \<Rightarrow> account_id \<Rightarrow> ('t, nat) coordinator_result" where
  "flush_outbox X elapsed s account_id =
     (case pending_outgoing_messages (tc_core s) account_id of
        Inl e \<Rightarrow> (Inl (CE_Core e), s)
      | Inr pending \<Rightarrow> flush_loop X elapsed 0 (take FLUSH_OUTBOX_MAX_BATCH pending) s)"

definition poll_next_event ::
  "'t xmpp_transport \<Rightarrow> 't transport_coordinator \<Rightarrow> ('t, bool) coordinator_result" where
  "poll_next_event X s =
     (let (r, t) = tr_next_event X (tc_transport s);
          s1 = s\<lparr>tc_transport := t\<rparr>
      in (case r of
            Inl e \<Rightarrow> (Inl (CE_Transport e), s1)
          | Inr None \<Rightarrow> (Inr False, s1)
          | Inr (Some event) \<Rightarrow> on_core (apply_transport_event (tc_core s1) event) s1 (\<lambda>_ s2. (Inr True, s2))))"

text \<open>The loop of \<^verbatim>\<open>poll_transport_events\<close>, by the number of events it may still consume.\<close>

fun poll_loop ::
  "'t xmpp_transport \<Rightarrow> nat \<Rightarrow> nat \<Rightarrow> 't transport_coordinator \<Rightarrow> ('t, nat) coordinator_result" where
  "poll_loop X 0 processed s = (Inr processed, s)"
| "poll_loop X (Suc left) processed s =
     (case poll_next_event X s of
        (Inr True, s1) \<Rightarrow> poll_loop X left (processed + 1) s1
      | (Inl (CE_Core _), s1) \<Rightarrow> poll_loop X left (processed + 1) s1
      | (Inr False, s1) \<Rightarrow> (Inr processed, s1)
      | (Inl (CE_Transport e), s1) \<Rightarrow> (Inl (CE_Transport e), s1))"

definition poll_transport_events ::
  "'t xmpp_transport \<Rightarrow> 't transport_coordinator \<Rightarrow> nat \<Rightarrow> ('t, nat) coordinator_result" where
  "poll_transport_events X s max_events = poll_loop X max_events 0 s"

section \<open>Polling\<close>

text \<open>What the transport hands out in up to \<open>n\<close> polls: the events, the failure of the channel if it
  ended the series, and the transport's state after it.\<close>

fun pulled :: "'t xmpp_transport \<Rightarrow> nat \<Rightarrow> 't \<Rightarrow> transport_event list \<times> transport_error option \<times> 't" where
  "pulled X 0 t = ([], None, t)"
| "pulled X (Suc n) t =
     (case tr_next_event X t of
        (Inl e, t1) \<Rightarrow> ([], Some e, t1)
      | (Inr None, t1) \<Rightarrow> ([], None, t1)
      | (Inr (Some ev), t1) \<Rightarrow> (case pulled X n t1 of (evs, f, t2) \<Rightarrow> (ev # evs, f, t2)))"

definition project :: "mindchat_core \<Rightarrow> transport_event list \<Rightarrow> mindchat_core" where
  "project c evs = foldl (\<lambda>c ev. snd (apply_transport_event c ev)) c evs"

lemma project_simps [simp]:
  "project c [] = c" "project c (ev # evs) = project (snd (apply_transport_event c ev)) evs"
  by (simp_all add: project_def)

lemma poll_loop_pulled:
  "poll_loop X n p s = (case pulled X n (tc_transport s) of (evs, f, t) \<Rightarrow>
     (case f of None \<Rightarrow> Inr (p + length evs) | Some e \<Rightarrow> Inl (CE_Transport e),
      s\<lparr>tc_core := project (tc_core s) evs, tc_transport := t\<rparr>))"
proof (induction n arbitrary: p s)
  case (Suc n)
  obtain r t where rt: "tr_next_event X (tc_transport s) = (r, t)" by fastforce
  obtain evs f t2 where pl: "pulled X n t = (evs, f, t2)" by (metis prod_cases3)
  show ?case
    using rt pl Suc.IH
    by (auto simp: poll_next_event_def on_core_def Let_def split: sum.splits option.splits)
qed simp

section \<open>Flushing\<close>

text \<open>The same for sending: the messages handed over, the one refused with its error, and the
  transport's state.\<close>

fun send_run ::
  "'t xmpp_transport \<Rightarrow> (nat \<Rightarrow> nat) \<Rightarrow> nat \<Rightarrow> outgoing_message list \<Rightarrow> 't
    \<Rightarrow> outgoing_message list \<times> (outgoing_message \<times> transport_error) option \<times> 't" where
  "send_run X elapsed n [] t = ([], None, t)"
| "send_run X elapsed n (m # ms) t =
     (if FLUSH_SEND_TIMEOUT \<le> elapsed n then ([], None, t)
      else (case tr_send X t m of
              (Inl e, t1) \<Rightarrow> ([], Some (m, e), t1)
            | (Inr _, t1) \<Rightarrow> (case send_run X elapsed (n + 1) ms t1 of (ss, f, t2) \<Rightarrow> (m # ss, f, t2))))"

definition mark :: "delivery_state \<Rightarrow> mindchat_core \<Rightarrow> outgoing_message \<Rightarrow> mindchat_core" where
  "mark st c m = snd (set_delivery_state c (om_message_id m) st)"

definition mark_run :: "mindchat_core \<Rightarrow> outgoing_message list \<Rightarrow> (outgoing_message \<times> 'e) option \<Rightarrow> mindchat_core" where
  "mark_run c ss f = (let c1 = foldl (mark DS_Sent) c ss in
     case f of None \<Rightarrow> c1 | Some (m, _) \<Rightarrow> mark DS_Failed c1 m)"

lemma mark_get:
  "hm_get (core_messages (mark st c m)) k =
     map_option (\<lambda>w. if k = om_message_id m then w\<lparr>msg_delivery_state := st\<rparr> else w) (hm_get (core_messages c) k)"
  by (cases "hm_get (core_messages c) k") (auto simp: mark_def set_delivery_state_def split: try_q_splits)

lemma mark_other:
  "core_accounts (mark st c m) = core_accounts c" "core_conversations (mark st c m) = core_conversations c"
  "core_contacts (mark st c m) = core_contacts c"
  by (auto simp: mark_def set_delivery_state_def split: try_q_splits)

lemma marks_get:
  "hm_get (core_messages (foldl (mark st) c ss)) k =
     map_option (\<lambda>w. if k \<in> om_message_id ` set ss then w\<lparr>msg_delivery_state := st\<rparr> else w) (hm_get (core_messages c) k)"
  by (induction ss arbitrary: c) (auto simp: mark_get option.map_comp comp_def map_option.identity intro!: option.map_cong)

lemma set_delivery_known:
  "hm_get (core_messages c) (om_message_id m) \<noteq> None \<Longrightarrow>
     set_delivery_state c (om_message_id m) st = (Inr (), mark st c m)"
  by (auto simp: mark_def set_delivery_state_def)

lemma flush_loop_run:
  assumes "\<forall>m \<in> set ms. hm_get (core_messages (tc_core s)) (om_message_id m) \<noteq> None"
  shows "flush_loop X el n ms s = (case send_run X el n ms (tc_transport s) of (ss, f, t) \<Rightarrow>
    (case f of None \<Rightarrow> Inr (n + length ss) | Some (_, e) \<Rightarrow> Inl (CE_Transport e),
     s\<lparr>tc_core := mark_run (tc_core s) ss f, tc_transport := t\<rparr>))"
  using assms
proof (induction ms arbitrary: n s)
  case Nil
  then show ?case by (simp add: mark_run_def)
next
  case (Cons m ms)
  obtain r t where rt: "tr_send X (tc_transport s) m = (r, t)" by fastforce
  note known = set_delivery_known [of "tc_core s" m]
  show ?case
  proof (cases r)
    case (Inl e)
    with rt Cons.prems known show ?thesis
      by (simp add: on_core_def Let_def mark_run_def)
  next
    case (Inr u)
    let ?s = "s\<lparr>tc_transport := t, tc_core := mark DS_Sent (tc_core s) m\<rparr>"
    have "\<forall>m \<in> set ms. hm_get (core_messages (tc_core ?s)) (om_message_id m) \<noteq> None"
      using Cons.prems by (simp add: mark_get)
    from Cons.IH [OF this, of "n + 1"] rt Inr Cons.prems known show ?thesis
      by (auto simp: on_core_def Let_def mark_run_def split: prod.splits option.splits)
  qed
qed

lemma send_run_prefix:
  assumes "send_run X el n ms t = (ss, f, t')"
  shows "length ss \<le> length ms \<and> ss = take (length ss) ms
    \<and> (case f of
         None \<Rightarrow> ss = ms \<or> FLUSH_SEND_TIMEOUT \<le> el (n + length ss)
       | Some (m, e) \<Rightarrow> length ss < length ms \<and> m = ms ! length ss)"
  using assms
proof (induction ms arbitrary: n ss t f t')
  case (Cons m ms)
  obtain r t1 where rt: "tr_send X t m = (r, t1)" by fastforce
  obtain qs g t2 where run: "send_run X el (n + 1) ms t1 = (qs, g, t2)" by (metis prod_cases3)
  from Cons.IH [OF run] Cons.prems rt run show ?case
    by (auto split: if_splits sum.splits option.splits)
qed simp

section \<open>A transport with an event queue\<close>

text \<open>
  What the coordinator relies on when it drains a transport in a valid state: polling keeps the state
  valid, hands out the queued events in order, one at a time, and adds none.
\<close>

locale event_source =
  fixes next_event :: "'t \<Rightarrow> (transport_error + transport_event option) \<times> 't"
    and queued :: "'t \<Rightarrow> transport_event list"
    and valid :: "'t \<Rightarrow> bool"
  assumes next_valid: "valid t \<Longrightarrow> valid (snd (next_event t))"
    and next_nil: "valid t \<Longrightarrow> queued t = [] \<Longrightarrow>
      fst (next_event t) = Inr None \<and> queued (snd (next_event t)) = []"
    and next_cons: "valid t \<Longrightarrow> queued t = ev # q \<Longrightarrow>
      fst (next_event t) = Inr (Some ev) \<and> queued (snd (next_event t)) = q"
begin

lemma pulled_queue:
  assumes "tr_next_event X = next_event" and "valid t"
  shows "\<exists>t'. pulled X n t = (take n (queued t), None, t') \<and> queued t' = drop n (queued t) \<and> valid t'"
  using assms(2)
proof (induction n arbitrary: t)
  case (Suc n)
  note v = next_valid [OF Suc.prems]
  show ?case
  proof (cases "queued t")
    case Nil
    obtain t1 where "next_event t = (Inr None, t1)" "queued t1 = []"
      using next_nil [OF Suc.prems Nil] by (metis prod.collapse)
    with Nil v show ?thesis by (simp add: assms(1))
  next
    case (Cons ev q)
    obtain t1 where t1: "next_event t = (Inr (Some ev), t1)" "queued t1 = q"
      using next_cons [OF Suc.prems Cons] by (metis prod.collapse)
    with v have "valid t1" by simp
    from Suc.IH [OF this] t1 Cons show ?thesis by (auto simp: assms(1))
  qed
qed simp

text \<open>A poll consumes as many events as it may, in order, and projects each of them; it cannot fail.\<close>

lemma poll_drains:
  assumes "tr_next_event X = next_event" and "valid (tc_transport s)"
  shows "\<exists>t'. poll_transport_events X s n =
      (Inr (min n (length (queued (tc_transport s)))),
       s\<lparr>tc_core := project (tc_core s) (take n (queued (tc_transport s))), tc_transport := t'\<rparr>)
    \<and> queued t' = drop n (queued (tc_transport s)) \<and> valid t'"
proof -
  obtain t' where "pulled X n (tc_transport s) = (take n (queued (tc_transport s)), None, t')"
    "queued t' = drop n (queued (tc_transport s))" "valid t'"
    using pulled_queue [OF assms] by blast
  then show ?thesis
    by (intro exI [of _ t']) (simp add: poll_transport_events_def poll_loop_pulled min.commute)
qed

end

section \<open>What the coordinator promises\<close>

text \<open>C14: Polling takes events from the transport in order, up to the bound, and projects every one of
  them: an event whose application is an error is skipped and the events behind it are still applied.
  Only a failure of the channel itself ends the series early, after the events before it have been
  applied, and is the only error.\<close>

theorem poll_transport_events_spec:
  "poll_transport_events X s n = (case pulled X n (tc_transport s) of (evs, f, t) \<Rightarrow>
     (case f of None \<Rightarrow> Inr (length evs) | Some e \<Rightarrow> Inl (CE_Transport e),
      s\<lparr>tc_core := project (tc_core s) evs, tc_transport := t\<rparr>))"
  by (simp add: poll_transport_events_def poll_loop_pulled split: prod.split option.split)

lemma project_wf:
  assumes "wf_core c" and "budget c + length evs < 2 ^ 64 - 1"
  shows "wf_core (project c evs) \<and> budget (project c evs) \<le> budget c + length evs"
  using assms
proof (induction evs arbitrary: c)
  case (Cons ev evs)
  have "wf_core (snd (apply_transport_event c ev))"
    using op_event.op_wf_bounded Cons.prems by simp
  moreover have b: "budget (snd (apply_transport_event c ev)) \<le> budget c + 1"
    by (rule op_event.op_budget)
  ultimately show ?case
    using Cons.IH [of "snd (apply_transport_event c ev)"] Cons.prems(2) by auto
qed simp

lemma pulled_bound: "pulled X n t = (evs, f, t') \<Longrightarrow> length evs \<le> n"
  by (induction n arbitrary: t evs f t') (auto split: prod.splits sum.splits option.splits)

text \<open>A transport whose state is the list of the events it will deliver, and whose sends all fail.\<close>

definition list_transport :: "transport_event list xmpp_transport" where
  "list_transport = \<lparr>tr_connect = (\<lambda>t _. (Inr (), t)), tr_disconnect = (\<lambda>t _. (Inr (), t)),
     tr_send = (\<lambda>t _. (Inl (TE_ConnectionFailed []), t)),
     tr_next_event = (\<lambda>t. case t of [] \<Rightarrow> (Inr None, []) | ev # q \<Rightarrow> (Inr (Some ev), q))\<rparr>"

definition demo_session :: "transport_event list transport_coordinator" where
  "demo_session = \<lparr>tc_core = demo_core,
     tc_transport = [IncomingText 1 CK_Direct jid_b jid_b [] 7, DeliveryUpdated 1 jid_b 3 DS_Read]\<rparr>"

lemma demo_budget: "budget demo_core = 4"
  by (simp add: budget_def demo_core_def)

text \<open>A flush of a queue is a run of sends over its first messages.\<close>

lemma pending_known:
  assumes "wf_core c" and "pending_outgoing_messages c i = Inr out" and "m \<in> set out"
  shows "hm_get (core_messages c) (om_message_id m) \<noteq> None"
proof -
  obtain k w where w: "hm_get (core_messages c) k = Some w" "outgoing_of c i w = Some m"
    using assms hm.vals_iff [OF wf_hm_ok(4) [OF assms(1)]]
    by (auto simp: pending_outgoing_messages_def map_filter_set split: if_splits)
  then show ?thesis using outgoing_of_id [OF w(2)] wf_message(1) [OF assms(1) w(1)] by simp
qed

lemma flush_outbox_run:
  assumes "wf_core (tc_core s)" and "pending_outgoing_messages (tc_core s) i = Inr out"
    and "send_run X el 0 (take 16 out) (tc_transport s) = (ss, f, t)"
  shows "flush_outbox X el s i = (case f of None \<Rightarrow> Inr (length ss) | Some (_, e) \<Rightarrow> Inl (CE_Transport e),
     s\<lparr>tc_core := mark_run (tc_core s) ss f, tc_transport := t\<rparr>)"
proof -
  have "\<forall>m \<in> set (take 16 out). hm_get (core_messages (tc_core s)) (om_message_id m) \<noteq> None"
    using pending_known [OF assms(1,2)] by (blast dest: in_set_takeD)
  from flush_loop_run [OF this, of X el 0] show ?thesis
    using assms(2,3) by (auto simp: flush_outbox_def FLUSH_OUTBOX_MAX_BATCH_def split: option.splits)
qed

lemma mark_run_get:
  "hm_get (core_messages (mark_run c ss f)) k = map_option (\<lambda>w.
     if \<exists>m e. f = Some (m, e) \<and> om_message_id m = k then w\<lparr>msg_delivery_state := DS_Failed\<rparr>
     else if k \<in> om_message_id ` set ss then w\<lparr>msg_delivery_state := DS_Sent\<rparr> else w) (hm_get (core_messages c) k)"
  by (cases f; cases "hm_get (core_messages c) k") (auto simp: mark_run_def marks_get mark_get)

text \<open>C9: Flushing hands over the first messages of the account's queue in identifier order, at most 16
  of them, and stops early only when four seconds have passed or the transport refuses a message. The queue is
  exactly the outgoing messages of the account that are pending or failed, each once. Exactly the messages handed
  over become sent, exactly the refused one becomes failed, and every other message keeps its state; the call reports
  the number sent or the refusal. The one other way to end is an unknown account, which changes nothing.\<close>

theorem flush_outbox_spec:
  assumes "wf_core (tc_core s)" and "flush_outbox X el s i = (r, s')"
  shows "if \<not> hm_contains (core_accounts (tc_core s)) i then r = Inl (CE_Core (UnknownAccount i)) \<and> s' = s
    else \<exists>out ss f. sorted (map om_message_id out) \<and> distinct (map om_message_id out)
    \<and> set out = queue_of (tc_core s) i
    \<and> send_run X el 0 (take 16 out) (tc_transport s) = (ss, f, tc_transport s')
    \<and> length ss \<le> 16 \<and> ss = take (length ss) out
    \<and> (case f of
         None \<Rightarrow> r = Inr (length ss) \<and> (length ss = min 16 (length out) \<or> 4000 \<le> el (length ss))
       | Some (m, e) \<Rightarrow> r = Inl (CE_Transport e) \<and> length ss < 16 \<and> length ss < length out \<and> m = out ! length ss)
    \<and> (\<forall>k. hm_get (core_messages (tc_core s')) k = map_option (\<lambda>w.
         if \<exists>m e. f = Some (m, e) \<and> om_message_id m = k then w\<lparr>msg_delivery_state := DS_Failed\<rparr>
         else if k \<in> om_message_id ` set ss then w\<lparr>msg_delivery_state := DS_Sent\<rparr> else w)
           (hm_get (core_messages (tc_core s)) k))"
proof (cases "pending_outgoing_messages (tc_core s) i")
  case (Inl e)
  then show ?thesis
    using assms(2) by (auto simp: flush_outbox_def pending_outgoing_messages_def split: if_splits)
next
  case (Inr out)
  then have known: "\<not> \<not> hm_contains (core_accounts (tc_core s)) i"
    by (auto simp: pending_outgoing_messages_def split: if_splits)
  obtain ss f t where run: "send_run X el 0 (take 16 out) (tc_transport s) = (ss, f, t)" by (metis prod_cases3)
  note flush = flush_outbox_run [OF assms(1) Inr run]
  have res: "r = (case f of None \<Rightarrow> Inr (length ss) | Some (_, e) \<Rightarrow> Inl (CE_Transport e))"
    and s': "s' = s\<lparr>tc_core := mark_run (tc_core s) ss f, tc_transport := t\<rparr>"
    using assms(2) unfolding flush by simp_all
  note pre = send_run_prefix [OF run]
  have ss: "length ss \<le> 16" "ss = take (length ss) out"
    using pre by (simp_all add: min_def split: if_splits)
  have stop: "case f of
         None \<Rightarrow> r = Inr (length ss) \<and> (length ss = min 16 (length out) \<or> 4000 \<le> el (length ss))
       | Some (m, e) \<Rightarrow> r = Inl (CE_Transport e) \<and> length ss < 16 \<and> length ss < length out \<and> m = out ! length ss"
    using pre res by (auto simp: FLUSH_SEND_TIMEOUT_def min.commute split: option.splits)
  show ?thesis
    unfolding if_not_P [OF known]
    using run ss stop pending_queue_spec [OF assms(1) Inr] pending_queue_of [OF assms(1) Inr]
    by (intro exI [of _ out] exI [of _ ss] exI [of _ f]) (simp add: s' mark_run_get)
qed

theorem flush_outbox_spec_witness:
  "\<exists>out ss f. set out = queue_of demo_core 1 \<and> sorted (map om_message_id out)
     \<and> send_run list_transport (\<lambda>_. 0) 0 (take 16 out) (tc_transport demo_session)
         = (ss, f, tc_transport (snd (flush_outbox list_transport (\<lambda>_. 0) demo_session 1)))"
proof -
  have known: "\<not> \<not> hm_contains (core_accounts (tc_core demo_session)) 1" and wf: "wf_core (tc_core demo_session)"
    by (simp_all add: demo_session_def demo_wf) (simp add: hm_contains_def demo_core_def)
  obtain r s' where rs: "flush_outbox list_transport (\<lambda>_. 0) demo_session 1 = (r, s')" by fastforce
  have "tc_core demo_session = demo_core"
    by (simp add: demo_session_def)
  with flush_outbox_spec [OF wf rs, unfolded if_not_P [OF known]] show ?thesis
    unfolding rs snd_conv by (elim exE conjE) (intro exI conjI, simp_all)
qed

text \<open>Connecting an unknown account does nothing. Otherwise the transport gets one request with the
  account's JID, server and reconnect flag and the credentials of the call, and the core becomes
  connecting, or failed when the transport refuses: the credentials leave no trace in the core, whose
  new state depends on them only through that refusal.\<close>

lemma connect_effect:
  "connect_with_proxy X s i pw px pxpw =
     (case hm_get (core_accounts (tc_core s)) i of
        None \<Rightarrow> (Inl (CE_Core (UnknownAccount i)), s)
      | Some a \<Rightarrow> (case tr_connect X (tc_transport s)
            \<lparr>cr_account_id = i, cr_jid = acct_jid a, cr_server = acct_server a, cr_password = pw,
             cr_auto_reconnect = acct_auto_reconnect a, cr_proxy = px, cr_proxy_password = pxpw\<rparr> of
          (Inr _, t) \<Rightarrow> (Inr (), s\<lparr>tc_core := snd (set_connection_state (tc_core s) i CS_Connecting), tc_transport := t\<rparr>)
        | (Inl e, t) \<Rightarrow> (Inl (CE_Transport e),
            s\<lparr>tc_core := snd (set_connection_state (snd (set_connection_state (tc_core s) i CS_Connecting)) i CS_Failed),
              tc_transport := t\<rparr>)))"
proof -
  have known: "fst (set_connection_state c i st) = Inr ()
      \<and> hm_get (core_accounts (snd (set_connection_state c i st))) i \<noteq> None"
    if "hm_get (core_accounts c) i \<noteq> None" for c st
    using that by (auto simp: set_connection_state_def modify_account_def Let_def)
  show ?thesis
  proof (cases "hm_get (core_accounts (tc_core s)) i")
    case (Some a)
    let ?c = "snd (set_connection_state (tc_core s) i CS_Connecting)"
    have "fst (set_connection_state (tc_core s) i CS_Connecting) = Inr ()"
      and "fst (set_connection_state ?c i CS_Failed) = Inr ()"
      using known [of "tc_core s" CS_Connecting] known [of ?c CS_Failed] Some by auto
    then show ?thesis
      using Some by (auto simp: connect_with_proxy_def on_core_def Let_def split: sum.splits prod.splits)
  qed (simp add: connect_with_proxy_def)
qed

end
