(* ===== verification/Xmpp_Transport.thy ===== *)
theory Xmpp_Transport
  imports Xmpp_Session Coordinator
begin

text \<open>
  \<^verbatim>\<open>TokioXmppTransport\<close> (\<^verbatim>\<open>xmpp.rs\<close>): the workers of all accounts behind the trait \<^verbatim>\<open>XmppTransport\<close>. The
  state holds the map of the owned workers, every thread that was ever started (its position is its
  name) with the commands in its channel, and the shared queue of events. A command carries a ticket,
  which stands for its response channel. The threads run beside the calls: a move is a thread with the
  input its loop picks, and a call that waits is given the moves that happen while it waits.
\<close>

section \<open>Threads\<close>

datatype worker_command = Cmd_Send outgoing_message | Cmd_Disconnect

record worker_thread =
  th_worker :: worker
  th_channel :: "(nat \<times> worker_command) list"
  th_open :: bool

text \<open>\<open>tt_event_sender\<close>: the transport itself holds a sender of the event channel.\<close>

record tokio_transport =
  tt_workers :: "(account_id, nat) hmap"
  tt_threads :: "worker_thread list"
  tt_queue :: "transport_event list"
  tt_event_sender :: bool
  tt_replies :: "(nat \<times> (transport_error + unit)) list"
  tt_tickets :: nat

definition tokio_new :: tokio_transport where
  "tokio_new = \<lparr>tt_workers = [], tt_threads = [], tt_queue = [], tt_event_sender = True, tt_replies = [],
     tt_tickets = 0\<rparr>"

text \<open>The account IDs of the owned workers, in ascending order.\<close>

definition connected_accounts :: "tokio_transport \<Rightarrow> account_id list" where
  "connected_accounts s = sort (map fst (tt_workers s))"

type_synonym 'e move = "nat \<times> 'e worker_input"

definition thread_exited :: "worker_thread \<Rightarrow> bool" where
  "thread_exited th \<longleftrightarrow> wk_phase (th_worker th) = Phase_Exited"

text \<open>Whether the channel of a thread offers an input: a command only from its head, the end of the channel
  only when it is empty and its sender is gone.\<close>

definition offers_input :: "worker_thread \<Rightarrow> 'e worker_input \<Rightarrow> bool" where
  "offers_input th i = (case i of
     W_Send m _ \<Rightarrow> (case th_channel th of (_, Cmd_Send m') # _ \<Rightarrow> m = m' | _ \<Rightarrow> False)
   | W_Disconnect _ \<Rightarrow> (case th_channel th of (_, Cmd_Disconnect) # _ \<Rightarrow> True | _ \<Rightarrow> False)
   | W_Closed \<Rightarrow> th_channel th = [] \<and> \<not> th_open th
   | _ \<Rightarrow> True)"

definition can_move :: "tokio_transport \<Rightarrow> 'e move \<Rightarrow> bool" where
  "can_move s mv = (case mv of (tid, i) \<Rightarrow>
     tid < length (tt_threads s) \<and> takes (th_worker (tt_threads s ! tid)) i \<and> offers_input (tt_threads s ! tid) i)"

definition first_reply :: "'e worker_output list \<Rightarrow> (transport_error + unit) option" where
  "first_reply outs = (case List.map_filter (\<lambda>out. case out of Reply r \<Rightarrow> Some r | _ \<Rightarrow> None) outs of
     [] \<Rightarrow> None | r # _ \<Rightarrow> Some r)"

text \<open>A move: the outputs reach the event queue and the response channel of the command; a thread that
  ends drops what is left in its channel. What cannot happen changes nothing.\<close>

definition thread_move :: "'e parsers \<Rightarrow> tokio_transport \<Rightarrow> 'e move \<Rightarrow> tokio_transport" where
  "thread_move L s mv = (case mv of (tid, i) \<Rightarrow>
     if can_move s mv
     then let th = tt_threads s ! tid;
              (outs, w) = worker_step L (th_worker th) i;
              answered = (case (th_channel th, first_reply outs) of
                  ((ticket, _) # _, Some r) \<Rightarrow> (if asks_reply i then [(ticket, r)] else [])
                | _ \<Rightarrow> []);
              channel = (if wk_phase w = Phase_Exited then []
                else if asks_reply i then tl (th_channel th) else th_channel th)
          in s\<lparr>tt_threads := (tt_threads s)[tid := th\<lparr>th_worker := w, th_channel := channel\<rparr>],
               tt_queue := tt_queue s @ emitted outs,
               tt_replies := answered @ tt_replies s\<rparr>
     else s)"

definition thread_moves :: "'e parsers \<Rightarrow> tokio_transport \<Rightarrow> 'e move list \<Rightarrow> tokio_transport" where
  "thread_moves L s mvs = foldl (thread_move L) s mvs"

text \<open>The moves of a schedule that took place.\<close>

fun made_moves :: "'e parsers \<Rightarrow> tokio_transport \<Rightarrow> 'e move list \<Rightarrow> 'e move list" where
  "made_moves L s [] = []"
| "made_moves L s (mv # mvs) = (if can_move s mv then [mv] else []) @ made_moves L (thread_move L s mv) mvs"

section \<open>The operations\<close>

definition tokio_error :: "string \<Rightarrow> transport_error" where
  "tokio_error detail = TE_ConnectionFailed (lit detail)"

text \<open>How starting a worker thread goes: the spawn fails, the runtime is there, the runtime cannot be
  built, or the thread dies before it says.\<close>

datatype spawn_outcome = Spawn_Failed ustr | Spawn_Ready | Spawn_NoRuntime ustr | Spawn_Died

definition close_channel :: "nat \<Rightarrow> tokio_transport \<Rightarrow> tokio_transport" where
  "close_channel tid s = s\<lparr>tt_threads := (tt_threads s)[tid := (tt_threads s ! tid)\<lparr>th_open := False\<rparr>]\<rparr>"

text \<open>Removing the handle of a worker drops the only sender of its command channel.\<close>

definition retire_worker :: "tokio_transport \<Rightarrow> account_id \<Rightarrow> tokio_transport" where
  "retire_worker s account_id =
     (case hm_get (tt_workers s) account_id of
        None \<Rightarrow> s
      | Some tid \<Rightarrow> close_channel tid (s\<lparr>tt_workers := hm_remove account_id (tt_workers s)\<rparr>))"

definition tokio_connect ::
  "'e parsers \<Rightarrow> spawn_outcome \<Rightarrow> tokio_transport \<Rightarrow> connection_request \<Rightarrow> (transport_error + unit) \<times> tokio_transport" where
  "tokio_connect L spawn s request =
     (let account_id = cr_account_id request in
      if hm_contains (tt_workers s) account_id
      then (Inl (TE_Unsupported (lit ''account is already connecting'')), s)
      else (case from_request L request of
          Inl e \<Rightarrow> (Inl e, s)
        | Inr connection \<Rightarrow> (case spawn of
              Spawn_Failed e \<Rightarrow> (Inl (TE_ConnectionFailed e), s)
            | Spawn_NoRuntime e \<Rightarrow> (Inl (TE_ConnectionFailed e), s)
            | Spawn_Died \<Rightarrow> (Inl (tokio_error ''XMPP worker stopped before initialization''), s)
            | Spawn_Ready \<Rightarrow> (Inr (),
                s\<lparr>tt_workers := hm_insert account_id (length (tt_threads s)) (tt_workers s),
                  tt_threads := tt_threads s @ [\<lparr>th_worker = worker_start connection, th_channel = [], th_open = True\<rparr>]\<rparr>))))"

text \<open>Sending a command into the channel of a thread that still receives.\<close>

definition enqueue :: "nat \<Rightarrow> worker_command \<Rightarrow> tokio_transport \<Rightarrow> tokio_transport" where
  "enqueue tid cmd s =
     (let th = tt_threads s ! tid
      in s\<lparr>tt_threads := (tt_threads s)[tid := th\<lparr>th_channel := th_channel th @ [(tt_tickets s, cmd)]\<rparr>],
           tt_tickets := tt_tickets s + 1\<rparr>)"

text \<open>Sending a command and waiting for its answer: the result is the answer, or which of the two ways of
  not getting one it was.\<close>

definition ask_worker ::
  "'e parsers \<Rightarrow> 'e move list \<Rightarrow> string \<Rightarrow> string \<Rightarrow> nat \<Rightarrow> worker_command \<Rightarrow> tokio_transport
    \<Rightarrow> (transport_error + unit) \<times> tokio_transport" where
  "ask_worker L during late gone tid cmd s =
     (if thread_exited (tt_threads s ! tid) then (Inl (tokio_error ''XMPP worker is unavailable''), s)
      else let s1 = thread_moves L (enqueue tid cmd s) during
           in (case map_of (tt_replies s1) (tt_tickets s) of
                 Some r \<Rightarrow> (r, s1)
               | None \<Rightarrow> (Inl (tokio_error (if thread_exited (tt_threads s1 ! tid) then gone else late)), s1)))"

definition tokio_disconnect ::
  "'e parsers \<Rightarrow> 'e move list \<Rightarrow> tokio_transport \<Rightarrow> account_id \<Rightarrow> (transport_error + unit) \<times> tokio_transport" where
  "tokio_disconnect L during s account_id =
     (case hm_get (tt_workers s) account_id of
        None \<Rightarrow> (Inl (tokio_error ''account has no active XMPP worker''), s)
      | Some tid \<Rightarrow>
          let (r, s1) = ask_worker L during ''timed out while closing XMPP connection''
                ''XMPP worker stopped while closing connection'' tid Cmd_Disconnect
                (s\<lparr>tt_workers := hm_remove account_id (tt_workers s)\<rparr>)
          in (r, close_channel tid s1))"

definition tokio_send ::
  "'e parsers \<Rightarrow> 'e move list \<Rightarrow> tokio_transport \<Rightarrow> outgoing_message \<Rightarrow> (transport_error + unit) \<times> tokio_transport" where
  "tokio_send L during s m =
     (case hm_get (tt_workers s) (om_account_id m) of
        None \<Rightarrow> (Inl (tokio_error ''account has no active XMPP worker''), s)
      | Some tid \<Rightarrow> ask_worker L during ''timed out while sending XMPP stanza''
          ''XMPP worker stopped while sending stanza'' tid (Cmd_Send m) s)"

text \<open>\<^verbatim>\<open>try_recv\<close> on the event channel, whose senders are the transport's own and one per running thread.\<close>

datatype try_recv = Recv_Event transport_event | Recv_Empty | Recv_Disconnected

definition try_recv :: "tokio_transport \<Rightarrow> try_recv" where
  "try_recv s = (case tt_queue s of
     ev # _ \<Rightarrow> Recv_Event ev
   | [] \<Rightarrow> if tt_event_sender s \<or> list_ex (\<lambda>th. \<not> thread_exited th) (tt_threads s) then Recv_Empty else Recv_Disconnected)"

definition tokio_next_event ::
  "tokio_transport \<Rightarrow> (transport_error + transport_event option) \<times> tokio_transport" where
  "tokio_next_event s =
     (case try_recv s of
        Recv_Event event \<Rightarrow>
          let s1 = s\<lparr>tt_queue := tl (tt_queue s)\<rparr>
          in (Inr (Some event), case event of Disconnected account_id _ _ _ \<Rightarrow> retire_worker s1 account_id | _ \<Rightarrow> s1)
      | Recv_Empty \<Rightarrow> (Inr None, s)
      | Recv_Disconnected \<Rightarrow> (case tt_workers s of
            [] \<Rightarrow> (Inr None, s)
          | (account_id, _) # _ \<Rightarrow>
              (Inr (Some (Disconnected account_id True (Some (lit ''XMPP worker stopped unexpectedly'')) DK_Unknown)),
               retire_worker s account_id)))"

text \<open>Dropping the transport: every owned worker is told to disconnect.\<close>

definition tokio_drop :: "tokio_transport \<Rightarrow> tokio_transport" where
  "tokio_drop s =
     (let told = foldl (\<lambda>s (_, tid).
            let s1 = (if thread_exited (tt_threads s ! tid) then s else enqueue tid Cmd_Disconnect s)
            in close_channel tid s1) s (tt_workers s)
      in told\<lparr>tt_workers := [], tt_event_sender := False\<rparr>)"

text \<open>The adapter as the coordinator sees it, for any scheduler: what the threads do while a call waits and
  how a spawn goes may depend on the state in any way.\<close>

record 'e scheduler =
  sd_during :: "tokio_transport \<Rightarrow> 'e move list"
  sd_spawn :: "tokio_transport \<Rightarrow> spawn_outcome"

definition tokio_adapter :: "'e parsers \<Rightarrow> 'e scheduler \<Rightarrow> tokio_transport xmpp_transport" where
  "tokio_adapter L E = \<lparr>
     tr_connect = (\<lambda>s request. tokio_connect L (sd_spawn E s) s request),
     tr_disconnect = (\<lambda>s account_id. tokio_disconnect L (sd_during E s) s account_id),
     tr_send = (\<lambda>s m. tokio_send L (sd_during E s) s m),
     tr_next_event = tokio_next_event\<rparr>"

section \<open>What holds between calls\<close>

text \<open>Every account owns at most one worker, whose thread serves that account and has an open channel; the
  transport keeps its sender of the event channel; tickets are never reused.\<close>

definition tickets_below :: "nat \<Rightarrow> worker_thread \<Rightarrow> bool" where
  "tickets_below n th \<longleftrightarrow> (\<forall>(k, cmd) \<in> set (th_channel th). k < n)"

definition tokio_ok :: "tokio_transport \<Rightarrow> bool" where
  "tokio_ok s \<longleftrightarrow> hm_ok (tt_workers s) \<and> tt_event_sender s
     \<and> (\<forall>a tid. hm_get (tt_workers s) a = Some tid \<longrightarrow> tid < length (tt_threads s)
          \<and> wk_account_id (th_worker (tt_threads s ! tid)) = a \<and> th_open (tt_threads s ! tid))
     \<and> (\<forall>th \<in> set (tt_threads s). tickets_below (tt_tickets s) th)
     \<and> (\<forall>(k, r) \<in> set (tt_replies s). k < tt_tickets s)"

lemma tokio_okD:
  assumes "tokio_ok s"
  shows "hm_ok (tt_workers s)" and "tt_event_sender s"
    and "hm_get (tt_workers s) a = Some tid \<Longrightarrow> tid < length (tt_threads s)
      \<and> wk_account_id (th_worker (tt_threads s ! tid)) = a \<and> th_open (tt_threads s ! tid)"
    and "th \<in> set (tt_threads s) \<Longrightarrow> tickets_below (tt_tickets s) th"
    and "(k, r) \<in> set (tt_replies s) \<Longrightarrow> k < tt_tickets s"
  using assms by (auto simp: tokio_ok_def)

lemma tokio_okI:
  assumes "hm_ok (tt_workers s)" and "tt_event_sender s"
    and "\<And>a tid. hm_get (tt_workers s) a = Some tid \<Longrightarrow> tid < length (tt_threads s)
      \<and> wk_account_id (th_worker (tt_threads s ! tid)) = a \<and> th_open (tt_threads s ! tid)"
    and "\<And>th. th \<in> set (tt_threads s) \<Longrightarrow> tickets_below (tt_tickets s) th"
    and "\<And>k r. (k, r) \<in> set (tt_replies s) \<Longrightarrow> k < tt_tickets s"
  shows "tokio_ok s"
  using assms by (auto simp: tokio_ok_def)

lemma tokio_ok_new: "tokio_ok tokio_new"
  by (simp add: tokio_ok_def tokio_new_def hm_ok_def)

lemma hm_get_delete: "hm_get (hm_remove k m) a = (if a = k then None else hm_get m a)"
  by (simp add: delete_conv fun_upd_apply)

lemma worker_step_account:
  assumes "worker_step L w i = (outs, w')"
  shows "wk_account_id w' = wk_account_id w"
proof -
  have h: "handle_client_event L n1 n2 ev u = (os, v, a) \<Longrightarrow> wk_account_id (after_action a v) = wk_account_id u"
    for n1 n2 ev u os v a
    using handle_event_effect [of L n1 n2 ev u os v a undefined]
    by (auto simp: after_action_def exited_def split: loop_action.splits)
  show ?thesis
    using assms
    by (auto simp: worker_step_def connecting_step_def running_step_def exited_def Let_def
        split: worker_input.splits option.splits sum.splits if_splits prod.splits dest: h)
qed

text \<open>A move keeps the shape of the thread list, and of every thread its account and its sender.\<close>

lemma thread_move_shape:
  "length (tt_threads (thread_move L s mv)) = length (tt_threads s)
    \<and> tt_workers (thread_move L s mv) = tt_workers s \<and> tt_event_sender (thread_move L s mv) = tt_event_sender s
    \<and> tt_tickets (thread_move L s mv) = tt_tickets s
    \<and> wk_account_id (th_worker (tt_threads (thread_move L s mv) ! k)) = wk_account_id (th_worker (tt_threads s ! k))
    \<and> th_open (tt_threads (thread_move L s mv) ! k) = th_open (tt_threads s ! k)"
proof -
  obtain tid i where mv: "mv = (tid, i)" by fastforce
  obtain outs w where st: "worker_step L (th_worker (tt_threads s ! tid)) i = (outs, w)" by fastforce
  have "wk_account_id w = wk_account_id (th_worker (tt_threads s ! tid))" by (rule worker_step_account [OF st])
  then show ?thesis
    by (cases "k = tid") (auto simp: thread_move_def mv st Let_def can_move_def nth_list_update)
qed

lemma in_set_updateD: "x \<in> set (xs[i := y]) \<Longrightarrow> x = y \<or> x \<in> set xs"
  using set_update_subset_insert [of xs i y] by blast

lemma list_set_tl: "x \<in> set (tl xs) \<Longrightarrow> x \<in> set xs"
  by (cases xs) simp_all

lemma move_channel:
  assumes "th' \<in> set (tt_threads (thread_move L s mv))"
  shows "\<exists>th \<in> set (tt_threads s). set (th_channel th') \<subseteq> set (th_channel th)"
proof -
  obtain tid i where mv: "mv = (tid, i)" by fastforce
  obtain outs w where st: "worker_step L (th_worker (tt_threads s ! tid)) i = (outs, w)" by fastforce
  have "th' \<in> set (tt_threads s) \<or> (tid < length (tt_threads s)
      \<and> set (th_channel th') \<subseteq> set (th_channel (tt_threads s ! tid)))"
    using assms
    by (auto simp: thread_move_def mv st Let_def can_move_def split: if_splits dest!: in_set_updateD
        dest: list_set_tl)
  then show ?thesis using nth_mem by blast
qed

lemma move_replies:
  "set (tt_replies (thread_move L s mv)) \<subseteq> set (tt_replies s)
     \<union> {(k, r) | k r. \<exists>th \<in> set (tt_threads s). k \<in> fst ` set (th_channel th)}"
proof -
  obtain tid i where mv: "mv = (tid, i)" by fastforce
  obtain outs w where st: "worker_step L (th_worker (tt_threads s ! tid)) i = (outs, w)" by fastforce
  show ?thesis
  proof (cases "can_move s mv")
    case True
    then have "tt_threads s ! tid \<in> set (tt_threads s)" by (auto simp: can_move_def mv)
    with True show ?thesis
      by (auto simp: thread_move_def mv st Let_def split: list.splits option.splits if_splits)
        (metis fst_conv image_eqI list.set_intros(1))
  qed (simp add: thread_move_def mv)
qed

lemma tokio_ok_move:
  assumes "tokio_ok s"
  shows "tokio_ok (thread_move L s mv)"
proof (rule tokio_okI)
  fix th assume "th \<in> set (tt_threads (thread_move L s mv))"
  then show "tickets_below (tt_tickets (thread_move L s mv)) th"
    using move_channel [of th L s mv] tokio_okD(4) [OF assms] thread_move_shape [of L s mv 0]
    by (force simp: tickets_below_def)
next
  fix k r assume "(k, r) \<in> set (tt_replies (thread_move L s mv))"
  then show "k < tt_tickets (thread_move L s mv)"
    using move_replies [of L s mv] tokio_okD(4,5) [OF assms] thread_move_shape [of L s mv 0]
    by (force simp: tickets_below_def)
qed (use tokio_okD [OF assms] thread_move_shape [of L s mv] in auto)

lemma tokio_ok_moves: "tokio_ok s \<Longrightarrow> tokio_ok (thread_moves L s mvs)"
  by (induction mvs arbitrary: s) (simp_all add: thread_moves_def tokio_ok_move)

lemma moves_shape:
  "length (tt_threads (thread_moves L s mvs)) = length (tt_threads s) \<and> tt_workers (thread_moves L s mvs) = tt_workers s"
  by (induction mvs arbitrary: s) (simp_all add: thread_moves_def thread_move_shape)

lemma tokio_ok_enqueue:
  assumes "tokio_ok s" and "tid < length (tt_threads s)"
  shows "tokio_ok (enqueue tid cmd s)"
proof (rule tokio_okI)
  fix th assume "th \<in> set (tt_threads (enqueue tid cmd s))"
  then have "th \<in> set (tt_threads s) \<or> th = (tt_threads s ! tid)\<lparr>th_channel := th_channel (tt_threads s ! tid) @ [(tt_tickets s, cmd)]\<rparr>"
    by (auto simp: enqueue_def Let_def dest!: in_set_updateD)
  then show "tickets_below (tt_tickets (enqueue tid cmd s)) th"
    using tokio_okD(4) [OF assms(1)] nth_mem [OF assms(2)]
    by (fastforce simp: tickets_below_def enqueue_def Let_def less_Suc_eq)
next
  fix k r assume "(k, r) \<in> set (tt_replies (enqueue tid cmd s))"
  then show "k < tt_tickets (enqueue tid cmd s)"
    using tokio_okD(5) [OF assms(1), of k r] by (simp add: enqueue_def Let_def)
next
  fix a t assume "hm_get (tt_workers (enqueue tid cmd s)) a = Some t"
  then show "t < length (tt_threads (enqueue tid cmd s))
      \<and> wk_account_id (th_worker (tt_threads (enqueue tid cmd s) ! t)) = a \<and> th_open (tt_threads (enqueue tid cmd s) ! t)"
    using tokio_okD(3) [OF assms(1), of a t] by (cases "t = tid") (auto simp: enqueue_def Let_def)
qed (use tokio_okD(1,2) [OF assms(1)] in \<open>simp_all add: enqueue_def Let_def\<close>)

lemma tokio_ok_close:
  assumes "tokio_ok s" and "\<And>a. hm_get (tt_workers s) a \<noteq> Some tid"
  shows "tokio_ok (close_channel tid s)"
proof (rule tokio_okI)
  fix th assume "th \<in> set (tt_threads (close_channel tid s))"
  then have "tid < length (tt_threads s) \<and> th = (tt_threads s ! tid)\<lparr>th_open := False\<rparr> \<or> th \<in> set (tt_threads s)"
    by (cases "tid < length (tt_threads s)") (auto simp: close_channel_def list_update_beyond dest!: in_set_updateD)
  then show "tickets_below (tt_tickets (close_channel tid s)) th"
    using tokio_okD(4) [OF assms(1)] nth_mem [of tid "tt_threads s"]
    by (fastforce simp: tickets_below_def close_channel_def)
next
  fix a t assume "hm_get (tt_workers (close_channel tid s)) a = Some t"
  then show "t < length (tt_threads (close_channel tid s))
      \<and> wk_account_id (th_worker (tt_threads (close_channel tid s) ! t)) = a \<and> th_open (tt_threads (close_channel tid s) ! t)"
    using tokio_okD(3) [OF assms(1), of a t] assms(2) by (cases "t = tid") (auto simp: close_channel_def)
next
  fix k r assume "(k, r) \<in> set (tt_replies (close_channel tid s))"
  then show "k < tt_tickets (close_channel tid s)"
    using tokio_okD(5) [OF assms(1), of k r] by (simp add: close_channel_def)
qed (use tokio_okD(1,2) [OF assms(1)] in \<open>simp_all add: close_channel_def\<close>)

lemma tokio_ok_remove:
  assumes "tokio_ok s"
  shows "tokio_ok (s\<lparr>tt_workers := hm_remove a (tt_workers s)\<rparr>)"
    and "hm_get (tt_workers s) a = Some tid \<Longrightarrow> hm_get (hm_remove a (tt_workers s)) b \<noteq> Some tid"
proof -
  show "tokio_ok (s\<lparr>tt_workers := hm_remove a (tt_workers s)\<rparr>)"
    using tokio_okD [OF assms] by (intro tokio_okI) (auto simp: hm_get_delete hm.ok_del split: if_splits)
  show "hm_get (hm_remove a (tt_workers s)) b \<noteq> Some tid" if "hm_get (tt_workers s) a = Some tid"
    using tokio_okD(3) [OF assms, of a tid] tokio_okD(3) [OF assms, of b tid] that by (auto simp: hm_get_delete)
qed

lemma tokio_ok_retire: "tokio_ok s \<Longrightarrow> tokio_ok (retire_worker s a)"
  using tokio_ok_remove [of s a] by (auto simp: retire_worker_def intro: tokio_ok_close split: option.split)

lemma ask_worker_keeps:
  assumes "tokio_ok s" and "tid < length (tt_threads s)" and "ask_worker L during late gone tid cmd s = (r, s')"
  shows "tokio_ok s' \<and> tt_workers s' = tt_workers s \<and> length (tt_threads s') = length (tt_threads s)"
proof -
  let ?s1 = "thread_moves L (enqueue tid cmd s) during"
  have "s' = s \<or> s' = ?s1"
    using assms(3) by (auto simp: ask_worker_def Let_def split: if_splits option.splits)
  moreover have "tokio_ok ?s1" by (intro tokio_ok_moves tokio_ok_enqueue assms)
  moreover have "tt_workers ?s1 = tt_workers s \<and> length (tt_threads ?s1) = length (tt_threads s)"
    by (simp add: moves_shape) (simp add: enqueue_def Let_def)
  ultimately show ?thesis using assms(1) by auto
qed

lemma tokio_ok_send:
  assumes "tokio_ok s"
  shows "tokio_ok (snd (tokio_send L during s m))"
proof (cases "hm_get (tt_workers s) (om_account_id m)")
  case (Some tid)
  obtain r s1 where ask: "ask_worker L during ''timed out while sending XMPP stanza''
      ''XMPP worker stopped while sending stanza'' tid (Cmd_Send m) s = (r, s1)" by fastforce
  have "tid < length (tt_threads s)" using tokio_okD(3) [OF assms Some] by simp
  from ask_worker_keeps [OF assms this ask] show ?thesis using ask Some by (simp add: tokio_send_def)
qed (simp add: tokio_send_def assms)

lemma tokio_ok_disconnect:
  assumes "tokio_ok s"
  shows "tokio_ok (snd (tokio_disconnect L during s a))"
proof (cases "hm_get (tt_workers s) a")
  case (Some tid)
  let ?s = "s\<lparr>tt_workers := hm_remove a (tt_workers s)\<rparr>"
  obtain r s1 where ask: "ask_worker L during ''timed out while closing XMPP connection''
      ''XMPP worker stopped while closing connection'' tid Cmd_Disconnect ?s = (r, s1)" by fastforce
  have "tid < length (tt_threads ?s)" using tokio_okD(3) [OF assms Some] by simp
  from ask_worker_keeps [OF tokio_ok_remove(1) [OF assms] this ask] tokio_ok_remove(2) [OF assms Some]
  have "tokio_ok (close_channel tid s1)" by (intro tokio_ok_close) auto
  then show ?thesis using ask Some by (simp add: tokio_disconnect_def)
qed (simp add: tokio_disconnect_def assms)

lemma tickets_below_fresh: "tickets_below n \<lparr>th_worker = w, th_channel = [], th_open = b\<rparr>"
  by (simp add: tickets_below_def)

lemma tokio_ok_connect:
  assumes "tokio_ok s"
  shows "tokio_ok (snd (tokio_connect L spawn s request))"
proof -
  have new: "tokio_ok (s\<lparr>tt_workers := hm_insert (cr_account_id request) (length (tt_threads s)) (tt_workers s),
      tt_threads := tt_threads s @ [\<lparr>th_worker = worker_start conn, th_channel = [], th_open = True\<rparr>]\<rparr>)"
    if "from_request L request = Inr conn" for conn
  proof -
    have "wc_account_id conn = cr_account_id request"
      using that by (auto simp: from_request_def Let_def split: option.splits sum.splits if_splits)
    then show ?thesis
      using tokio_okD [OF assms]
      by (intro tokio_okI) (auto simp: hm.ok_ins hm.get_ins nth_append worker_start_def tickets_below_fresh
          split: if_splits)
  qed
  show ?thesis
    using new assms by (auto simp: tokio_connect_def Let_def split: sum.splits spawn_outcome.splits)
qed

lemma try_recv_ok: "tokio_ok s \<Longrightarrow> try_recv s = (case tt_queue s of [] \<Rightarrow> Recv_Empty | ev # _ \<Rightarrow> Recv_Event ev)"
  using tokio_okD(2) by (auto simp: try_recv_def split: list.split)

lemma retire_queue [simp]: "tt_queue (retire_worker s a) = tt_queue s"
  by (simp add: retire_worker_def close_channel_def split: option.split)

lemma tokio_ok_pop: "tokio_ok s \<Longrightarrow> tokio_ok (s\<lparr>tt_queue := q\<rparr>)"
  by (simp add: tokio_ok_def)

lemma tokio_next_event_ok:
  assumes "tokio_ok s"
  shows "tokio_next_event s = (case tt_queue s of [] \<Rightarrow> (Inr None, s)
      | ev # q \<Rightarrow> (Inr (Some ev), case ev of Disconnected a _ _ _ \<Rightarrow> retire_worker (s\<lparr>tt_queue := q\<rparr>) a | _ \<Rightarrow> s\<lparr>tt_queue := q\<rparr>))"
  by (auto simp: tokio_next_event_def try_recv_ok [OF assms] Let_def split: list.split)

lemma tokio_ok_next: "tokio_ok s \<Longrightarrow> tokio_ok (snd (tokio_next_event s))"
  by (auto simp: tokio_next_event_ok intro: tokio_ok_pop tokio_ok_retire split: list.split transport_event.split)

text \<open>The channel of events is a source of events in every state that keeps the invariant.\<close>

interpretation tokio: event_source tokio_next_event tt_queue tokio_ok
  by unfold_locales
    (erule tokio_ok_next, auto simp: tokio_next_event_ok split: transport_event.split)

section \<open>Runs\<close>

text \<open>Calls and moves of the threads in any order, from the idle transport.\<close>

inductive tokio_reachable :: "'e parsers \<Rightarrow> tokio_transport \<Rightarrow> bool" for L where
  reach_new: "tokio_reachable L tokio_new"
| reach_move: "tokio_reachable L s \<Longrightarrow> tokio_reachable L (thread_move L s mv)"
| reach_connect: "tokio_reachable L s \<Longrightarrow> tokio_reachable L (snd (tokio_connect L spawn s request))"
| reach_disconnect: "tokio_reachable L s \<Longrightarrow> tokio_reachable L (snd (tokio_disconnect L during s a))"
| reach_send: "tokio_reachable L s \<Longrightarrow> tokio_reachable L (snd (tokio_send L during s m))"
| reach_next: "tokio_reachable L s \<Longrightarrow> tokio_reachable L (snd (tokio_next_event s))"

lemma reachable_ok: "tokio_reachable L s \<Longrightarrow> tokio_ok s"
  by (induction rule: tokio_reachable.induct)
    (auto intro: tokio_ok_new tokio_ok_move tokio_ok_connect tokio_ok_disconnect tokio_ok_send tokio_ok_next)

section \<open>What polling does\<close>

lemma retire_workers: "hm_get (tt_workers (retire_worker s a)) b = (if b = a then None else hm_get (tt_workers s) b)"
  by (simp add: retire_worker_def close_channel_def hm_get_delete split: option.split)

fun reports_loss :: "account_id \<Rightarrow> transport_event \<Rightarrow> bool" where
  "reports_loss a (Disconnected b _ _ _) = (a = b)"
| "reports_loss a _ = False"

lemma pulled_workers:
  assumes "tr_next_event X = tokio_next_event" and "tokio_ok t" and "pulled X n t = (evs, f, t')"
  shows "hm_get (tt_workers t') a = (if list_ex (reports_loss a) evs then None else hm_get (tt_workers t) a)"
  using assms(2,3)
proof (induction n arbitrary: t evs f t')
  case (Suc n)
  show ?case
  proof (cases "tt_queue t")
    case Nil
    then show ?thesis using Suc.prems by (auto simp: assms(1) tokio_next_event_ok)
  next
    case (Cons ev q)
    obtain t1 where t1: "tokio_next_event t = (Inr (Some ev), t1)"
      "hm_get (tt_workers t1) a = (if reports_loss a ev then None else hm_get (tt_workers t) a)"
      using Cons Suc.prems(1) by (cases ev) (simp_all add: tokio_next_event_ok retire_workers)
    have "tokio_ok t1" using tokio_ok_next [OF Suc.prems(1)] t1(1) by simp
    moreover obtain evs1 f1 t2 where rest: "pulled X n t1 = (evs1, f1, t2)" by (metis prod_cases3)
    ultimately have "hm_get (tt_workers t2) a = (if list_ex (reports_loss a) evs1 then None else hm_get (tt_workers t1) a)"
      by (rule Suc.IH)
    moreover have "evs = ev # evs1" "t' = t2"
      using Suc.prems(2) t1(1) rest by (simp_all add: assms(1))
    ultimately show ?thesis using t1(2) by simp
  qed
qed simp

text \<open>C37: Over the Tokio transport polling never fails, whatever the threads did before: it takes the queued
  events in order, up to the bound, and projects each of them. Every account whose loss was among them
  owns no worker afterwards - also when the loss was recoverable and the account reconnects by itself -
  and every other account keeps its own.\<close>

theorem tokio_poll_spec:
  assumes "tokio_reachable L (tc_transport s)"
  shows "\<exists>t'. poll_transport_events (tokio_adapter L E) s n =
      (Inr (min n (length (tt_queue (tc_transport s)))),
       s\<lparr>tc_core := project (tc_core s) (take n (tt_queue (tc_transport s))), tc_transport := t'\<rparr>)
    \<and> tt_queue t' = drop n (tt_queue (tc_transport s))
    \<and> (\<forall>a. hm_get (tt_workers t') a = (if list_ex (reports_loss a) (take n (tt_queue (tc_transport s))) then None
         else hm_get (tt_workers (tc_transport s)) a))"
proof -
  note ok = reachable_ok [OF assms]
  have X: "tr_next_event (tokio_adapter L E) = tokio_next_event" by (simp add: tokio_adapter_def)
  obtain t' where run: "pulled (tokio_adapter L E) n (tc_transport s) = (take n (tt_queue (tc_transport s)), None, t')"
    "tt_queue t' = drop n (tt_queue (tc_transport s))"
    using tokio.pulled_queue [OF X ok, of n] by blast
  from pulled_workers [OF X ok run(1)] run show ?thesis
    by (intro exI [of _ t']) (simp add: poll_transport_events_def poll_loop_pulled min.commute)
qed

text \<open>The worker of such an account goes on running, but nobody can command it any more, and its loop finds
  the end of its command channel.\<close>

lemma polled_loss_cuts_worker:
  fixes L :: "'e parsers"
  assumes "tokio_ok s" and "tt_queue s = Disconnected a r d k # q" and "hm_get (tt_workers s) a = Some tid"
    and "wk_phase (th_worker (tt_threads s ! tid)) = Phase_Running" and "th_channel (tt_threads s ! tid) = []"
  shows "\<exists>s'. tokio_next_event s = (Inr (Some (Disconnected a r d k)), s')
    \<and> fst (tokio_send L during s' m) = (if om_account_id m = a
        then Inl (TE_ConnectionFailed (lit ''account has no active XMPP worker'')) else fst (tokio_send L during s' m))
    \<and> can_move s' (tid, W_Closed :: 'e worker_input)
    \<and> wk_phase (th_worker (tt_threads (thread_move L s' (tid, W_Closed)) ! tid)) = Phase_Exited
    \<and> tt_queue (thread_move L s' (tid, W_Closed)) = q"
proof -
  let ?s = "retire_worker (s\<lparr>tt_queue := q\<rparr>) a"
  have tid: "tid < length (tt_threads s)" using tokio_okD(3) [OF assms(1,3)] by simp
  have th: "tt_threads ?s ! tid = (tt_threads s ! tid)\<lparr>th_open := False\<rparr>" "length (tt_threads ?s) = length (tt_threads s)"
    using assms(3) tid by (simp_all add: retire_worker_def close_channel_def)
  have can: "can_move ?s (tid, W_Closed :: 'e worker_input)"
    using assms(4,5) tid th by (simp add: can_move_def takes_def offers_input_def)
  have "wk_phase (th_worker (tt_threads (thread_move L ?s (tid, W_Closed)) ! tid)) = Phase_Exited
      \<and> tt_queue (thread_move L ?s (tid, W_Closed)) = q"
    using can tid th assms(4)
    by (simp add: thread_move_def worker_step_def running_step_def exited_def Let_def)
  moreover have "tokio_next_event s = (Inr (Some (Disconnected a r d k)), ?s)"
    using assms(1,2) by (simp add: tokio_next_event_ok)
  moreover have "om_account_id m = a \<Longrightarrow> fst (tokio_send L during ?s m) = Inl (TE_ConnectionFailed (lit ''account has no active XMPP worker''))"
    by (simp add: tokio_send_def retire_workers tokio_error_def)
  ultimately show ?thesis using can by auto
qed

section \<open>What a sent message is\<close>

text \<open>The trail of a ticket: no thread but its own has it in its channel, and an answer to it was made by a
  move of its own thread.\<close>

definition ticket_trail ::
  "'e parsers \<Rightarrow> nat \<Rightarrow> nat \<Rightarrow> outgoing_message \<Rightarrow> 'e move list \<Rightarrow> tokio_transport \<Rightarrow> bool" where
  "ticket_trail L ticket tid m moves s \<longleftrightarrow>
     (\<forall>k < length (tt_threads s). \<forall>cmd. (ticket, cmd) \<in> set (th_channel (tt_threads s ! k)) \<longrightarrow> k = tid \<and> cmd = Cmd_Send m)
     \<and> (\<forall>r. (ticket, r) \<in> set (tt_replies s) \<longrightarrow> r \<noteq> Inr ()
         \<or> (tid, W_Send m Send_Ok) \<in> set moves \<and> (\<exists>stanza. build_message_stanza L m = Inr stanza))"

lemma send_reply:
  assumes "worker_step L w (W_Send m out) = (outs, w')" and "first_reply outs = Some (Inr ())"
  shows "out = Send_Ok \<and> (\<exists>stanza. build_message_stanza L m = Inr stanza)"
  using assms
  by (cases "build_message_stanza L m"; cases out)
    (auto simp: worker_step_def connecting_step_def running_step_def send_message_def first_reply_def
      List.map_filter_simps split: if_splits)

text \<open>A move takes commands from a channel only, and answers only the command that it took.\<close>

lemma channel_shrinks:
  assumes "k < length (tt_threads s)"
  shows "set (th_channel (tt_threads (thread_move L s mv) ! k)) \<subseteq> set (th_channel (tt_threads s ! k))"
proof -
  obtain t i where mv: "mv = (t, i)" by fastforce
  obtain outs w where st: "worker_step L (th_worker (tt_threads s ! t)) i = (outs, w)" by fastforce
  show ?thesis
    using assms by (cases "k = t") (auto simp: thread_move_def mv st Let_def dest: list_set_tl split: if_splits)
qed

lemma reply_source:
  assumes "(ticket, r) \<in> set (tt_replies (thread_move L s mv))" "(ticket, r) \<notin> set (tt_replies s)"
  obtains t i cmd rest outs w where "mv = (t, i)" "can_move s mv" "th_channel (tt_threads s ! t) = (ticket, cmd) # rest"
    "asks_reply i" "worker_step L (th_worker (tt_threads s ! t)) i = (outs, w)" "first_reply outs = Some r"
    "th_worker (tt_threads (thread_move L s mv) ! t) = w"
proof -
  obtain t i where mv: "mv = (t, i)" by fastforce
  obtain outs w where st: "worker_step L (th_worker (tt_threads s ! t)) i = (outs, w)" by fastforce
  have can: "can_move s mv" using assms by (auto simp: thread_move_def mv split: if_splits)
  moreover from can assms obtain cmd rest where "th_channel (tt_threads s ! t) = (ticket, cmd) # rest"
    "first_reply outs = Some r" "asks_reply i"
    by (cases "th_channel (tt_threads s ! t)"; cases "first_reply outs") (auto simp: thread_move_def mv st Let_def split: if_splits)
  moreover have "th_worker (tt_threads (thread_move L s mv) ! t) = w"
    using can by (auto simp: thread_move_def mv st Let_def can_move_def)
  ultimately show thesis using that mv st by blast
qed

lemma ticket_trail_move:
  assumes "ticket_trail L ticket tid m moves s"
  shows "ticket_trail L ticket tid m (moves @ (if can_move s mv then [mv] else [])) (thread_move L s mv)"
proof (cases "can_move s mv")
  case False
  then show ?thesis using assms by (cases mv) (simp add: thread_move_def)
next
  case True
  have chan: "k = tid \<and> cmd = Cmd_Send m"
    if "k < length (tt_threads s)" "(ticket, cmd) \<in> set (th_channel (tt_threads s ! k))" for k cmd
    using assms that by (auto simp: ticket_trail_def)
  have chan': "k = tid \<and> cmd = Cmd_Send m"
    if "k < length (tt_threads s)" "(ticket, cmd) \<in> set (th_channel (tt_threads (thread_move L s mv) ! k))" for k cmd
    using chan that channel_shrinks by blast
  have reply: "r \<noteq> Inr () \<or> mv = (tid, W_Send m Send_Ok) \<and> (\<exists>stanza. build_message_stanza L m = Inr stanza)"
    if "(ticket, r) \<in> set (tt_replies (thread_move L s mv))" "(ticket, r) \<notin> set (tt_replies s)" for r
    using that
  proof (cases rule: reply_source)
    case (1 t i cmd rest outs w)
    then have t: "t < length (tt_threads s)" "offers_input (tt_threads s ! t) i" by (auto simp: can_move_def)
    from chan [OF t(1), of cmd] 1(3) have own: "t = tid" "cmd = Cmd_Send m" by auto
    with t(2) 1(3,4) obtain out where i: "i = W_Send m out"
      by (cases i) (auto simp: offers_input_def asks_reply_def)
    show ?thesis using send_reply [OF 1(5) [unfolded i]] 1 own i by auto
  qed
  show ?thesis
    using assms True chan' reply thread_move_shape [of L s mv] unfolding ticket_trail_def by (auto 4 3)
qed

lemma ticket_trail_moves:
  "ticket_trail L ticket tid m done_moves s \<Longrightarrow>
     ticket_trail L ticket tid m (done_moves @ made_moves L s mvs) (thread_moves L s mvs)"
proof (induction mvs arbitrary: done_moves s)
  case (Cons mv mvs)
  from Cons.IH [OF ticket_trail_move [OF Cons.prems, of mv]] show ?case by (simp add: thread_moves_def)
qed (simp add: thread_moves_def)

text \<open>A message is reported as sent only if it was: when a send succeeds, then during the call the
  thread of the worker that the message's own account owns has taken this very message from its
  channel, has built its stanza and has handed it to the client without an error. No answer to another
  command, of this or of an earlier call, is ever taken for it.\<close>

lemma send_honest:
  assumes ok: "tokio_ok s" and "tokio_send L during s m = (Inr (), s')"
  shows "case hm_get (tt_workers s) (om_account_id m) of
      None \<Rightarrow> False
    | Some tid \<Rightarrow> wk_account_id (th_worker (tt_threads s ! tid)) = om_account_id m
        \<and> (tid, W_Send m Send_Ok) \<in> set (made_moves L (enqueue tid (Cmd_Send m) s) during)
        \<and> (\<exists>stanza. build_message_stanza L m = Inr stanza)"
proof (cases "hm_get (tt_workers s) (om_account_id m)")
  case None
  then show ?thesis using assms(2) by (simp add: tokio_send_def tokio_error_def)
next
  case (Some tid)
  let ?s0 = "enqueue tid (Cmd_Send m) s"
  have tid: "tid < length (tt_threads s)" "wk_account_id (th_worker (tt_threads s ! tid)) = om_account_id m"
    using tokio_okD(3) [OF ok Some] by simp_all
  have old: "(tt_tickets s, cmd) \<notin> set (th_channel (tt_threads s ! k))" if "k < length (tt_threads s)" for k cmd
    using tokio_okD(4) [OF ok nth_mem [OF that]] by (auto simp: tickets_below_def)
  have "ticket_trail L (tt_tickets s) tid m [] ?s0"
    using old tokio_okD(5) [OF ok, of "tt_tickets s"] tid(1)
    by (auto simp: ticket_trail_def enqueue_def Let_def nth_list_update)
  from ticket_trail_moves [OF this, of during] have
    trail: "ticket_trail L (tt_tickets s) tid m (made_moves L ?s0 during) (thread_moves L ?s0 during)" by simp
  have "map_of (tt_replies (thread_moves L ?s0 during)) (tt_tickets s) = Some (Inr ())"
    using assms(2) Some by (auto simp: tokio_send_def ask_worker_def Let_def tokio_error_def split: if_splits option.splits)
  then have "(tt_tickets s, Inr ()) \<in> set (tt_replies (thread_moves L ?s0 during))" by (rule map_of_SomeD)
  with trail tid Some show ?thesis unfolding ticket_trail_def by auto
qed

text \<open>A disconnect removes the handle of the worker first, so it is gone whatever becomes of the rest.\<close>

lemma disconnect_effect:
  assumes "tokio_ok t"
  shows "hm_get (tt_workers (snd (tokio_disconnect L during t i))) j = (if j = i then None else hm_get (tt_workers t) j)
    \<and> (\<forall>tid. hm_get (tt_workers t) i = Some tid \<longrightarrow> \<not> th_open (tt_threads (snd (tokio_disconnect L during t i)) ! tid))"
proof (cases "hm_get (tt_workers t) i")
  case (Some tid)
  let ?t = "t\<lparr>tt_workers := hm_remove i (tt_workers t)\<rparr>"
  obtain r t1 where ask: "ask_worker L during ''timed out while closing XMPP connection''
      ''XMPP worker stopped while closing connection'' tid Cmd_Disconnect ?t = (r, t1)" by fastforce
  have tid: "tid < length (tt_threads ?t)" using tokio_okD(3) [OF assms Some] by simp
  from ask_worker_keeps [OF tokio_ok_remove(1) [OF assms] tid ask] ask Some tid show ?thesis
    by (simp add: tokio_disconnect_def close_channel_def hm_get_delete)
qed (simp add: tokio_disconnect_def)

lemmas disconnect_workers = disconnect_effect [THEN conjunct1]

text \<open>A disconnect is answered by the end of the worker.\<close>

definition end_trail :: "nat \<Rightarrow> nat \<Rightarrow> tokio_transport \<Rightarrow> bool" where
  "end_trail ticket tid s \<longleftrightarrow>
     (\<forall>k < length (tt_threads s). \<forall>cmd. (ticket, cmd) \<in> set (th_channel (tt_threads s ! k)) \<longrightarrow> k = tid \<and> cmd = Cmd_Disconnect)
     \<and> (\<forall>r. (ticket, r) \<in> set (tt_replies s) \<longrightarrow> thread_exited (tt_threads s ! tid))"

lemma exited_stays: "thread_exited (tt_threads s ! tid) \<Longrightarrow> thread_exited (tt_threads (thread_move L s mv) ! tid)"
  by (cases mv; cases "fst mv = tid")
    (auto simp: thread_move_def can_move_def takes_def thread_exited_def Let_def split: prod.splits)

lemma end_trail_move:
  assumes "end_trail ticket tid s"
  shows "end_trail ticket tid (thread_move L s mv)"
proof -
  have chan: "k = tid \<and> cmd = Cmd_Disconnect"
    if "k < length (tt_threads s)" "(ticket, cmd) \<in> set (th_channel (tt_threads s ! k))" for k cmd
    using assms that by (auto simp: end_trail_def)
  have "thread_exited (tt_threads (thread_move L s mv) ! tid)" if "(ticket, r) \<in> set (tt_replies (thread_move L s mv))" for r
  proof (cases "(ticket, r) \<in> set (tt_replies s)")
    case True
    then show ?thesis using assms exited_stays [of s tid L mv] by (auto simp: end_trail_def)
  next
    case False
    with that show ?thesis
    proof (cases rule: reply_source)
      case (1 t i cmd rest outs w)
      then have t: "t < length (tt_threads s)" "offers_input (tt_threads s ! t) i" "takes (th_worker (tt_threads s ! t)) i"
        by (auto simp: can_move_def)
      from chan [OF t(1), of cmd] 1(3) have own: "t = tid" "cmd = Cmd_Disconnect" by auto
      with t(2) 1(3,4) obtain out where i: "i = W_Disconnect out"
        by (cases i) (auto simp: offers_input_def asks_reply_def)
      have "wk_phase w = Phase_Exited"
        using 1(5) t(3) i by (auto simp: worker_step_def connecting_step_def running_step_def exited_def takes_def
            split: worker_phase.splits if_splits)
      then show ?thesis using 1(7) own by (simp add: thread_exited_def)
    qed
  qed
  moreover have "k = tid \<and> cmd = Cmd_Disconnect"
    if "k < length (tt_threads s)" "(ticket, cmd) \<in> set (th_channel (tt_threads (thread_move L s mv) ! k))" for k cmd
    using chan that channel_shrinks by blast
  ultimately show ?thesis
    using thread_move_shape [of L s mv] by (simp add: end_trail_def)
qed

lemma end_trail_moves: "end_trail ticket tid s \<Longrightarrow> end_trail ticket tid (thread_moves L s mvs)"
  by (induction mvs arbitrary: s) (simp_all add: thread_moves_def end_trail_move)

lemma disconnect_ends:
  assumes ok: "tokio_ok s" and "tokio_disconnect L during s i = (Inr (), s')"
  obtains tid where "hm_get (tt_workers s) i = Some tid" "thread_exited (tt_threads s' ! tid)"
proof (cases "hm_get (tt_workers s) i")
  case None
  then show thesis using assms(2) by (simp add: tokio_disconnect_def tokio_error_def)
next
  case (Some tid)
  let ?s = "s\<lparr>tt_workers := hm_remove i (tt_workers s)\<rparr>"
  let ?s0 = "enqueue tid Cmd_Disconnect ?s"
  have tid: "tid < length (tt_threads s)" using tokio_okD(3) [OF ok Some] by simp
  have old: "(tt_tickets s, cmd) \<notin> set (th_channel (tt_threads s ! k))" if "k < length (tt_threads s)" for k cmd
    using tokio_okD(4) [OF ok nth_mem [OF that]] by (auto simp: tickets_below_def)
  have "end_trail (tt_tickets s) tid ?s0"
    using old tokio_okD(5) [OF ok, of "tt_tickets s"] tid
    by (auto simp: end_trail_def enqueue_def Let_def nth_list_update)
  from end_trail_moves [OF this, of L during]
  have trail: "end_trail (tt_tickets s) tid (thread_moves L ?s0 during)" .
  have s': "s' = close_channel tid (thread_moves L ?s0 during)"
    and "map_of (tt_replies (thread_moves L ?s0 during)) (tt_tickets s) = Some (Inr ())"
    using assms(2) Some by (auto simp: tokio_disconnect_def ask_worker_def Let_def tokio_error_def split: if_splits option.splits)
  then have "thread_exited (tt_threads (thread_moves L ?s0 during) ! tid)"
    using trail map_of_SomeD unfolding end_trail_def by fastforce
  moreover have "tid < length (tt_threads (thread_moves L ?s0 during))"
    using tid by (simp add: moves_shape) (simp add: enqueue_def Let_def)
  ultimately have "thread_exited (tt_threads s' ! tid)"
    by (simp add: s' close_channel_def thread_exited_def)
  with Some show thesis by (rule that)
qed

section \<open>A concrete session\<close>

definition demo_request :: connection_request where
  "demo_request = demo_proxied\<lparr>cr_proxy := None\<rparr>"

definition demo_tokio :: tokio_transport where
  "demo_tokio = snd (tokio_connect demo_parsers Spawn_Ready tokio_new demo_request)"

definition demo_online_tokio :: tokio_transport where
  "demo_online_tokio = thread_move demo_parsers demo_tokio (0, W_Phase (Some (Inr demo_ready)) 0 0 5)"

lemma demo_online_reachable: "tokio_reachable demo_parsers demo_online_tokio"
  unfolding demo_online_tokio_def demo_tokio_def by (intro reach_move reach_connect reach_new)

lemma demo_tokio_state:
  "\<exists>w. demo_tokio = tokio_new\<lparr>tt_workers := [(1, 0)], tt_threads := [\<lparr>th_worker = w, th_channel = [], th_open = True\<rparr>]\<rparr>
    \<and> wk_phase w = Phase_Connecting \<and> wk_account_id w = 1"
proof -
  have "from_request demo_parsers demo_request \<noteq> Inl e" for e
    by (simp add: from_request_def demo_request_def demo_proxied_def demo_server validate_endpoint_syntax_def demo_parsers_def Let_def)
      (simp add: lit_def)
  then obtain conn where conn: "from_request demo_parsers demo_request = Inr conn"
    by (cases "from_request demo_parsers demo_request") auto
  then have "wc_account_id conn = 1"
    by (auto simp: from_request_def Let_def demo_request_def demo_proxied_def split: option.splits sum.splits if_splits)
  then show ?thesis
    using conn by (simp add: demo_tokio_def tokio_connect_def tokio_new_def hm_contains_def demo_request_def demo_proxied_def
        worker_start_def)
qed

lemma demo_online_state:
  "\<exists>w. demo_online_tokio = tokio_new\<lparr>tt_workers := [(1, 0)],
      tt_threads := [\<lparr>th_worker = w, th_channel = [], th_open = True\<rparr>], tt_queue := [Connected 1 {Cap_StreamManagement}]\<rparr>
    \<and> wk_phase w = Phase_Running \<and> wk_account_id w = 1"
proof -
  obtain w where w: "demo_tokio = tokio_new\<lparr>tt_workers := [(1, 0)],
      tt_threads := [\<lparr>th_worker = w, th_channel = [], th_open = True\<rparr>]\<rparr>"
    "wk_phase w = Phase_Connecting" "wk_account_id w = 1"
    using demo_tokio_state by blast
  show ?thesis
    by (simp add: w demo_online_tokio_def thread_move_def can_move_def takes_def offers_input_def worker_step_def
        connecting_step_def demo_ready_def handle_client_event_def Let_def after_action_def tokio_new_def
        stream_capabilities_from_features_def demo_parsers_def asks_reply_def)
qed

definition demo_scheduler :: "(ustr \<times> ustr) scheduler" where
  "demo_scheduler = \<lparr>sd_during = (\<lambda>_. []), sd_spawn = (\<lambda>_. Spawn_Ready)\<rparr>"

theorem tokio_poll_spec_witness:
  "\<exists>t'. poll_transport_events (tokio_adapter demo_parsers demo_scheduler) \<lparr>tc_core = demo_core, tc_transport = demo_online_tokio\<rparr> 5
      = (Inr 1, \<lparr>tc_core = project demo_core [Connected 1 {Cap_StreamManagement}], tc_transport = t'\<rparr>)
    \<and> hm_get (tt_workers t') 1 = Some 0"
proof -
  obtain w where w: "demo_online_tokio = tokio_new\<lparr>tt_workers := [(1, 0)],
      tt_threads := [\<lparr>th_worker = w, th_channel = [], th_open = True\<rparr>], tt_queue := [Connected 1 {Cap_StreamManagement}]\<rparr>"
    using demo_online_state by blast
  have "tokio_reachable demo_parsers (tc_transport \<lparr>tc_core = demo_core, tc_transport = demo_online_tokio\<rparr>)"
    by (simp add: demo_online_reachable)
  from tokio_poll_spec [OF this, of demo_scheduler 5] show ?thesis by (auto simp: w)
qed

end
