(* ===== verification/Xmpp_Register.thy ===== *)
theory Xmpp_Register
  imports Xmpp_Connect
begin

text \<open>
  In-band registration (XEP-0077, \<^verbatim>\<open>register\<close> and below in \<^verbatim>\<open>xmpp.rs\<close>). What a server does at one
  endpoint is a parameter: how the connection and the feature exchange go, whether the two sends
  succeed, and what the successive reads give. A list of reads that ends before the exchange does stands
  for an exchange that is cut off by the deadline of the session. Next to its result an attempt gives
  the stanzas it sent.
\<close>

section \<open>The parameters\<close>

datatype defined_condition =
    DC_BadRequest | DC_Conflict | DC_FeatureNotImplemented | DC_Forbidden | DC_Gone | DC_InternalServerError
  | DC_ItemNotFound | DC_JidMalformed | DC_NotAcceptable | DC_NotAllowed | DC_NotAuthorized | DC_PolicyViolation
  | DC_RecipientUnavailable | DC_Redirect | DC_RegistrationRequired | DC_RemoteServerNotFound
  | DC_RemoteServerTimeout | DC_ResourceConstraint | DC_ServiceUnavailable | DC_SubscriptionRequired
  | DC_UndefinedCondition | DC_UnexpectedRequest

text \<open>The legacy registration query; \<open>lq_fields\<close> are the fields this code passes on unread.\<close>

record legacy_query =
  lq_registered :: bool
  lq_username :: "ustr option"
  lq_password :: "ustr option"
  lq_fields :: "(ustr \<times> ustr) list"

record 'e register_parsers = "'e parsers" +
  rp_condition :: "'e \<Rightarrow> defined_condition"
  rp_fields_query :: 'e
  rp_form_query :: "'e \<Rightarrow> bool"
  rp_legacy_query :: "'e \<Rightarrow> legacy_query option"
  rp_legacy_element :: "legacy_query \<Rightarrow> 'e"

datatype 'e stream_element = El_Stanza "'e stanza" | El_StreamError ustr | El_Other

datatype 'e stream_read = Read_TimedOut | Read_Closed | Read_Invalid ustr | Read_Element "'e stream_element"

record 'e register_endpoint =
  re_connect :: "xmpp_error option"
  re_features :: "ustr + stream_features"
  re_first_send :: "ustr option"
  re_second_send :: "ustr option"
  re_reads :: "'e stream_read list"

record register_request =
  rr_username :: ustr
  rr_server :: ustr
  rr_password :: secret_string

datatype attempt_error = RA_TlsVerification ustr | RA_Connection ustr | RA_Protocol ustr

section \<open>One attempt\<close>

definition registration_refusal :: "stream_features \<Rightarrow> ustr option" where
  "registration_refusal features =
     (if \<not> sf_in_band_registration features
      then Some (lit ''this server does not support in-band registration'') else None)"

definition registration_error_detail :: "defined_condition \<Rightarrow> ustr" where
  "registration_error_detail c =
     (case c of
        DC_Conflict \<Rightarrow> lit ''this username is already registered''
      | DC_NotAcceptable \<Rightarrow> lit ''the server did not accept the registration details''
      | DC_NotAllowed \<Rightarrow> lit ''this server does not allow registration''
      | DC_Forbidden \<Rightarrow> lit ''this server does not allow registration''
      | DC_ServiceUnavailable \<Rightarrow> lit ''registration is temporarily unavailable''
      | DC_FeatureNotImplemented \<Rightarrow> lit ''this server does not support in-band registration''
      | _ \<Rightarrow> lit ''the server refused the registration'')"

definition read_registration_element :: "'e stream_read \<Rightarrow> attempt_error + 'e stream_element" where
  "read_registration_element r =
     (case r of
        Read_TimedOut \<Rightarrow> Inl (RA_Connection (lit ''timed out waiting for the server during registration''))
      | Read_Closed \<Rightarrow> Inl (RA_Connection (lit ''the server closed the stream during registration''))
      | Read_Invalid e \<Rightarrow> Inl (RA_Connection (lit ''invalid data from the server during registration: '' @ e))
      | Read_Element (El_StreamError e) \<Rightarrow>
          Inl (RA_Protocol (lit ''the server closed the stream during registration: '' @ e))
      | Read_Element element \<Rightarrow> Inr element)"

fun iq_id :: "'e iq \<Rightarrow> ustr" where
  "iq_id (Iq_Get _ _ i _) = i"
| "iq_id (Iq_Set _ _ i _) = i"
| "iq_id (Iq_Result _ _ i _) = i"
| "iq_id (Iq_Error _ _ i _) = i"

text \<open>The loops that wait for the answer with an identifier: the answer and the reads that are left, or
  nothing when the reads run out first.\<close>

fun await_iq :: "ustr \<Rightarrow> 'e stream_read list \<Rightarrow> ((attempt_error + 'e iq) \<times> 'e stream_read list) option" where
  "await_iq i [] = None"
| "await_iq i (r # rs) =
     (case read_registration_element r of
        Inl e \<Rightarrow> Some (Inl e, rs)
      | Inr (El_Stanza (St_Iq iq)) \<Rightarrow> if iq_id iq = i then Some (Inr iq, rs) else await_iq i rs
      | Inr _ \<Rightarrow> await_iq i rs)"

text \<open>What the answer to the fields query leads to: the query to submit, or the end.\<close>

definition fields_submission ::
  "('e, 'm) register_parsers_scheme \<Rightarrow> ustr \<Rightarrow> ustr \<Rightarrow> 'e iq \<Rightarrow> attempt_error + legacy_query" where
  "fields_submission L username password response =
     (case response of
        Iq_Result _ _ _ (Some payload) \<Rightarrow>
          if rp_form_query L payload
          then Inl (RA_Protocol (lit ''server requires additional registration fields''))
          else (case rp_legacy_query L payload of
              None \<Rightarrow> Inl (RA_Protocol (lit ''unexpected response to registration fields query''))
            | Some q \<Rightarrow>
                if lq_registered q then Inl (RA_Protocol (lit ''this username is already registered''))
                else Inr (q\<lparr>lq_username := Some username, lq_password := Some password\<rparr>))
      | Iq_Error _ _ _ payload \<Rightarrow> Inl (RA_Protocol (registration_error_detail (rp_condition L payload)))
      | _ \<Rightarrow> Inl (RA_Protocol (lit ''unexpected response to registration fields query'')))"

definition submission_result :: "('e, 'm) register_parsers_scheme \<Rightarrow> 'e iq \<Rightarrow> attempt_error + unit" where
  "submission_result L response =
     (case response of
        Iq_Result _ _ _ _ \<Rightarrow> Inr ()
      | Iq_Error _ _ _ payload \<Rightarrow> Inl (RA_Protocol (registration_error_detail (rp_condition L payload)))
      | _ \<Rightarrow> Inl (RA_Protocol (lit ''unexpected response to registration submission'')))"

definition fields_id :: "nat \<Rightarrow> ustr" where
  "fields_id now = lit ''mindchat-register-get-'' @ show_dec (unat (now_epoch_ms now))"

definition submit_id :: "nat \<Rightarrow> ustr" where
  "submit_id now = lit ''mindchat-register-set-'' @ show_dec (unat (now_epoch_ms now))"

definition registration_attempt ::
  "('e, 'm) register_parsers_scheme \<Rightarrow> nat \<Rightarrow> nat \<Rightarrow> ustr \<Rightarrow> ustr \<Rightarrow> jid \<Rightarrow> 'e register_endpoint
    \<Rightarrow> (attempt_error + unit) option \<times> 'e stanza list" where
  "registration_attempt L now1 now2 username password jid S =
     (case re_connect S of
        Some error \<Rightarrow>
          (Some (Inl (if is_tls_verification_error error
             then RA_TlsVerification (lit ''TLS certificate verification failed for '' @ pr_domain L jid @ lit '': ''
                @ xmpp_error_display error)
             else RA_Connection (xmpp_error_display error))), [])
      | None \<Rightarrow> (case re_features S of
          Inl e \<Rightarrow> (Some (Inl (RA_Connection e)), [])
        | Inr features \<Rightarrow> (case registration_refusal features of
            Some detail \<Rightarrow> (Some (Inl (RA_Protocol detail)), [])
          | None \<Rightarrow>
              let ask = St_Iq (Iq_Get None None (fields_id now1) (rp_fields_query L))
              in (case re_first_send S of
                    Some e \<Rightarrow> (Some (Inl (RA_Connection e)), [ask])
                  | None \<Rightarrow> (case await_iq (fields_id now1) (re_reads S) of
                      None \<Rightarrow> (None, [ask])
                    | Some (Inl e, _) \<Rightarrow> (Some (Inl e), [ask])
                    | Some (Inr response, reads) \<Rightarrow> (case fields_submission L username password response of
                        Inl e \<Rightarrow> (Some (Inl e), [ask])
                      | Inr q \<Rightarrow>
                          let submit = St_Iq (Iq_Set None None (submit_id now2) (rp_legacy_element L q))
                          in (case re_second_send S of
                                Some e \<Rightarrow> (Some (Inl (RA_Connection e)), [ask, submit])
                              | None \<Rightarrow> (case await_iq (submit_id now2) reads of
                                  None \<Rightarrow> (None, [ask, submit])
                                | Some (Inl e, _) \<Rightarrow> (Some (Inl e), [ask, submit])
                                | Some (Inr answer, _) \<Rightarrow> (Some (submission_result L answer), [ask, submit]))))))))) "

section \<open>The session\<close>

text \<open>The loop over the candidates with \<^verbatim>\<open>last_connection_error\<close>: the result, or nothing when the deadline of
  the session cuts an attempt off, and for each candidate that was tried the stanzas it was sent.\<close>

fun candidate_loop ::
  "(candidate \<Rightarrow> (attempt_error + unit) option \<times> 'e stanza list) \<Rightarrow> ustr \<Rightarrow> candidate list
    \<Rightarrow> (transport_error + unit) option \<times> (candidate \<times> 'e stanza list) list" where
  "candidate_loop attempt last_error [] = (Some (Inl (TE_ConnectionFailed last_error)), [])"
| "candidate_loop attempt last_error (c # cs) =
     (case attempt c of
        (None, sent) \<Rightarrow> (None, [(c, sent)])
      | (Some (Inr _), sent) \<Rightarrow> (Some (Inr ()), [(c, sent)])
      | (Some (Inl (RA_TlsVerification detail)), sent) \<Rightarrow> (Some (Inl (TE_TlsVerification detail)), [(c, sent)])
      | (Some (Inl (RA_Protocol detail)), sent) \<Rightarrow> (Some (Inl (TE_ConnectionFailed detail)), [(c, sent)])
      | (Some (Inl (RA_Connection detail)), sent) \<Rightarrow>
          (case candidate_loop attempt detail cs of (r, trace) \<Rightarrow> (r, (c, sent) # trace)))"

text \<open>The world of a session: the name services, the server at each candidate, the two clock readings of an
  attempt and whether the deadline strikes before the first attempt.\<close>

record 'e register_world =
  rw_names :: name_service
  rw_server :: "candidate \<Rightarrow> 'e register_endpoint"
  rw_clock :: "candidate \<Rightarrow> nat \<times> nat"

text \<open>The connector of an attempt is chosen by the candidate: a direct TLS connection or one upgraded by
  StartTLS, to its address.\<close>

definition registration_attempt_for_endpoint ::
  "('e, 'm) register_parsers_scheme \<Rightarrow> 'e register_world \<Rightarrow> ustr \<Rightarrow> ustr \<Rightarrow> jid \<Rightarrow> candidate
    \<Rightarrow> (attempt_error + unit) option \<times> 'e stanza list" where
  "registration_attempt_for_endpoint L W username password jid c =
     registration_attempt L (fst (rw_clock W c)) (snd (rw_clock W c)) username password jid (rw_server W c)"

lemma endpoint_attempt:
  "registration_attempt_for_endpoint L W u pw jid =
     (\<lambda>c. registration_attempt L (fst (rw_clock W c)) (snd (rw_clock W c)) u pw jid (rw_server W c))"
  by (simp add: fun_eq_iff registration_attempt_for_endpoint_def)

definition run_registration ::
  "('e, 'm) register_parsers_scheme \<Rightarrow> 'e register_world \<Rightarrow> register_request
    \<Rightarrow> (transport_error + unit) option \<times> (candidate \<times> 'e stanza list) list" where
  "run_registration L W request =
     (case pr_jid L (rr_username request @ lit ''@'' @ rr_server request) of
        None \<Rightarrow> (Some (Inl (TE_ProtocolViolation
          (lit ''invalid username or server supplied for XMPP registration''))), [])
      | Some jid \<Rightarrow> (case resolve_endpoints (rw_names W) (rr_server request) of
            Inl e \<Rightarrow> (Some (Inl (TE_ConnectionFailed e)), [])
          | Inr attempts \<Rightarrow> candidate_loop
              (registration_attempt_for_endpoint L W (rr_username request) (into_inner (rr_password request)) jid)
              (lit ''no connection candidates'') attempts))"

definition run_registration_bounded ::
  "('e, 'm) register_parsers_scheme \<Rightarrow> 'e register_world \<Rightarrow> register_request
    \<Rightarrow> (transport_error + unit) \<times> (candidate \<times> 'e stanza list) list" where
  "run_registration_bounded L W request =
     (case run_registration L W request of
        (None, trace) \<Rightarrow> (Inl (TE_ConnectionFailed (lit ''registration exceeded 30 seconds'')), trace)
      | (Some r, trace) \<Rightarrow> (r, trace))"

text \<open>How the worker thread of \<^verbatim>\<open>register\<close> fares: it does not start, has no runtime, crashes, is not done
  after 35 seconds, ends without an answer, or runs the session.\<close>

datatype register_thread =
    RT_Spawn_Failed ustr | RT_No_Runtime ustr | RT_Crashed | RT_Late | RT_Gone | RT_Runs

definition register ::
  "('e, 'm) register_parsers_scheme \<Rightarrow> 'e register_world \<Rightarrow> register_thread \<Rightarrow> register_request \<Rightarrow> transport_error + unit" where
  "register L W t request =
     (case t of
        RT_Spawn_Failed e \<Rightarrow> Inl (TE_ConnectionFailed e)
      | RT_No_Runtime e \<Rightarrow> Inl (TE_ConnectionFailed e)
      | RT_Crashed \<Rightarrow> Inl (TE_ConnectionFailed (lit ''XMPP registration worker crashed''))
      | RT_Late \<Rightarrow> Inl (TE_ConnectionFailed (lit ''registration did not finish within its time bound''))
      | RT_Gone \<Rightarrow> Inl (TE_ConnectionFailed (lit ''XMPP registration worker stopped unexpectedly''))
      | RT_Runs \<Rightarrow> fst (run_registration_bounded L W request))"

section \<open>Who learns the password, and when registration succeeds\<close>

lemma await_iq_Some:
  "await_iq i reads = Some (Inr iq, rest) \<Longrightarrow> iq_id iq = i \<and> Read_Element (El_Stanza (St_Iq iq)) \<in> set reads
     \<and> set rest \<subseteq> set reads"
  by (induction i reads rule: await_iq.induct)
    (auto simp: read_registration_element_def split: sum.splits stream_element.splits stanza.splits if_splits
      stream_read.splits)

text \<open>The query a server offered to fill in: the payload of an answer it sent, neither a form nor a note that
  the name is taken.\<close>

definition offered :: "('e, 'm) register_parsers_scheme \<Rightarrow> 'e register_endpoint \<Rightarrow> legacy_query \<Rightarrow> bool" where
  "offered L S q \<longleftrightarrow> \<not> lq_registered q \<and> (\<exists>from to i payload.
     Read_Element (El_Stanza (St_Iq (Iq_Result from to i (Some payload)))) \<in> set (re_reads S)
     \<and> \<not> rp_form_query L payload \<and> rp_legacy_query L payload = Some q)"

lemma fields_submission_Inr:
  "fields_submission L u p response = Inr q \<Longrightarrow> \<exists>from to i payload q0. response = Iq_Result from to i (Some payload)
     \<and> \<not> rp_form_query L payload \<and> rp_legacy_query L payload = Some q0 \<and> \<not> lq_registered q0
     \<and> q = q0\<lparr>lq_username := Some u, lq_password := Some p\<rparr>"
  by (auto simp: fields_submission_def split: iq.splits option.splits if_splits)

lemma attempt_discloses:
  assumes "St_Iq (Iq_Set from to i e) \<in> set (snd (registration_attempt L n1 n2 u p j S))"
  shows "re_connect S = None \<and> (\<exists>features. re_features S = Inr features \<and> sf_in_band_registration features)
    \<and> (\<exists>q. offered L S q \<and> e = rp_legacy_element L (q\<lparr>lq_username := Some u, lq_password := Some p\<rparr>))"
proof -
  obtain features response rest q where ok: "re_connect S = None" "re_features S = Inr features"
      "registration_refusal features = None" "await_iq (fields_id n1) (re_reads S) = Some (Inr response, rest)"
      "fields_submission L u p response = Inr q" "e = rp_legacy_element L q"
    using assms by (auto simp: registration_attempt_def Let_def split: option.splits sum.splits if_splits prod.splits)
  obtain q0 where q0: "offered L S q0" "q = q0\<lparr>lq_username := Some u, lq_password := Some p\<rparr>"
    using fields_submission_Inr [OF ok(5)] await_iq_Some [OF ok(4)] unfolding offered_def by blast
  moreover have "sf_in_band_registration features" using ok(3) by (simp add: registration_refusal_def split: if_splits)
  ultimately show ?thesis using ok by blast
qed

lemma attempt_succeeds:
  assumes "fst (registration_attempt L n1 n2 u p j S) = Some (Inr ())"
  shows "\<exists>from to payload. Read_Element (El_Stanza (St_Iq (Iq_Result from to (submit_id n2) payload))) \<in> set (re_reads S)"
proof -
  obtain rest answer rest' response where ok: "await_iq (fields_id n1) (re_reads S) = Some (Inr response, rest)"
      "await_iq (submit_id n2) rest = Some (Inr answer, rest')" "submission_result L answer = Inr ()"
    using assms by (auto simp: registration_attempt_def Let_def split: option.splits sum.splits if_splits prod.splits)
  obtain sender recipient payload where "answer = Iq_Result sender recipient (submit_id n2) payload"
    using ok(3) await_iq_Some [OF ok(2)] by (auto simp: submission_result_def split: iq.splits)
  then show ?thesis using await_iq_Some [OF ok(2)] await_iq_Some [OF ok(1)] by blast
qed

lemma candidate_loop_trace:
  "candidate_loop f e cs = (r, trace) \<Longrightarrow> (c, sent) \<in> set trace \<Longrightarrow> sent = snd (f c)"
  by (induction f e cs arbitrary: trace rule: candidate_loop.induct)
    (auto split: prod.splits option.splits sum.splits attempt_error.splits)

lemma candidate_loop_success:
  "candidate_loop f e cs = (Some (Inr ()), trace) \<Longrightarrow> \<exists>before c. trace = before @ [(c, snd (f c))]
     \<and> fst (f c) = Some (Inr ()) \<and> (\<forall>(b, sent) \<in> set before. \<exists>d. fst (f b) = Some (Inl (RA_Connection d)))"
proof (induction f e cs arbitrary: trace rule: candidate_loop.induct)
  case (2 f e c cs)
  obtain r sent where f: "f c = (r, sent)" by fastforce
  consider (won) "r = Some (Inr ())" "trace = [(c, sent)]"
    | (next_one) d tr where "r = Some (Inl (RA_Connection d))" "candidate_loop f d cs = (Some (Inr ()), tr)" "trace = (c, sent) # tr"
    using "2.prems" f by (auto split: option.splits sum.splits attempt_error.splits prod.splits)
  then show ?case
  proof cases
    case won
    then show ?thesis using f by auto
  next
    case next_one
    obtain before c' where "tr = before @ [(c', snd (f c'))]" "fst (f c') = Some (Inr ())"
      "\<forall>(b, sent) \<in> set before. \<exists>d. fst (f b) = Some (Inl (RA_Connection d))"
      using "2.IH" [OF f [symmetric]] next_one by blast
    then show ?thesis using f next_one by (auto intro!: exI [of _ "(c, sent) # before"] exI [of _ c'])
  qed
qed simp

text \<open>A session tries nothing, or runs the loop over its candidates.\<close>

lemma registration_cases:
  assumes "run_registration_bounded L W request = (r, trace)"
  obtains (none) "trace = []" "r \<noteq> Inr ()"
    | (loop) jid attempts r' where
        "candidate_loop (\<lambda>c. registration_attempt L (fst (rw_clock W c)) (snd (rw_clock W c)) (rr_username request)
           (into_inner (rr_password request)) jid (rw_server W c)) (lit ''no connection candidates'') attempts = (r', trace)"
        "r = Inr () \<Longrightarrow> r' = Some (Inr ())"
  using assms by (auto simp: run_registration_bounded_def run_registration_def endpoint_attempt
      split: option.splits sum.splits prod.splits)

text \<open>C38: A registration sends the new account's password to a server only over a connection that was
  established, after the server advertised in-band registration and offered the plain query, which is
  returned with the user name and the password filled in. It succeeds only when a server has confirmed
  that submission, and every server tried before it failed at the connection.\<close>

theorem registration_spec:
  assumes "run_registration_bounded L W request = (r, trace)"
  shows "(\<forall>(c, sent) \<in> set trace. \<forall>from to i e. St_Iq (Iq_Set from to i e) \<in> set sent \<longrightarrow>
      re_connect (rw_server W c) = None
      \<and> (\<exists>features. re_features (rw_server W c) = Inr features \<and> sf_in_band_registration features)
      \<and> (\<exists>q. offered L (rw_server W c) q \<and> e = rp_legacy_element L
          (q\<lparr>lq_username := Some (rr_username request), lq_password := Some (into_inner (rr_password request))\<rparr>)))
    \<and> (r = Inr () \<longrightarrow> (\<exists>before c sent from to payload. trace = before @ [(c, sent)]
        \<and> Read_Element (El_Stanza (St_Iq (Iq_Result from to (submit_id (snd (rw_clock W c))) payload))) \<in> set (re_reads (rw_server W c))
        \<and> (\<forall>(b, sent) \<in> set before. \<exists>jid d. fst (registration_attempt L (fst (rw_clock W b)) (snd (rw_clock W b))
             (rr_username request) (into_inner (rr_password request)) jid (rw_server W b)) = Some (Inl (RA_Connection d)))))"
proof -
  let ?f = "\<lambda>jid c. registration_attempt L (fst (rw_clock W c)) (snd (rw_clock W c))
          (rr_username request) (into_inner (rr_password request)) jid (rw_server W c)"
  from assms show ?thesis
  proof (cases rule: registration_cases)
    case none
    then show ?thesis by simp
  next
    case (loop jid attempts r')
    show ?thesis
    proof (intro conjI impI ballI, clarify)
      fix c sent x y i e
      assume "(c, sent) \<in> set trace" and "St_Iq (Iq_Set x y i e) \<in> set sent"
      with candidate_loop_trace [OF loop(1)] have "St_Iq (Iq_Set x y i e) \<in> set (snd (?f jid c))" by simp
      from attempt_discloses [OF this] show "re_connect (rw_server W c) = None
        \<and> (\<exists>features. re_features (rw_server W c) = Inr features \<and> sf_in_band_registration features)
        \<and> (\<exists>q. offered L (rw_server W c) q \<and> e = rp_legacy_element L
            (q\<lparr>lq_username := Some (rr_username request), lq_password := Some (into_inner (rr_password request))\<rparr>))" .
    next
      assume "r = Inr ()"
      from candidate_loop_success [of "?f jid", OF loop(1) [unfolded loop(2) [OF this]]]
      obtain before c where tr: "trace = before @ [(c, snd (?f jid c))]" and won: "fst (?f jid c) = Some (Inr ())"
        and before: "\<forall>(b, sent) \<in> set before. \<exists>d. fst (?f jid b) = Some (Inl (RA_Connection d))" by blast
      from before have "\<forall>(b, sent) \<in> set before. \<exists>jid d. fst (?f jid b) = Some (Inl (RA_Connection d))" by blast
      with attempt_succeeds [OF won] tr
      show "\<exists>before c sent x y payload. trace = before @ [(c, sent)]
        \<and> Read_Element (El_Stanza (St_Iq (Iq_Result x y (submit_id (snd (rw_clock W c))) payload))) \<in> set (re_reads (rw_server W c))
        \<and> (\<forall>(b, sent) \<in> set before. \<exists>jid d. fst (?f jid b) = Some (Inl (RA_Connection d)))" by blast
    qed
  qed
qed

section \<open>Concrete sessions\<close>

definition demo_register_parsers :: "(ustr \<times> ustr) register_parsers" where
  "demo_register_parsers = parsers.extend demo_parsers
     \<lparr>rp_condition = (\<lambda>_. DC_Conflict), rp_fields_query = (lit ''fields'', []), rp_form_query = (\<lambda>_. False),
      rp_legacy_query = (\<lambda>(t, _). Some \<lparr>lq_registered = (t = lit ''taken''), lq_username = None, lq_password = None, lq_fields = []\<rparr>),
      rp_legacy_element = (\<lambda>q. (lit ''legacy'', case lq_password q of None \<Rightarrow> [] | Some p \<Rightarrow> p))\<rparr>"

definition demo_register :: register_request where
  "demo_register = \<lparr>rr_username = lit ''carol'', rr_server = lit ''xmpp.example'', rr_password = SecretString (lit ''pw'')\<rparr>"

definition result_read :: "ustr \<Rightarrow> (ustr \<times> ustr) option \<Rightarrow> (ustr \<times> ustr) stream_read" where
  "result_read i payload = Read_Element (El_Stanza (St_Iq (Iq_Result None None i payload)))"

definition demo_endpoint :: "(ustr \<times> ustr) stream_read list \<Rightarrow> (ustr \<times> ustr) register_endpoint" where
  "demo_endpoint reads = \<lparr>re_connect = None,
     re_features = Inr \<lparr>sf_stream_management = False, sf_in_band_registration = True\<rparr>,
     re_first_send = None, re_second_send = None, re_reads = reads\<rparr>"

definition demo_world :: "(ustr \<times> ustr) register_world" where
  "demo_world = \<lparr>rw_names = demo_names,
     rw_server = (\<lambda>_. demo_endpoint [result_read (fields_id 0) (Some ([], [])), result_read (submit_id 0) None]),
     rw_clock = (\<lambda>_. (0, 0))\<rparr>"

lemma taken_text: "[] \<noteq> lit ''taken''"
  by (simp add: lit_def)

lemmas demo_register_defs = taken_text demo_register_parsers_def demo_parsers_def parsers.defs register_parsers.defs demo_register_def
  demo_endpoint_def result_read_def registration_attempt_def registration_refusal_def read_registration_element_def
  fields_submission_def submission_result_def

lemma demo_registered:
  "\<exists>trace. run_registration_bounded demo_register_parsers demo_world demo_register = (Inr (), trace)"
  using demo_names_resolve
  by (simp add: run_registration_bounded_def run_registration_def endpoint_attempt demo_world_def demo_register_defs)

theorem registration_spec_witness:
  "\<exists>trace before c sent x y payload. run_registration_bounded demo_register_parsers demo_world demo_register = (Inr (), trace)
     \<and> trace = before @ [(c, sent)]
     \<and> Read_Element (El_Stanza (St_Iq (Iq_Result x y (submit_id (snd (rw_clock demo_world c))) payload)))
        \<in> set (re_reads (rw_server demo_world c))"
proof -
  obtain trace where run: "run_registration_bounded demo_register_parsers demo_world demo_register = (Inr (), trace)"
    using demo_registered by blast
  from registration_spec [OF run] run show ?thesis by blast
qed

text \<open>A connection that breaks after the submission counts as a failure of the connection, and the next
  candidate is tried. When the first server had registered the account, the second one answers that the
  name is taken, and the registration is reported as refused.\<close>

lemma registration_tried_again:
  assumes "resolve_endpoints (rw_names W) (lit ''xmpp.example'') = Inr [c1, c2]" and "c1 \<noteq> c2"
    and "rw_clock W = (\<lambda>_. (0, 0))"
    and "rw_server W c1 = demo_endpoint [result_read (fields_id 0) (Some ([], [])), Read_TimedOut]"
    and "rw_server W c2 = demo_endpoint [result_read (fields_id 0) (Some (lit ''taken'', []))]"
  shows "\<exists>trace e. run_registration_bounded demo_register_parsers W demo_register
      = (Inl (TE_ConnectionFailed (lit ''this username is already registered'')), trace)
    \<and> St_Iq (Iq_Set None None (submit_id 0) e) \<in> set (snd (hd trace))"
  using assms
  by (simp add: run_registration_bounded_def run_registration_def endpoint_attempt demo_register_defs)

end
