(* ===== verification/Ffi_Handle.thy ===== *)
theory Ffi_Handle
  imports Ffi_Types Proxy_Handshake Xmpp_Transport Xmpp_Register
begin

text \<open>
  \<^verbatim>\<open>MindChatCoreHandle\<close> (\<^verbatim>\<open>ffi.rs\<close>): every operation that Kotlin can call, over the session (the
  coordinator of a core and a Tokio transport) and the track of the last save and load. Each mutex has
  a flag that says whether a panic has poisoned it. What lies outside is one record: the parsers, what
  the threads do while a call waits, the registration servers and the fate of the registration thread,
  the outcome of a probe, the clocks, serde and AES-GCM. The disk is passed and returned; a load gets it
  as it is at its two accesses.
\<close>

section \<open>State\<close>

text \<open>The surroundings of a proxy probe: dialling, base64 and \<^verbatim>\<open>Debug\<close> of a text, whether the runtime is built,
  whether the 15 seconds run out, and the milliseconds measured.\<close>

record probe_world =
  pb_dial :: "ustr \<Rightarrow> u16 \<Rightarrow> ustr + tcp_stream"
  pb_base64 :: "u8 list \<Rightarrow> ustr"
  pb_debug :: "ustr \<Rightarrow> ustr"
  pb_runtime :: "ustr + unit"
  pb_timed_out :: bool
  pb_elapsed :: nat

record 'e ffi_env =
  fe_parsers :: "'e register_parsers"
  fe_scheduler :: "'e scheduler"
  fe_world :: "'e register_world"
  fe_register_thread :: register_thread
  fe_probe :: probe_world
  fe_elapsed :: "nat \<Rightarrow> nat"
  fe_clock :: "nat option"
  fe_serde :: serde
  fe_aead :: aead

definition fe_adapter :: "'e ffi_env \<Rightarrow> tokio_transport xmpp_transport" where
  "fe_adapter E = tokio_adapter (parsers.truncate (fe_parsers E)) (fe_scheduler E)"

record persistence_track =
  trk_path :: "ustr option"
  trk_size_bytes :: "nat option"
  trk_schema_version :: "u32 option"
  trk_quarantined :: bool
  trk_last_saved_at_epoch_ms :: "u64 option"
  trk_last_loaded_at_epoch_ms :: "u64 option"
  trk_encrypted :: "bool option"

definition default_track :: persistence_track where
  "default_track = \<lparr>trk_path = None, trk_size_bytes = None, trk_schema_version = None, trk_quarantined = False,
     trk_last_saved_at_epoch_ms = None, trk_last_loaded_at_epoch_ms = None, trk_encrypted = None\<rparr>"

type_synonym ffi_session = "tokio_transport transport_coordinator"

record ffi_handle =
  fh_session :: ffi_session
  fh_session_poisoned :: bool
  fh_track :: persistence_track
  fh_track_poisoned :: bool

type_synonym 'a ffi_result = "(binding_error + 'a) \<times> ffi_handle"

definition ffi_new :: ffi_handle where
  "ffi_new = \<lparr>fh_session = \<lparr>tc_core = default_core, tc_transport = tokio_new\<rparr>, fh_session_poisoned = False,
     fh_track = default_track, fh_track_poisoned = False\<rparr>"

section \<open>Private helpers\<close>

definition MAX_TRANSPORT_EVENTS_PER_POLL :: u32 where
  "MAX_TRANSPORT_EVENTS_PER_POLL = 128"

definition validated_state_key :: "u8 list \<Rightarrow> binding_error + u8 list" where
  "validated_state_key key =
     (if length key = 32 then Inr key else Inl (BE_Internal (lit ''state key must be 32 bytes'')))"

text \<open>A clock before the epoch reads zero.\<close>

definition ffi_now_epoch_ms :: "nat option \<Rightarrow> u64" where
  "ffi_now_epoch_ms clock = (case clock of None \<Rightarrow> 0 | Some now \<Rightarrow> now_epoch_ms now)"

definition lock_poisoned :: binding_error where
  "lock_poisoned = BE_Internal (lit ''MindChat core lock was poisoned'')"

text \<open>\<^verbatim>\<open>self.lock()?\<close> and what is done under the lock.\<close>

definition locked :: "ffi_handle \<Rightarrow> (ffi_session \<Rightarrow> (binding_error + 'a) \<times> ffi_session) \<Rightarrow> 'a ffi_result" where
  "locked h f =
     (if fh_session_poisoned h then (Inl lock_poisoned, h)
      else let (r, s) = f (fh_session h) in (r, h\<lparr>fh_session := s\<rparr>))"

text \<open>\<^verbatim>\<open>self.lock()?.core_mut().operation(...).map_err(Into::into)\<close>, and the same for the coordinator.\<close>

definition in_core :: "ffi_handle \<Rightarrow> (mindchat_core \<Rightarrow> 'a core_result) \<Rightarrow> 'a ffi_result" where
  "in_core h f = locked h (\<lambda>s. let (r, c) = f (tc_core s)
     in (map_sum binding_of_core (\<lambda>a. a) r, s\<lparr>tc_core := c\<rparr>))"

definition in_session ::
  "ffi_handle \<Rightarrow> (ffi_session \<Rightarrow> (tokio_transport, 'a) coordinator_result) \<Rightarrow> 'a ffi_result" where
  "in_session h f = locked h (\<lambda>s. let (r, s1) = f s in (map_sum binding_of_coordinator (\<lambda>a. a) r, s1))"

section \<open>Operations on the core\<close>

definition ffi_add_account :: "ffi_handle \<Rightarrow> ustr \<Rightarrow> ustr \<Rightarrow> ustr \<Rightarrow> u64 ffi_result" where
  "ffi_add_account h jid server display_name =
     in_core h (\<lambda>c. add_account c \<lparr>setup_jid = jid, setup_server = server, setup_display_name = display_name\<rparr>)"

definition ffi_set_connection_state :: "ffi_handle \<Rightarrow> u64 \<Rightarrow> ffi_connection_state \<Rightarrow> unit ffi_result" where
  "ffi_set_connection_state h account_id state =
     in_core h (\<lambda>c. set_connection_state c account_id (connection_state_from_ffi state))"

definition ffi_set_capabilities :: "ffi_handle \<Rightarrow> u64 \<Rightarrow> ffi_protocol_capability list \<Rightarrow> unit ffi_result" where
  "ffi_set_capabilities h account_id capabilities =
     in_core h (\<lambda>c. set_capabilities c account_id (map capability_from_ffi capabilities))"

definition ffi_upsert_contact ::
  "ffi_handle \<Rightarrow> u64 \<Rightarrow> ustr \<Rightarrow> ustr \<Rightarrow> ffi_contact_presence \<Rightarrow> ustr option \<Rightarrow> unit ffi_result" where
  "ffi_upsert_contact h account_id jid display_name presence status =
     in_core h (\<lambda>c. upsert_contact c account_id jid display_name (contact_presence_from_ffi presence) status)"

definition ffi_open_conversation ::
  "ffi_handle \<Rightarrow> u64 \<Rightarrow> ffi_conversation_kind \<Rightarrow> ustr \<Rightarrow> ustr \<Rightarrow> u64 \<Rightarrow> u64 ffi_result" where
  "ffi_open_conversation h account_id kind address title now =
     in_core h (\<lambda>c. open_conversation c account_id (conversation_kind_from_ffi kind) address title now)"

definition ffi_send_text :: "ffi_handle \<Rightarrow> u64 \<Rightarrow> ustr \<Rightarrow> ustr \<Rightarrow> u64 option \<Rightarrow> u64 \<Rightarrow> u64 ffi_result" where
  "ffi_send_text h conversation_id sender body in_reply_to now =
     in_core h (\<lambda>c. send_text c conversation_id sender body in_reply_to now)"

definition ffi_receive_text :: "ffi_handle \<Rightarrow> u64 \<Rightarrow> ustr \<Rightarrow> ustr \<Rightarrow> u64 \<Rightarrow> u64 ffi_result" where
  "ffi_receive_text h conversation_id sender body now =
     in_core h (\<lambda>c. receive_text c conversation_id sender body now)"

definition ffi_add_reaction :: "ffi_handle \<Rightarrow> u64 \<Rightarrow> ustr \<Rightarrow> ustr \<Rightarrow> u64 ffi_result" where
  "ffi_add_reaction h message_id actor emoji = in_core h (\<lambda>c. add_reaction c message_id actor emoji)"

definition ffi_mark_conversation_read :: "ffi_handle \<Rightarrow> u64 \<Rightarrow> unit ffi_result" where
  "ffi_mark_conversation_read h conversation_id = in_core h (\<lambda>c. mark_conversation_read c conversation_id)"

definition ffi_update_account_display_name :: "ffi_handle \<Rightarrow> u64 \<Rightarrow> ustr \<Rightarrow> unit ffi_result" where
  "ffi_update_account_display_name h account_id display_name =
     (if trim display_name = [] then (Inl (BE_InvalidInput (lit ''a display name is required'')), h)
      else in_core h (\<lambda>c. update_account_display_name c account_id display_name))"

definition ffi_delete_conversation :: "ffi_handle \<Rightarrow> u64 \<Rightarrow> unit ffi_result" where
  "ffi_delete_conversation h conversation_id = in_core h (\<lambda>c. delete_conversation c conversation_id)"

definition ffi_drain_events :: "ffi_handle \<Rightarrow> ffi_core_event list ffi_result" where
  "ffi_drain_events h = in_core h (\<lambda>c. let (es, c1) = drain_events c in (Inr (map ffi_core_event_from es), c1))"

definition ffi_snapshot :: "ffi_handle \<Rightarrow> ffi_core_snapshot ffi_result" where
  "ffi_snapshot h = in_core h (\<lambda>c. (Inr (ffi_core_snapshot_from (snapshot c)), c))"

text \<open>\<^verbatim>\<open>iter().map(to_proxy_config).collect::<Result<Vec<_>, _>>()\<close>: the first error, or every value.\<close>

fun collect_results :: "('e + 'a) list \<Rightarrow> 'e + 'a list" where
  "collect_results [] = Inr []"
| "collect_results (Inl e # rs) = Inl e"
| "collect_results (Inr a # rs) = map_sum (\<lambda>e. e) ((#) a) (collect_results rs)"

definition ffi_set_account_proxies :: "ffi_handle \<Rightarrow> u64 \<Rightarrow> ffi_proxy_config list option \<Rightarrow> unit ffi_result" where
  "ffi_set_account_proxies h account_id proxies =
     (case collect_results (map to_proxy_config (case proxies of None \<Rightarrow> [] | Some ps \<Rightarrow> ps)) of
        Inl e \<Rightarrow> (Inl e, h)
      | Inr ps \<Rightarrow> in_core h (\<lambda>c. set_account_proxies c account_id ps))"

definition ffi_account_proxies :: "ffi_handle \<Rightarrow> u64 \<Rightarrow> ffi_proxy_config list ffi_result" where
  "ffi_account_proxies h account_id =
     in_core h (\<lambda>c. (map_sum (\<lambda>e. e) (map ffi_proxy_config_from) (account_proxies c account_id), c))"

section \<open>Operations on the session\<close>

definition password_required :: binding_error where
  "password_required = BE_InvalidInput (lit ''a password is required'')"

definition ffi_connect_account :: "'e ffi_env \<Rightarrow> ffi_handle \<Rightarrow> u64 \<Rightarrow> ustr \<Rightarrow> unit ffi_result" where
  "ffi_connect_account E h account_id password =
     (if password = [] then (Inl password_required, h)
      else in_session h (\<lambda>s. tc_connect (fe_adapter E) s account_id (SecretString password)))"

definition ffi_connect_account_with_proxy ::
  "'e ffi_env \<Rightarrow> ffi_handle \<Rightarrow> u64 \<Rightarrow> ustr \<Rightarrow> ffi_proxy_config option \<Rightarrow> ustr option \<Rightarrow> unit ffi_result" where
  "ffi_connect_account_with_proxy E h account_id password proxy proxy_password =
     (if password = [] then (Inl password_required, h)
      else (case (case proxy of None \<Rightarrow> Inr None | Some config \<Rightarrow> map_sum (\<lambda>e. e) Some (to_proxy_config config)) of
          Inl e \<Rightarrow> (Inl e, h)
        | Inr px \<Rightarrow> in_session h (\<lambda>s. connect_with_proxy (fe_adapter E) s account_id (SecretString password) px
            (map_option SecretString proxy_password))))"

definition ffi_test_proxy :: "'e ffi_env \<Rightarrow> ffi_proxy_config \<Rightarrow> ustr option \<Rightarrow> ffi_proxy_probe" where
  "ffi_test_proxy E config proxy_password =
     (case to_proxy_config config of
        Inl error \<Rightarrow> \<lparr>fpp_ok = False, fpp_latency_ms = 0, fpp_error = Some (binding_error_display error)\<rparr>
      | Inr proxy \<Rightarrow>
          let p = fe_probe E
          in ffi_proxy_probe_from (proxy_probe (pb_dial p) (pb_base64 p) (pb_debug p) (pb_runtime p) (pb_timed_out p)
               (pb_elapsed p) proxy proxy_password))"

definition ffi_register_account ::
  "'e ffi_env \<Rightarrow> ffi_handle \<Rightarrow> ustr \<Rightarrow> ustr \<Rightarrow> ustr \<Rightarrow> ustr \<Rightarrow> u64 ffi_result" where
  "ffi_register_account E h username server display_name password =
     (if password = [] then (Inl password_required, h)
      else if trim username = [] then (Inl (BE_InvalidInput (lit ''a username is required'')), h)
      else if trim server = [] then (Inl (BE_InvalidInput (lit ''a server hostname is required'')), h)
      else locked h (\<lambda>s.
        let jid = username @ lit ''@'' @ server in
        try_q (map_sum binding_of_transport (\<lambda>a. a) (register (fe_parsers E) (fe_world E) (fe_register_thread E)
            \<lparr>rr_username = username, rr_server = server, rr_password = SecretString password\<rparr>)) s (\<lambda>_.
        let (r, c) = add_account (tc_core s) \<lparr>setup_jid = jid, setup_server = server, setup_display_name = display_name\<rparr>;
            s1 = s\<lparr>tc_core := c\<rparr>
        in try_q (map_sum binding_of_core (\<lambda>a. a) r) s1 (\<lambda>account_id.
        let (r2, s2) = tc_connect (fe_adapter E) s1 account_id (SecretString password)
        in try_q (map_sum binding_of_coordinator (\<lambda>a. a) r2) s2 (\<lambda>_. (Inr account_id, s2))))))"

definition ffi_disconnect_account :: "'e ffi_env \<Rightarrow> ffi_handle \<Rightarrow> u64 \<Rightarrow> unit ffi_result" where
  "ffi_disconnect_account E h account_id = in_session h (\<lambda>s. tc_disconnect (fe_adapter E) s account_id)"

text \<open>The result of the best-effort disconnect is dropped.\<close>

definition ffi_delete_account :: "'e ffi_env \<Rightarrow> ffi_handle \<Rightarrow> u64 \<Rightarrow> unit ffi_result" where
  "ffi_delete_account E h account_id = locked h (\<lambda>s.
     if \<not> list_ex (\<lambda>account. acct_id account = account_id) (accounts (tc_core s))
     then (Inl (BE_NotFound (lit ''unknown account '' @ show_u64 account_id)), s)
     else
       let s1 = (if List.member (connected_accounts (tc_transport s)) account_id
             then s\<lparr>tc_transport := snd (tr_disconnect (fe_adapter E) (tc_transport s) account_id)\<rparr> else s);
           (r, c) = delete_account (tc_core s1) account_id
       in (map_sum binding_of_core (\<lambda>a. a) r, s1\<lparr>tc_core := c\<rparr>))"

text \<open>\<^verbatim>\<open>u32::try_from(count).unwrap_or(u32::MAX)\<close>, and the same for \<^verbatim>\<open>u64\<close>.\<close>

definition saturate_u32 :: "nat \<Rightarrow> u32" where
  "saturate_u32 n = (if n < 2 ^ 32 then of_nat n else - 1)"

definition saturate_u64 :: "nat \<Rightarrow> u64" where
  "saturate_u64 n = (if n < 2 ^ 64 then of_nat n else - 1)"

definition ffi_poll_transport_events :: "'e ffi_env \<Rightarrow> ffi_handle \<Rightarrow> u32 \<Rightarrow> u32 ffi_result" where
  "ffi_poll_transport_events E h max_events = in_session h (\<lambda>s.
     let limit = min max_events MAX_TRANSPORT_EVENTS_PER_POLL;
         (r, s1) = poll_transport_events (fe_adapter E) s (unat limit)
     in (map_sum (\<lambda>e. e) saturate_u32 r, s1))"

definition ffi_flush_outbox :: "'e ffi_env \<Rightarrow> ffi_handle \<Rightarrow> u64 \<Rightarrow> u32 ffi_result" where
  "ffi_flush_outbox E h account_id = in_session h (\<lambda>s.
     (case find (\<lambda>account. acct_id account = account_id) (accounts (tc_core s)) of
        None \<Rightarrow> (Inl (CE_Core (UnknownAccount account_id)), s)
      | Some account \<Rightarrow>
          if acct_connection_state account \<noteq> CS_Online then (Inr 0, s)
          else let (r, s1) = flush_outbox (fe_adapter E) (fe_elapsed E) s account_id
               in (map_sum (\<lambda>e. e) saturate_u32 r, s1)))"

section \<open>Saving and loading\<close>

definition on_track :: "ffi_handle \<Rightarrow> (persistence_track \<Rightarrow> persistence_track) \<Rightarrow> ffi_handle" where
  "on_track h f = (if fh_track_poisoned h then h else h\<lparr>fh_track := f (fh_track h)\<rparr>)"

text \<open>\<^verbatim>\<open>std::fs::metadata(path).ok().map(|metadata| metadata.len())\<close>.\<close>

definition metadata_len :: "disk \<Rightarrow> ustr \<Rightarrow> nat option" where
  "metadata_len d path = (if dk_stat_fault d = None then map_option length (dk_files d path) else None)"

definition record_save :: "'e ffi_env \<Rightarrow> disk \<Rightarrow> ffi_handle \<Rightarrow> ustr \<Rightarrow> ffi_handle" where
  "record_save E d h path = on_track h (\<lambda>t. t\<lparr>trk_path := Some path, trk_size_bytes := metadata_len d path,
     trk_schema_version := Some CURRENT_SCHEMA_VERSION,
     trk_last_saved_at_epoch_ms := Some (ffi_now_epoch_ms (fe_clock E))\<rparr>)"

definition record_save_secured :: "'e ffi_env \<Rightarrow> disk \<Rightarrow> ffi_handle \<Rightarrow> ustr \<Rightarrow> ffi_handle" where
  "record_save_secured E d h path = on_track h (\<lambda>t. t\<lparr>trk_path := Some path, trk_size_bytes := metadata_len d path,
     trk_schema_version := Some CURRENT_SCHEMA_VERSION,
     trk_last_saved_at_epoch_ms := Some (ffi_now_epoch_ms (fe_clock E)), trk_encrypted := Some True\<rparr>)"

definition record_load_secured ::
  "'e ffi_env \<Rightarrow> ffi_handle \<Rightarrow> ustr \<Rightarrow> state_file_metadata \<Rightarrow> bool \<Rightarrow> ffi_handle" where
  "record_load_secured E h path metadata encrypted = on_track h (\<lambda>t. t\<lparr>trk_path := Some path,
     trk_size_bytes := Some (sfm_size_bytes metadata), trk_schema_version := Some (sfm_schema_version metadata),
     trk_last_loaded_at_epoch_ms := Some (ffi_now_epoch_ms (fe_clock E)), trk_encrypted := Some encrypted\<rparr>)"

definition record_load_success :: "'e ffi_env \<Rightarrow> ffi_handle \<Rightarrow> ustr \<Rightarrow> state_file_metadata \<Rightarrow> ffi_handle" where
  "record_load_success E h path metadata = on_track h (\<lambda>t. t\<lparr>trk_path := Some path,
     trk_size_bytes := Some (sfm_size_bytes metadata), trk_schema_version := Some (sfm_schema_version metadata),
     trk_last_loaded_at_epoch_ms := Some (ffi_now_epoch_ms (fe_clock E))\<rparr>)"

definition record_load_missing :: "'e ffi_env \<Rightarrow> ffi_handle \<Rightarrow> ustr \<Rightarrow> ffi_handle" where
  "record_load_missing E h path = on_track h (\<lambda>t. t\<lparr>trk_path := Some path,
     trk_last_loaded_at_epoch_ms := Some (ffi_now_epoch_ms (fe_clock E))\<rparr>)"

definition record_load_failure ::
  "'e ffi_env \<Rightarrow> disk \<Rightarrow> ffi_handle \<Rightarrow> ustr \<Rightarrow> persistence_error \<Rightarrow> ffi_handle" where
  "record_load_failure E d h path error = on_track h (\<lambda>t. t\<lparr>trk_path := Some path,
     trk_size_bytes := metadata_len d path,
     trk_schema_version := (case error of PerUnsupportedVersion version \<Rightarrow> Some version | _ \<Rightarrow> trk_schema_version t),
     trk_quarantined := True,
     trk_last_loaded_at_epoch_ms := Some (ffi_now_epoch_ms (fe_clock E))\<rparr>)"

definition ffi_save_state ::
  "'e ffi_env \<Rightarrow> disk \<Rightarrow> ffi_handle \<Rightarrow> ustr \<Rightarrow> (binding_error + unit) \<times> ffi_handle \<times> disk" where
  "ffi_save_state E d h path =
     (if fh_session_poisoned h then (Inl lock_poisoned, h, d)
      else let (r, d1) = save_state (fe_serde E) d (snapshot (tc_core (fh_session h))) path
           in (case r of
                 Inl e \<Rightarrow> (Inl (binding_of_persistence e), h, d1)
               | Inr _ \<Rightarrow> (Inr (), record_save E d1 h path, d1)))"

definition ffi_save_state_secured ::
  "'e ffi_env \<Rightarrow> disk \<Rightarrow> ffi_handle \<Rightarrow> ustr \<Rightarrow> u8 list \<Rightarrow> (binding_error + unit) \<times> ffi_handle \<times> disk" where
  "ffi_save_state_secured E d h path key =
     (case validated_state_key key of
        Inl e \<Rightarrow> (Inl e, h, d)
      | Inr key \<Rightarrow>
          if fh_session_poisoned h then (Inl lock_poisoned, h, d)
          else let (r, d1) = save_state_encrypted (fe_serde E) (fe_aead E) d (snapshot (tc_core (fh_session h))) path key
               in (case r of
                     Inl e \<Rightarrow> (Inl (binding_of_persistence e), h, d1)
                   | Inr _ \<Rightarrow> (Inr (), record_save_secured E d1 h path, d1)))"

text \<open>The guards both loads begin with, under the lock.\<close>

definition load_guard :: "ffi_session \<Rightarrow> binding_error option" where
  "load_guard s =
     (if accounts (tc_core s) \<noteq> []
      then Some (BE_Internal (lit ''core already contains accounts; load_state must run before any mutation''))
      else if connected_accounts (tc_transport s) \<noteq> []
      then Some (BE_Internal (lit ''transport already has connected accounts; load_state must run before any connection''))
      else None)"

definition replace_core :: "ffi_handle \<Rightarrow> core_snapshot \<Rightarrow> ffi_handle" where
  "replace_core h snap = h\<lparr>fh_session := (fh_session h)\<lparr>tc_core := from_snapshot snap\<rparr>\<rparr>"

definition ffi_load_state :: "'e ffi_env \<Rightarrow> disk \<Rightarrow> disk \<Rightarrow> ffi_handle \<Rightarrow> ustr \<Rightarrow> bool ffi_result" where
  "ffi_load_state E d0 d1 h path =
     (if fh_session_poisoned h then (Inl lock_poisoned, h)
      else case load_guard (fh_session h) of
        Some e \<Rightarrow> (Inl e, h)
      | None \<Rightarrow> (case load_state_with_metadata (fe_serde E) d0 d1 path of
            Inr (Some (snap, metadata)) \<Rightarrow> (Inr True, record_load_success E (replace_core h snap) path metadata)
          | Inr None \<Rightarrow> (Inr False, record_load_missing E h path)
          | Inl error \<Rightarrow> (Inl (binding_of_persistence error), record_load_failure E d1 h path error)))"

definition ffi_load_state_secured ::
  "'e ffi_env \<Rightarrow> disk \<Rightarrow> disk \<Rightarrow> ffi_handle \<Rightarrow> ustr \<Rightarrow> u8 list \<Rightarrow> load_secured_result ffi_result" where
  "ffi_load_state_secured E d0 d1 h path key =
     (case validated_state_key key of
        Inl e \<Rightarrow> (Inl e, h)
      | Inr key \<Rightarrow>
          if fh_session_poisoned h then (Inl lock_poisoned, h)
          else case load_guard (fh_session h) of
            Some e \<Rightarrow> (Inl e, h)
          | None \<Rightarrow> (case load_state_encrypted (fe_serde E) (fe_aead E) d0 d1 path key of
                Inr (Encrypted snap metadata) \<Rightarrow>
                  (Inr \<lparr>lsr_outcome = FPO_Encrypted, lsr_loaded = True\<rparr>,
                   record_load_secured E (replace_core h snap) path metadata True)
              | Inr (PlaintextLegacy snap metadata) \<Rightarrow>
                  (Inr \<lparr>lsr_outcome = FPO_PlaintextLegacy, lsr_loaded = True\<rparr>,
                   record_load_secured E (replace_core h snap) path metadata False)
              | Inr Missing \<Rightarrow>
                  (Inr \<lparr>lsr_outcome = FPO_Missing, lsr_loaded = False\<rparr>, record_load_missing E h path)
              | Inl error \<Rightarrow> (Inl (binding_of_persistence error), record_load_failure E d1 h path error)))"

section \<open>Diagnostics\<close>

record ffi_diagnostics_report =
  fdr_account_count :: u64
  fdr_contact_count :: u64
  fdr_conversation_count :: u64
  fdr_message_count :: u64
  fdr_reaction_count :: u64
  fdr_state_path :: "ustr option"
  fdr_state_size_bytes :: "nat option"
  fdr_state_schema_version :: "u32 option"
  fdr_state_quarantined :: bool
  fdr_state_last_saved_at_epoch_ms :: "u64 option"
  fdr_state_last_loaded_at_epoch_ms :: "u64 option"

text \<open>A poisoned session counts as empty; a poisoned track is read all the same.\<close>

definition diagnostics_report :: "ffi_handle \<Rightarrow> ffi_diagnostics_report" where
  "diagnostics_report h =
     (let snap = (if fh_session_poisoned h then empty_snapshot else snapshot (tc_core (fh_session h)));
          t = fh_track h
      in \<lparr>fdr_account_count = saturate_u64 (length (snap_accounts snap)),
          fdr_contact_count = saturate_u64 (length (snap_contacts snap)),
          fdr_conversation_count = saturate_u64 (length (snap_conversations snap)),
          fdr_message_count = saturate_u64 (length (snap_messages snap)),
          fdr_reaction_count = saturate_u64 (length (snap_reactions snap)),
          fdr_state_path = trk_path t,
          fdr_state_size_bytes = trk_size_bytes t,
          fdr_state_schema_version = trk_schema_version t,
          fdr_state_quarantined = trk_quarantined t,
          fdr_state_last_saved_at_epoch_ms = trk_last_saved_at_epoch_ms t,
          fdr_state_last_loaded_at_epoch_ms = trk_last_loaded_at_epoch_ms t\<rparr>)"

end
