(* ===== verification/Xmpp_Shutdown.thy ===== *)
theory Xmpp_Shutdown
  imports Xmpp_Transport
begin

text \<open>
  The end of the worker threads of \<^verbatim>\<open>TokioXmppTransport\<close> (\<^verbatim>\<open>xmpp.rs\<close>): no thread outlives its handle
  with an open command channel, and a thread whose channel is closed ends after it has looked at that
  channel as often as there are commands in it, and once more.
\<close>

section \<open>No forgotten channel\<close>

text \<open>Outside \<open>X\<close>, a thread with an open command channel is owned by an account.\<close>

definition owned_but :: "nat set \<Rightarrow> tokio_transport \<Rightarrow> bool" where
  "owned_but X s \<longleftrightarrow> (\<forall>tid < length (tt_threads s). tid \<notin> X \<longrightarrow> th_open (tt_threads s ! tid) \<longrightarrow>
     (\<exists>a. hm_get (tt_workers s) a = Some tid))"

lemma owned_butD:
  "owned_but X s \<Longrightarrow> tid < length (tt_threads s) \<Longrightarrow> tid \<notin> X \<Longrightarrow> th_open (tt_threads s ! tid) \<Longrightarrow>
     \<exists>a. hm_get (tt_workers s) a = Some tid"
  by (simp add: owned_but_def)

definition tokio_tidy :: "tokio_transport \<Rightarrow> bool" where
  "tokio_tidy s \<longleftrightarrow> tokio_ok s \<and> owned_but {} s"

lemma tidy_ok: "tokio_tidy s \<Longrightarrow> tokio_ok s"
  by (simp add: tokio_tidy_def)

lemma tidy_new: "tokio_tidy tokio_new"
  using tokio_ok_new by (simp add: tokio_tidy_def owned_but_def tokio_new_def)

lemma owned_move: "owned_but X s \<Longrightarrow> owned_but X (thread_move L s mv)"
  by (simp add: owned_but_def thread_move_shape)

lemma owned_moves: "owned_but X s \<Longrightarrow> owned_but X (thread_moves L s mvs)"
  by (induction mvs arbitrary: s) (simp_all add: thread_moves_def owned_move)

lemma update_open:
  "k < length ts \<Longrightarrow> th_open (ts[tid := th] ! k) = (if k = tid then th_open th else th_open (ts ! k))"
  by (simp add: nth_list_update)

lemma owned_enqueue: "owned_but X s \<Longrightarrow> owned_but X (enqueue tid cmd s)"
  by (auto simp: owned_but_def enqueue_def Let_def update_open split: if_splits)

lemma owned_ask: "owned_but X s \<Longrightarrow> ask_worker L during late gone tid cmd s = (r, s') \<Longrightarrow> owned_but X s'"
  by (auto simp: ask_worker_def Let_def intro: owned_moves owned_enqueue split: if_splits option.splits)

lemma owned_close: "owned_but (insert tid X) s \<Longrightarrow> owned_but X (close_channel tid s)"
  by (auto simp: owned_but_def close_channel_def update_open split: if_splits)

lemma owned_remove:
  assumes "owned_but X s" and "hm_get (tt_workers s) a = Some tid"
  shows "owned_but (insert tid X) (s\<lparr>tt_workers := hm_remove a (tt_workers s)\<rparr>)"
  unfolding owned_but_def
proof (intro allI impI)
  fix k
  assume k: "k < length (tt_threads (s\<lparr>tt_workers := hm_remove a (tt_workers s)\<rparr>))" "k \<notin> insert tid X"
    "th_open (tt_threads (s\<lparr>tt_workers := hm_remove a (tt_workers s)\<rparr>) ! k)"
  then obtain b where "hm_get (tt_workers s) b = Some k" using owned_butD [OF assms(1), of k] by auto
  moreover from this k(2) assms(2) have "b \<noteq> a" by auto
  ultimately show "\<exists>b. hm_get (tt_workers (s\<lparr>tt_workers := hm_remove a (tt_workers s)\<rparr>)) b = Some k"
    by (auto simp: hm_get_delete)
qed

lemma tidy_move: "tokio_tidy s \<Longrightarrow> tokio_tidy (thread_move L s mv)"
  by (simp add: tokio_tidy_def tokio_ok_move owned_move)

lemma tidy_connect:
  assumes "tokio_tidy s"
  shows "tokio_tidy (snd (tokio_connect L spawn s request))"
proof -
  note own = assms [unfolded tokio_tidy_def, THEN conjunct2, THEN owned_butD]
  have "owned_but {} (s\<lparr>tt_workers := hm_insert i (length (tt_threads s)) (tt_workers s),
      tt_threads := tt_threads s @ [\<lparr>th_worker = w, th_channel = [], th_open = True\<rparr>]\<rparr>)"
    if fresh: "\<not> hm_contains (tt_workers s) i" for i w
  proof -
    have "\<exists>a. a \<noteq> i \<and> hm_get (tt_workers s) a = Some k" if k: "k < length (tt_threads s)" "th_open (tt_threads s ! k)" for k
    proof -
      obtain a where "hm_get (tt_workers s) a = Some k" using own [OF k(1) _ k(2)] by auto
      with fresh show ?thesis by (intro exI [of _ a]) (auto simp: hm_contains_def)
    qed
    then show ?thesis by (fastforce simp: owned_but_def nth_append less_Suc_eq hm.get_ins split: if_splits)
  qed
  then have "owned_but {} (snd (tokio_connect L spawn s request))"
    using assms by (auto simp: tokio_connect_def tokio_tidy_def Let_def split: sum.splits spawn_outcome.splits)
  then show ?thesis using tokio_ok_connect [OF tidy_ok [OF assms]] by (simp add: tokio_tidy_def)
qed

lemma tidy_disconnect:
  assumes "tokio_tidy s"
  shows "tokio_tidy (snd (tokio_disconnect L during s a))"
proof -
  have "owned_but {} (close_channel tid s2)"
    if "hm_get (tt_workers s) a = Some tid"
      and "ask_worker L during late gone tid cmd (s\<lparr>tt_workers := hm_remove a (tt_workers s)\<rparr>) = (r, s2)"
    for tid late gone cmd r s2
    using owned_close [OF owned_ask [OF owned_remove [OF _ that(1)] that(2)]] assms by (simp add: tokio_tidy_def)
  then have "owned_but {} (snd (tokio_disconnect L during s a))"
    using assms by (auto simp: tokio_disconnect_def tokio_tidy_def split: option.split prod.split)
  then show ?thesis using tokio_ok_disconnect [OF tidy_ok [OF assms]] by (simp add: tokio_tidy_def)
qed

lemma tidy_send:
  assumes "tokio_tidy s"
  shows "tokio_tidy (snd (tokio_send L during s m))"
proof -
  have "owned_but {} (snd (tokio_send L during s m))"
    using assms owned_ask [OF _ prod.collapse [symmetric], of "{}"]
    by (auto simp: tokio_send_def tokio_tidy_def split: option.split)
  then show ?thesis using tokio_ok_send [OF tidy_ok [OF assms]] by (simp add: tokio_tidy_def)
qed

lemma tidy_next:
  assumes "tokio_tidy s"
  shows "tokio_tidy (snd (tokio_next_event s))"
proof -
  have "owned_but {} (retire_worker t a)" if "owned_but {} t" for t a
    using that owned_close [OF owned_remove] by (auto simp: retire_worker_def split: option.split)
  moreover have "owned_but {} (s\<lparr>tt_queue := q\<rparr>)" for q using assms by (simp add: tokio_tidy_def owned_but_def)
  ultimately have "owned_but {} (snd (tokio_next_event s))"
    using assms by (auto simp: tokio_next_event_ok tidy_ok tokio_tidy_def split: list.split transport_event.split)
  then show ?thesis using tokio_ok_next [OF tidy_ok [OF assms]] by (simp add: tokio_tidy_def)
qed

section \<open>Dropping the transport closes every channel\<close>

text \<open>One round of the loop of \<^verbatim>\<open>drop\<close>.\<close>

abbreviation tell :: "tokio_transport \<Rightarrow> account_id \<times> nat \<Rightarrow> tokio_transport" where
  "tell \<equiv> \<lambda>s (_, tid).
     let s1 = (if thread_exited (tt_threads s ! tid) then s else enqueue tid Cmd_Disconnect s) in close_channel tid s1"

lemma tell_effect:
  "length (tt_threads (foldl tell s ws)) = length (tt_threads s)
   \<and> (k < length (tt_threads s) \<longrightarrow> (th_open (tt_threads (foldl tell s ws) ! k) \<longleftrightarrow>
        th_open (tt_threads s ! k) \<and> k \<notin> snd ` set ws))"
proof (induction ws arbitrary: s)
  case (Cons w ws)
  obtain a tid where w: "w = (a, tid)" by fastforce
  have "length (tt_threads (tell s w)) = length (tt_threads s)"
    "k < length (tt_threads s) \<Longrightarrow> th_open (tt_threads (tell s w) ! k) \<longleftrightarrow> th_open (tt_threads s ! k) \<and> k \<noteq> tid"
    by (auto simp: w close_channel_def enqueue_def Let_def update_open split: if_splits)
  with Cons.IH [of "tell s w"] show ?case by (auto simp: w)
qed simp

lemma drop_closes:
  assumes "tokio_tidy s" and "tid < length (tt_threads s)"
  shows "length (tt_threads (tokio_drop s)) = length (tt_threads s) \<and> \<not> th_open (tt_threads (tokio_drop s) ! tid)"
proof -
  have "tid \<in> snd ` set (tt_workers s)" if live: "th_open (tt_threads s ! tid)"
  proof -
    obtain a where "hm_get (tt_workers s) a = Some tid"
      using assms live owned_butD [of "{}" s tid] by (auto simp: tokio_tidy_def)
    then have "(a, tid) \<in> set (tt_workers s)" by (rule map_of_SomeD)
    then show ?thesis by force
  qed
  then show ?thesis using tell_effect [of s "tt_workers s" tid] assms(2) by (auto simp: tokio_drop_def)
qed

section \<open>A thread with a closed channel ends\<close>

text \<open>How often a thread still looks at its channel, at most.\<close>

definition remaining :: "worker_thread \<Rightarrow> nat" where
  "remaining th = (if thread_exited th then 0 else Suc (length (th_channel th)))"

text \<open>How often a schedule lets a thread take something from its channel, its end included.\<close>

definition channel_reads :: "'e parsers \<Rightarrow> nat \<Rightarrow> tokio_transport \<Rightarrow> 'e move list \<Rightarrow> nat" where
  "channel_reads L tid s mvs = length (filter (\<lambda>(t, i). t = tid \<and> is_command i) (made_moves L s mvs))"

lemma channel_reads_simps [simp]:
  "channel_reads L tid s [] = 0"
  "channel_reads L tid s (mv # mvs) =
     (if can_move s mv \<and> fst mv = tid \<and> is_command (snd mv) then 1 else 0) + channel_reads L tid (thread_move L s mv) mvs"
  by (simp_all add: channel_reads_def case_prod_beta)

lemma command_step:
  assumes "is_command i" and "takes w i" and "worker_step L w i = (outs, w')"
  shows "wk_phase w' = Phase_Exited \<or> asks_reply i"
  using assms
  by (auto simp: is_command_def worker_step_def connecting_step_def running_step_def takes_def exited_def asks_reply_def
      split: worker_input.splits worker_phase.splits)

lemma asking_is_command: "asks_reply i \<Longrightarrow> is_command i"
  by (auto simp: asks_reply_def is_command_def split: worker_input.splits)

lemma asked_channel: "offers_input th i \<Longrightarrow> asks_reply i \<Longrightarrow> th_channel th \<noteq> []"
  by (auto simp: offers_input_def asks_reply_def split: worker_input.splits list.splits)

text \<open>The measure: a read of the channel uses up one unit at least, and nothing adds any.\<close>

lemma move_remaining:
  "(if can_move s mv \<and> fst mv = tid \<and> is_command (snd mv) then 1 else 0) + remaining (tt_threads (thread_move L s mv) ! tid)
     \<le> remaining (tt_threads s ! tid)"
proof (cases "can_move s mv \<and> fst mv = tid")
  case True
  obtain i where mv: "mv = (tid, i)" using True by (cases mv) simp
  obtain outs w where st: "worker_step L (th_worker (tt_threads s ! tid)) i = (outs, w)" by fastforce
  have t: "tid < length (tt_threads s)" "takes (th_worker (tt_threads s ! tid)) i" "offers_input (tt_threads s ! tid) i"
    using True by (auto simp: can_move_def mv)
  have alive: "\<not> thread_exited (tt_threads s ! tid)"
    using t(2) by (auto simp: thread_exited_def takes_def)
  show ?thesis
    using True t(1) alive command_step [OF _ t(2) st] asked_channel [OF t(3)] asking_is_command [of i]
    by (auto simp: mv thread_move_def st Let_def remaining_def thread_exited_def Suc_le_eq)
next
  case False
  then show ?thesis
    by (cases mv) (auto simp: thread_move_def Let_def nth_list_update split: prod.split)
qed

lemma moves_remaining:
  "channel_reads L tid s mvs + remaining (tt_threads (thread_moves L s mvs) ! tid) \<le> remaining (tt_threads s ! tid)"
proof (induction mvs arbitrary: s)
  case (Cons mv mvs)
  from Cons.IH [of "thread_move L s mv"] move_remaining [of s mv tid L] show ?case
    by (simp add: thread_moves_def)
qed (simp add: thread_moves_def)

text \<open>The loop never waits for a command that cannot come.\<close>

lemma closed_progress:
  assumes "tid < length (tt_threads s)" and "\<not> th_open (tt_threads s ! tid)" and "\<not> thread_exited (tt_threads s ! tid)"
  shows "\<exists>i :: 'e worker_input. is_command i \<and> can_move s (tid, i)"
proof (cases "th_channel (tt_threads s ! tid)")
  case Nil
  then show ?thesis using assms
    by (intro exI [of _ W_Closed])
      (auto simp: is_command_def can_move_def takes_def offers_input_def thread_exited_def split: worker_phase.split)
next
  case (Cons c r)
  have move: "can_move s (tid, i)" if "offers_input (tt_threads s ! tid) i" "asks_reply i" for i :: "'e worker_input"
    using assms(1,3) that
    by (auto simp: can_move_def takes_def thread_exited_def asks_reply_def split: worker_phase.split worker_input.splits)
  show ?thesis
  proof (cases "snd c")
    case (Cmd_Send m)
    with Cons show ?thesis
      by (intro exI [of _ "W_Send m Send_Ok"] conjI move) (cases c; simp add: is_command_def offers_input_def asks_reply_def)+
  next
    case Cmd_Disconnect
    with Cons show ?thesis
      by (intro exI [of _ "W_Disconnect Close_Ok"] conjI move) (cases c; simp add: is_command_def offers_input_def asks_reply_def)+
  qed
qed

lemma moves_open: "th_open (tt_threads (thread_moves L s mvs) ! tid) = th_open (tt_threads s ! tid)"
  by (induction mvs arbitrary: s) (simp_all add: thread_moves_def thread_move_shape)

end
