(* ===== verification/Session_Wf.thy ===== *)
theory Session_Wf
  imports Xmpp_Shutdown
begin

text \<open>
  The invariant of a session, a core beside a transport: the core is well formed and the transport in a
  valid state. The locale \<open>sound_transport\<close> is what the coordinator relies on; every operation of the
  coordinator keeps the invariant over such a transport and uses up a bounded number of identifiers.
  The Tokio transport is one, whatever its threads do.
\<close>

definition session_ok :: "('t \<Rightarrow> bool) \<Rightarrow> 't transport_coordinator \<Rightarrow> bool" where
  "session_ok valid s \<longleftrightarrow> wf_core (tc_core s) \<and> valid (tc_transport s)"

text \<open>A result keeps the invariant and leaves the identifier counters at most at \<open>b\<close>.\<close>

definition kept :: "('t \<Rightarrow> bool) \<Rightarrow> nat \<Rightarrow> 'r \<times> 't transport_coordinator \<Rightarrow> bool" where
  "kept valid b p \<longleftrightarrow> session_ok valid (snd p) \<and> budget (tc_core (snd p)) \<le> b"

lemma keptI: "session_ok valid s \<Longrightarrow> budget (tc_core s) \<le> b \<Longrightarrow> kept valid b (r, s)"
  by (simp add: kept_def)

lemma kept_mono: "kept valid b p \<Longrightarrow> b \<le> b' \<Longrightarrow> kept valid b' p"
  by (auto simp: kept_def)

lemma core_operation_kept:
  assumes "core_operation g" and "session_ok valid s" and "budget (tc_core s) < 2 ^ 64 - 1"
  shows "kept valid (budget (tc_core s) + 1) (r, s\<lparr>tc_core := snd (g (tc_core s))\<rparr>)"
  using assms(2,3) core_operation.op_wf_bounded [OF assms(1)] core_operation.op_budget [OF assms(1)]
  by (simp add: kept_def session_ok_def)

lemma on_core_kept:
  assumes "core_operation g" and "session_ok valid s" and "budget (tc_core s) + 1 \<le> b" and "b < 2 ^ 64 - 1"
    and "\<And>a s1. session_ok valid s1 \<Longrightarrow> budget (tc_core s1) \<le> budget (tc_core s) + 1 \<Longrightarrow> kept valid b (k a s1)"
  shows "kept valid b (on_core (g (tc_core s)) s k)"
proof -
  have "kept valid (budget (tc_core s) + 1) ((), s\<lparr>tc_core := snd (g (tc_core s))\<rparr>)"
    using core_operation_kept [OF assms(1,2)] assms(3,4) by simp
  then have "session_ok valid (s\<lparr>tc_core := snd (g (tc_core s))\<rparr>)" "budget (snd (g (tc_core s))) \<le> budget (tc_core s) + 1"
    by (simp_all add: kept_def)
  then show ?thesis
    using assms(3,5) by (auto simp: on_core_def Let_def keptI split: sum.split)
qed

section \<open>Transports\<close>

locale sound_transport =
  fixes X :: "'t xmpp_transport" and valid :: "'t \<Rightarrow> bool"
  assumes connect_valid: "valid t \<Longrightarrow> valid (snd (tr_connect X t request))"
    and disconnect_valid: "valid t \<Longrightarrow> valid (snd (tr_disconnect X t account_id))"
    and send_valid: "valid t \<Longrightarrow> valid (snd (tr_send X t message))"
    and next_valid: "valid t \<Longrightarrow> valid (snd (tr_next_event X t))"
begin

lemma transport_step:
  "session_ok valid s \<Longrightarrow> valid t \<Longrightarrow> session_ok valid (s\<lparr>tc_transport := t\<rparr>)"
  by (simp add: session_ok_def)

lemma connect_kept:
  assumes "session_ok valid s" and "budget (tc_core s) + 2 < 2 ^ 64 - 1"
  shows "kept valid (budget (tc_core s) + 2) (connect_with_proxy X s i pw px pxpw)"
proof (cases "hm_get (core_accounts (tc_core s)) i")
  case (Some a)
  have step: "kept valid (budget (tc_core s) + 2) (let (r, t) = tr_connect X (tc_transport s1) q; s2 = s1\<lparr>tc_transport := t\<rparr>
      in case r of Inl e \<Rightarrow> on_core (set_connection_state (tc_core s2) i CS_Failed) s2 (\<lambda>_ s3. (Inl (CE_Transport e), s3))
         | Inr _ \<Rightarrow> (Inr (), s2))"
    if s1: "session_ok valid s1" "budget (tc_core s1) \<le> budget (tc_core s) + 1" for s1 q
  proof -
    obtain r t where rt: "tr_connect X (tc_transport s1) q = (r, t)" by fastforce
    then have "valid t" using connect_valid [of "tc_transport s1" q] s1(1) by (simp add: session_ok_def)
    note s2 = transport_step [OF s1(1) this]
    have "kept valid (budget (tc_core s) + 2) (on_core (set_connection_state (tc_core (s1\<lparr>tc_transport := t\<rparr>)) i CS_Failed)
        (s1\<lparr>tc_transport := t\<rparr>) (\<lambda>_ s3. (Inl (CE_Transport e), s3)))" for e
      by (rule on_core_kept [OF op_set_connection_state.core_operation_axioms s2])
        (use s1(2) assms(2) in \<open>auto intro: keptI\<close>)
    then show ?thesis using s2 s1(2) rt by (auto simp: Let_def intro: keptI split: sum.split)
  qed
  show ?thesis
    unfolding connect_with_proxy_def Some option.case
    by (subst Let_def, rule on_core_kept [OF op_set_connection_state.core_operation_axioms assms(1)])
      (use assms(2) in simp, use assms(2) in simp, rule step)
qed (use assms(1) in \<open>simp add: connect_with_proxy_def keptI\<close>)

lemma disconnect_kept:
  assumes "session_ok valid s" and "budget (tc_core s) + 1 < 2 ^ 64 - 1"
  shows "kept valid (budget (tc_core s) + 1) (tc_disconnect X s i)"
proof -
  obtain r t where rt: "tr_disconnect X (tc_transport s) i = (r, t)" by fastforce
  then have "valid t" using disconnect_valid [of "tc_transport s" i] assms(1) by (simp add: session_ok_def)
  note s1 = transport_step [OF assms(1) this]
  have "kept valid (budget (tc_core s) + 1) (on_core (apply_transport_event (tc_core (s\<lparr>tc_transport := t\<rparr>))
      (Disconnected i True None DK_Cancelled)) (s\<lparr>tc_transport := t\<rparr>) (\<lambda>_ s2. (Inr (), s2)))"
    by (rule on_core_kept [OF op_event.core_operation_axioms s1]) (use assms(2) in \<open>auto intro: keptI\<close>)
  then show ?thesis using rt s1 by (auto simp: tc_disconnect_def Let_def intro: keptI split: sum.split)
qed

lemma flush_loop_kept:
  "session_ok valid s \<Longrightarrow> budget (tc_core s) + length ms \<le> b \<Longrightarrow> b < 2 ^ 64 - 1 \<Longrightarrow> kept valid b (flush_loop X el n ms s)"
proof (induction ms arbitrary: n s)
  case (Cons m ms)
  obtain r t where rt: "tr_send X (tc_transport s) m = (r, t)" by fastforce
  then have "valid t" using send_valid [of "tc_transport s" m] Cons.prems(1) by (simp add: session_ok_def)
  note s1 = transport_step [OF Cons.prems(1) this]
  have "kept valid b (on_core (set_delivery_state (tc_core (s\<lparr>tc_transport := t\<rparr>)) (om_message_id m) DS_Failed)
      (s\<lparr>tc_transport := t\<rparr>) (\<lambda>_ s2. (Inl (CE_Transport e), s2)))" for e
    by (rule on_core_kept [OF op_delivery.core_operation_axioms s1]) (use Cons.prems in \<open>auto intro: keptI\<close>)
  moreover have "kept valid b (on_core (set_delivery_state (tc_core (s\<lparr>tc_transport := t\<rparr>)) (om_message_id m) DS_Sent)
      (s\<lparr>tc_transport := t\<rparr>) (\<lambda>_ s2. flush_loop X el (n + 1) ms s2))"
    by (rule on_core_kept [OF op_delivery.core_operation_axioms s1]) (use Cons.prems in \<open>auto intro!: Cons.IH\<close>)
  ultimately show ?case using rt Cons.prems by (auto simp: Let_def intro: keptI split: sum.split)
qed (auto intro: keptI)

lemma flush_kept:
  assumes "session_ok valid s" and "budget (tc_core s) + 16 < 2 ^ 64 - 1"
  shows "kept valid (budget (tc_core s) + 16) (flush_outbox X el s i)"
  using assms by (auto simp: flush_outbox_def FLUSH_OUTBOX_MAX_BATCH_def intro!: keptI flush_loop_kept split: sum.split)

lemma pulled_valid: "valid t \<Longrightarrow> pulled X n t = (evs, f, t') \<Longrightarrow> valid t'"
proof (induction n arbitrary: t evs f t')
  case (Suc n)
  have "valid (snd (tr_next_event X t))" using next_valid Suc.prems(1) by blast
  with Suc show ?case by (fastforce split: prod.splits sum.splits option.splits)
qed simp

lemma poll_kept:
  assumes "session_ok valid s" and "budget (tc_core s) + n < 2 ^ 64 - 1"
  shows "kept valid (budget (tc_core s) + n) (poll_transport_events X s n)"
proof -
  obtain evs f t where p: "pulled X n (tc_transport s) = (evs, f, t)" by (metis prod_cases3)
  have "valid t" using pulled_valid [OF _ p] assms(1) by (simp add: session_ok_def)
  moreover have "wf_core (project (tc_core s) evs) \<and> budget (project (tc_core s) evs) \<le> budget (tc_core s) + length evs"
    using project_wf [of "tc_core s" evs] pulled_bound [OF p] assms by (simp add: session_ok_def)
  ultimately show ?thesis
    using pulled_bound [OF p] by (simp add: poll_transport_events_def poll_loop_pulled p kept_def session_ok_def)
qed

end

interpretation tokio_sound: sound_transport "tokio_adapter L E" tokio_tidy for L E
  by unfold_locales (simp_all add: tokio_adapter_def tidy_connect tidy_disconnect tidy_send tidy_next)

end
