(* ===== verification/Ffi_Runs.thy ===== *)
theory Ffi_Runs
  imports Ffi_Handle Session_Wf
begin

text \<open>
  The contract every operation of the handle keeps, as the locale \<open>handle_operation\<close>: the session stays
  well formed, a bounded number of identifiers is used up, and a handle whose session is poisoned
  refuses the call and changes nothing. Runs of calls, of moves of the worker threads and of loads of
  state files follow.
\<close>

section \<open>The contract\<close>

definition handle_ok :: "ffi_handle \<Rightarrow> bool" where
  "handle_ok h \<longleftrightarrow> session_ok tokio_tidy (fh_session h)"

definition handle_budget :: "ffi_handle \<Rightarrow> nat" where
  "handle_budget h = budget (tc_core (fh_session h))"

definition same_flags :: "ffi_handle \<Rightarrow> ffi_handle \<Rightarrow> bool" where
  "same_flags h h' \<longleftrightarrow> fh_session_poisoned h' = fh_session_poisoned h \<and> fh_track_poisoned h' = fh_track_poisoned h"

lemma handle_new_ok: "handle_ok ffi_new" "handle_budget ffi_new = 1"
  by (simp_all add: handle_ok_def handle_budget_def session_ok_def ffi_new_def wf_default tidy_new budget_default)

locale handle_operation =
  fixes oper :: "ffi_handle \<Rightarrow> (binding_error + 'a) \<times> ffi_handle" and cost :: nat
  assumes handle_keeps: "handle_ok h \<Longrightarrow> handle_budget h + cost < 2 ^ 64 - 1 \<Longrightarrow>
      handle_ok (snd (oper h)) \<and> handle_budget (snd (oper h)) \<le> handle_budget h + cost"
    and handle_refuses: "fh_session_poisoned h \<Longrightarrow> is_err (fst (oper h)) \<and> snd (oper h) = h"
    and handle_flags: "same_flags h (snd (oper h))"
begin

text \<open>A poisoned handle stays as it is, however often it is called.\<close>

lemma refused_for_good: "fh_session_poisoned h \<Longrightarrow> is_err (fst (oper (snd (oper h))))"
  using handle_refuses by simp

lemma keeps_below:
  "handle_ok h \<Longrightarrow> handle_budget h \<le> b \<Longrightarrow> b + cost < 2 ^ 64 - 1 \<Longrightarrow>
     handle_ok (snd (oper h)) \<and> handle_budget (snd (oper h)) \<le> b + cost"
  using handle_keeps [of h] by auto

end

lemma handle_operation_mono:
  assumes "handle_operation f n" and "n \<le> m"
  shows "handle_operation f m"
proof
  fix h
  assume "handle_ok h" and "handle_budget h + m < 2 ^ 64 - 1"
  with handle_operation.handle_keeps [OF assms(1), of h] assms(2)
  show "handle_ok (snd (f h)) \<and> handle_budget (snd (f h)) \<le> handle_budget h + m" by auto
qed (use handle_operation.handle_refuses [OF assms(1)] handle_operation.handle_flags [OF assms(1)] in auto)

lemma handle_operation_map:
  assumes "handle_operation f n"
  shows "handle_operation (\<lambda>h. (map_sum (\<lambda>e. e) g (fst (f h)), snd (f h))) n"
proof -
  have "is_err (map_sum (\<lambda>e. e) g r) \<longleftrightarrow> is_err r" for r :: "binding_error + 'a" by (cases r) auto
  then show ?thesis
    using handle_operation.handle_keeps [OF assms] handle_operation.handle_refuses [OF assms]
      handle_operation.handle_flags [OF assms]
    by unfold_locales auto
qed

text \<open>A check of the arguments before the lock is taken.\<close>

lemma handle_operation_check:
  assumes "\<not> P \<Longrightarrow> handle_operation f n"
  shows "handle_operation (\<lambda>h. if P then (Inl e, h) else f h) n"
proof (cases P)
  case True
  then show ?thesis by unfold_locales (auto simp: same_flags_def)
qed (simp add: assms)

lemma handle_operation_try:
  assumes "\<And>a. r = Inr a \<Longrightarrow> handle_operation (f a) n"
  shows "handle_operation (\<lambda>h. case r of Inl e \<Rightarrow> (Inl e, h) | Inr a \<Rightarrow> f a h) n"
proof (cases r)
  case (Inl e)
  then show ?thesis by unfold_locales (auto simp: same_flags_def)
qed (simp add: assms)

lemma locked_operation:
  assumes "\<And>s. session_ok tokio_tidy s \<Longrightarrow> budget (tc_core s) + n < 2 ^ 64 - 1 \<Longrightarrow>
    kept tokio_tidy (budget (tc_core s) + n) (f s)"
  shows "handle_operation (\<lambda>h. locked h f) n"
proof
  fix h
  assume "handle_ok h" and "handle_budget h + n < 2 ^ 64 - 1"
  then show "handle_ok (snd (locked h f)) \<and> handle_budget (snd (locked h f)) \<le> handle_budget h + n"
    using assms [of "fh_session h"]
    by (auto simp: locked_def handle_ok_def handle_budget_def kept_def split: prod.splits)
qed (auto simp: locked_def same_flags_def split: prod.split)

lemma in_core_operation:
  assumes "core_operation g"
  shows "handle_operation (\<lambda>h. in_core h g) 1"
  unfolding in_core_def
proof (rule locked_operation)
  fix s :: ffi_session
  assume s: "session_ok tokio_tidy s" "budget (tc_core s) + 1 < 2 ^ 64 - 1"
  obtain r c where rc: "g (tc_core s) = (r, c)" by fastforce
  show "kept tokio_tidy (budget (tc_core s) + 1) (let (r, c) = g (tc_core s)
      in (map_sum binding_of_core (\<lambda>a. a) r, s\<lparr>tc_core := c\<rparr>))"
    using core_operation_kept [OF assms s(1)] s(2) rc by simp
qed

lemma in_session_operation:
  assumes "\<And>s. session_ok tokio_tidy s \<Longrightarrow> budget (tc_core s) + n < 2 ^ 64 - 1 \<Longrightarrow>
    kept tokio_tidy (budget (tc_core s) + n) (f s)"
  shows "handle_operation (\<lambda>h. in_session h f) n"
  unfolding in_session_def
proof (rule locked_operation)
  fix s
  assume s: "session_ok tokio_tidy s" "budget (tc_core s) + n < 2 ^ 64 - 1"
  from assms [OF s] show "kept tokio_tidy (budget (tc_core s) + n) (let (r, s1) = f s
      in (map_sum binding_of_coordinator (\<lambda>a. a) r, s1))"
    by (simp add: kept_def case_prod_beta Let_def)
qed

section \<open>Every operation keeps it\<close>

interpretation fh_add_account: handle_operation "\<lambda>h. ffi_add_account h jid server name" 1 for jid server name
  unfolding ffi_add_account_def by (rule in_core_operation [OF op_add_account.core_operation_axioms])

interpretation fh_set_state: handle_operation "\<lambda>h. ffi_set_connection_state h i st" 1 for i st
  unfolding ffi_set_connection_state_def by (rule in_core_operation [OF op_set_connection_state.core_operation_axioms])

interpretation fh_set_capabilities: handle_operation "\<lambda>h. ffi_set_capabilities h i caps" 1 for i caps
  unfolding ffi_set_capabilities_def by (rule in_core_operation [OF op_set_capabilities.core_operation_axioms])

interpretation fh_upsert: handle_operation "\<lambda>h. ffi_upsert_contact h i jid name p st" 1 for i jid name p st
  unfolding ffi_upsert_contact_def by (rule in_core_operation [OF op_upsert_contact.core_operation_axioms])

interpretation fh_open: handle_operation "\<lambda>h. ffi_open_conversation h i k a t now" 1 for i k a t now
  unfolding ffi_open_conversation_def by (rule in_core_operation [OF op_open.core_operation_axioms])

interpretation fh_send: handle_operation "\<lambda>h. ffi_send_text h i s b rep now" 1 for i s b rep now
  unfolding ffi_send_text_def by (rule in_core_operation [OF op_send.core_operation_axioms])

interpretation fh_receive: handle_operation "\<lambda>h. ffi_receive_text h i s b now" 1 for i s b now
  unfolding ffi_receive_text_def by (rule in_core_operation [OF op_receive.core_operation_axioms])

interpretation fh_react: handle_operation "\<lambda>h. ffi_add_reaction h i actor e" 1 for i actor e
  unfolding ffi_add_reaction_def by (rule in_core_operation [OF op_reaction.core_operation_axioms])

interpretation fh_mark_read: handle_operation "\<lambda>h. ffi_mark_conversation_read h i" 1 for i
  unfolding ffi_mark_conversation_read_def by (rule in_core_operation [OF op_mark_read.core_operation_axioms])

interpretation fh_rename: handle_operation "\<lambda>h. ffi_update_account_display_name h i n" 1 for i n
  unfolding ffi_update_account_display_name_def
  by (rule handle_operation_check, rule in_core_operation [OF op_rename.core_operation_axioms])

interpretation fh_delete_conversation: handle_operation "\<lambda>h. ffi_delete_conversation h i" 1 for i
  unfolding ffi_delete_conversation_def by (rule in_core_operation [OF op_delete_conversation.core_operation_axioms])

interpretation fh_snapshot: handle_operation ffi_snapshot 1
  unfolding ffi_snapshot_def by (rule in_core_operation [OF core_operation_read])

interpretation fh_proxies: handle_operation "\<lambda>h. ffi_account_proxies h i" 1 for i
  unfolding ffi_account_proxies_def by (rule in_core_operation [OF core_operation_read])

interpretation fh_set_proxies: handle_operation "\<lambda>h. ffi_set_account_proxies h i ps" 1 for i ps
  unfolding ffi_set_account_proxies_def
  by (rule handle_operation_try, rule in_core_operation [OF op_set_proxies.core_operation_axioms])

text \<open>Draining is no operation of the core's contract: it empties the log.\<close>

interpretation fh_drain: handle_operation ffi_drain_events 0
  unfolding ffi_drain_events_def in_core_def
  by (rule locked_operation) (auto simp: drain_events_def kept_def session_ok_def)

interpretation fh_connect: handle_operation "\<lambda>h. ffi_connect_account E h i pw" 2 for E i pw
  unfolding ffi_connect_account_def tc_connect_def fe_adapter_def
  by (rule handle_operation_check, rule in_session_operation, rule tokio_sound.connect_kept)

interpretation fh_connect_proxy: handle_operation "\<lambda>h. ffi_connect_account_with_proxy E h i pw px pxpw" 2 for E i pw px pxpw
  unfolding ffi_connect_account_with_proxy_def fe_adapter_def
  by (rule handle_operation_check, rule handle_operation_try, rule in_session_operation, rule tokio_sound.connect_kept)

interpretation fh_disconnect: handle_operation "\<lambda>h. ffi_disconnect_account E h i" 1 for E i
  unfolding ffi_disconnect_account_def fe_adapter_def
  by (rule in_session_operation, rule tokio_sound.disconnect_kept)

lemma add_account_kept:
  fixes s :: ffi_session
  assumes "session_ok tokio_tidy s" and "budget (tc_core s) + 3 < 2 ^ 64 - 1" and "add_account (tc_core s) su = (r, c)"
  shows "session_ok tokio_tidy (s\<lparr>tc_core := c\<rparr>) \<and> budget c \<le> budget (tc_core s) + 1"
proof -
  have "kept tokio_tidy (budget (tc_core s) + 1) ((), s\<lparr>tc_core := snd (add_account (tc_core s) su)\<rparr>)"
    by (rule core_operation_kept [OF op_add_account.core_operation_axioms assms(1)]) (use assms(2) in simp)
  then show ?thesis using assms(3) by (simp add: kept_def)
qed

interpretation fh_register: handle_operation "\<lambda>h. ffi_register_account E h user server name pw" 3 for E user server name pw
  unfolding ffi_register_account_def
proof (intro handle_operation_check locked_operation)
  fix s :: ffi_session
  assume s: "session_ok tokio_tidy s" "budget (tc_core s) + 3 < 2 ^ 64 - 1"
  let ?su = "\<lparr>setup_jid = user @ lit ''@'' @ server, setup_server = server, setup_display_name = name\<rparr>"
  obtain r c where rc: "add_account (tc_core s) ?su = (r, c)" by fastforce
  note added = add_account_kept [OF s rc]
  let ?connected = "\<lambda>i. tc_connect (fe_adapter E) (s\<lparr>tc_core := c\<rparr>) i (SecretString pw)"
  have "kept tokio_tidy (budget (tc_core (s\<lparr>tc_core := c\<rparr>)) + 2) (?connected i)" for i
    unfolding tc_connect_def fe_adapter_def
    by (rule tokio_sound.connect_kept) (use added s(2) in auto)
  then have "kept tokio_tidy (budget (tc_core s) + 3) (?connected i)" for i
    by (rule kept_mono) (use added in simp)
  then have "kept tokio_tidy (budget (tc_core s) + 3) (x, snd (?connected i))" for i and x :: "binding_error + u64"
    by (simp add: kept_def)
  then show "kept tokio_tidy (budget (tc_core s) + 3)
      (let jid = user @ lit ''@'' @ server in
        try_q (map_sum binding_of_transport (\<lambda>a. a) (register (fe_parsers E) (fe_world E) (fe_register_thread E)
            \<lparr>rr_username = user, rr_server = server, rr_password = SecretString pw\<rparr>)) s (\<lambda>_.
        let (r, c) = add_account (tc_core s) \<lparr>setup_jid = jid, setup_server = server, setup_display_name = name\<rparr>;
            s1 = s\<lparr>tc_core := c\<rparr>
        in try_q (map_sum binding_of_core (\<lambda>a. a) r) s1 (\<lambda>account_id.
        let (r2, s2) = tc_connect (fe_adapter E) s1 account_id (SecretString pw)
        in try_q (map_sum binding_of_coordinator (\<lambda>a. a) r2) s2 (\<lambda>_. (Inr account_id, s2)))))"
    using s(1) added by (auto simp: Let_def case_prod_beta rc keptI split: try_q_splits)
qed

interpretation fh_delete: handle_operation "\<lambda>h. ffi_delete_account E h i" 1 for E i
  unfolding ffi_delete_account_def
proof (rule locked_operation)
  fix s :: ffi_session
  assume s: "session_ok tokio_tidy s" "budget (tc_core s) + 1 < 2 ^ 64 - 1"
  have "kept tokio_tidy (budget (tc_core s) + 1) (x, s1\<lparr>tc_core := c\<rparr>)"
    if "delete_account (tc_core s) i = (r, c)" "session_ok tokio_tidy s1" "tc_core s1 = tc_core s"
    for s1 r c and x :: "binding_error + unit"
    using core_operation_kept [OF op_delete_account.core_operation_axioms that(2), where r = x and i1 = i] that s(2) by simp
  moreover have "session_ok tokio_tidy (s\<lparr>tc_transport := snd (tr_disconnect (fe_adapter E) (tc_transport s) i)\<rparr>)"
    using s(1) by (simp add: session_ok_def fe_adapter_def tokio_sound.disconnect_valid)
  ultimately show "kept tokio_tidy (budget (tc_core s) + 1)
     (if \<not> list_ex (\<lambda>account. acct_id account = i) (accounts (tc_core s))
     then (Inl (BE_NotFound (lit ''unknown account '' @ show_u64 i)), s)
     else
       let s1 = (if List.member (connected_accounts (tc_transport s)) i
             then s\<lparr>tc_transport := snd (tr_disconnect (fe_adapter E) (tc_transport s) i)\<rparr> else s);
           (r, c) = delete_account (tc_core s1) i
       in (map_sum binding_of_core (\<lambda>a. a) r, s1\<lparr>tc_core := c\<rparr>))"
    using s(1) by (auto simp: Let_def keptI split: prod.split)
qed

interpretation fh_poll: handle_operation "\<lambda>h. ffi_poll_transport_events E h n" 128 for E n
  unfolding ffi_poll_transport_events_def
proof (rule in_session_operation)
  fix s :: ffi_session
  assume s: "session_ok tokio_tidy s" "budget (tc_core s) + 128 < 2 ^ 64 - 1"
  have m: "unat (min n MAX_TRANSPORT_EVENTS_PER_POLL) \<le> 128"
    using min.cobounded2 [of n "128 :: u32"] by (simp add: MAX_TRANSPORT_EVENTS_PER_POLL_def word_le_nat_alt)
  have "kept tokio_tidy (budget (tc_core s) + unat (min n MAX_TRANSPORT_EVENTS_PER_POLL))
      (poll_transport_events (fe_adapter E) s (unat (min n MAX_TRANSPORT_EVENTS_PER_POLL)))"
    unfolding fe_adapter_def by (rule tokio_sound.poll_kept [OF s(1)]) (use s(2) m in linarith)
  from kept_mono [OF this, of "budget (tc_core s) + 128"] m
  show "kept tokio_tidy (budget (tc_core s) + 128) (let limit = min n MAX_TRANSPORT_EVENTS_PER_POLL;
         (r, s1) = poll_transport_events (fe_adapter E) s (unat limit)
     in (map_sum (\<lambda>e. e) saturate_u32 r, s1))"
    by (simp add: Let_def case_prod_beta kept_def)
qed

interpretation fh_flush: handle_operation "\<lambda>h. ffi_flush_outbox E h i" 16 for E i
  unfolding ffi_flush_outbox_def
proof (rule in_session_operation)
  fix s :: ffi_session
  assume s: "session_ok tokio_tidy s" "budget (tc_core s) + 16 < 2 ^ 64 - 1"
  have "kept tokio_tidy (budget (tc_core s) + 16) (flush_outbox (fe_adapter E) (fe_elapsed E) s i)"
    unfolding fe_adapter_def by (rule tokio_sound.flush_kept [OF s])
  then show "kept tokio_tidy (budget (tc_core s) + 16) (case find (\<lambda>account. acct_id account = i) (accounts (tc_core s)) of
        None \<Rightarrow> (Inl (CE_Core (UnknownAccount i)), s)
      | Some account \<Rightarrow>
          if acct_connection_state account \<noteq> CS_Online then (Inr 0, s)
          else let (r, s1) = flush_outbox (fe_adapter E) (fe_elapsed E) s i
               in (map_sum (\<lambda>e. e) saturate_u32 r, s1))"
    using s(1) by (auto simp: Let_def case_prod_beta kept_def split: option.split)
qed

end
