(* ===== verification/Ffi_Calls.thy ===== *)
theory Ffi_Calls
  imports Ffi_Runs
begin

text \<open>
  The public interface of the handle as one relation: a call is a value of \<open>ffi_call\<close>, a run is a
  sequence of calls, each in an environment of its own, and of moves of the worker threads. Saves and
  loads of state files are calls like the others.
\<close>

section \<open>Loading\<close>

text \<open>What the invariant needs of the state files: whatever can be read was written for a well-formed core
  that has not used up half of its identifiers.\<close>

definition readable :: "'e ffi_env \<Rightarrow> bool" where
  "readable E \<longleftrightarrow> (\<forall>bytes p. sd_from_json (fe_serde E) bytes = Inr p \<longrightarrow>
     (\<exists>c. wf_core c \<and> budget c \<le> 2 ^ 63 \<and> sanitize_snapshot (ps_snapshot p) = sanitize_snapshot (snapshot c)))"

definition restores :: "core_snapshot \<Rightarrow> bool" where
  "restores snap \<longleftrightarrow> wf_core (from_snapshot snap) \<and> budget (from_snapshot snap) \<le> 2 ^ 63"

lemma parsed_restores:
  assumes "readable E" and "parse_state_bytes (fe_serde E) bytes = Inr (snap, meta)"
  shows "restores snap"
proof -
  obtain p where p: "sd_from_json (fe_serde E) bytes = Inr p" "snap = sanitize_snapshot (ps_snapshot p)"
    using assms(2) by (auto simp: parse_state_bytes_def split: sum.splits if_splits)
  then obtain c where c: "wf_core c" "budget c \<le> 2 ^ 63" "snap = sanitize_snapshot (snapshot c)"
    using assms(1) by (auto simp: readable_def)
  with restarted_wf [OF c(1)] restarted_budget [OF c(1)] show ?thesis
    by (auto simp: restores_def restarted_def)
qed

lemma loaded_restores:
  assumes "readable E"
  shows "load_state_with_metadata (fe_serde E) d0 d1 path = Inr (Some (snap, meta)) \<Longrightarrow> restores snap"
    and "load_state_encrypted (fe_serde E) A d0 d1 path key = Inr (Encrypted snap meta) \<Longrightarrow> restores snap"
    and "load_state_encrypted (fe_serde E) A d0 d1 path key = Inr (PlaintextLegacy snap meta) \<Longrightarrow> restores snap"
  using parsed_restores [OF assms]
  by (auto simp: load_state_with_metadata_def load_state_encrypted_def map_sum_Inr split: sum.splits option.splits if_splits)

lemma on_track_session [simp]:
  "fh_session (on_track h f) = fh_session h" "fh_session_poisoned (on_track h f) = fh_session_poisoned h"
  "fh_track_poisoned (on_track h f) = fh_track_poisoned h"
  by (simp_all add: on_track_def)

lemmas record_defs = record_save_def record_save_secured_def record_load_secured_def record_load_success_def
  record_load_missing_def record_load_failure_def

text \<open>A load leaves the session alone, or replaces its core by what the file restores.\<close>

definition load_effect :: "ffi_handle \<Rightarrow> ffi_handle \<Rightarrow> bool" where
  "load_effect h h' \<longleftrightarrow> fh_session h' = fh_session h
     \<or> (\<exists>snap. restores snap \<and> fh_session h' = (fh_session h)\<lparr>tc_core := from_snapshot snap\<rparr>)"

lemma load_effect_replaced: "restores snap \<Longrightarrow> load_effect h (on_track (replace_core h snap) f)"
  by (auto simp: load_effect_def replace_core_def)

lemma load_effect_same: "load_effect h h" "load_effect h (on_track h f)"
  by (simp_all add: load_effect_def)

lemma load_state_effect: "readable E \<Longrightarrow> load_effect h (snd (ffi_load_state E d0 d1 h path))"
  using loaded_restores(1) [of E]
  by (auto simp: ffi_load_state_def record_defs load_effect_same load_effect_replaced
      split: option.split sum.split)

lemma load_state_secured_effect: "readable E \<Longrightarrow> load_effect h (snd (ffi_load_state_secured E d0 d1 h path key))"
  using loaded_restores(2,3) [of E]
  by (auto simp: ffi_load_state_secured_def record_defs load_effect_same load_effect_replaced
      split: option.split sum.split load_outcome.split)

lemma load_effect_keeps:
  assumes "load_effect h h'" and "handle_ok h"
  shows "handle_ok h' \<and> handle_budget h' \<le> max (handle_budget h) (2 ^ 63)"
  using assms by (auto simp: load_effect_def restores_def handle_ok_def handle_budget_def session_ok_def)

section \<open>Calls\<close>

datatype ffi_call =
    Ffi_add_account ustr ustr ustr
  | Ffi_set_connection_state u64 ffi_connection_state
  | Ffi_set_capabilities u64 "ffi_protocol_capability list"
  | Ffi_upsert_contact u64 ustr ustr ffi_contact_presence "ustr option"
  | Ffi_open_conversation u64 ffi_conversation_kind ustr ustr u64
  | Ffi_send_text u64 ustr ustr "u64 option" u64
  | Ffi_receive_text u64 ustr ustr u64
  | Ffi_add_reaction u64 ustr ustr
  | Ffi_mark_conversation_read u64
  | Ffi_connect_account u64 ustr
  | Ffi_connect_account_with_proxy u64 ustr "ffi_proxy_config option" "ustr option"
  | Ffi_set_account_proxies u64 "ffi_proxy_config list option"
  | Ffi_account_proxies u64
  | Ffi_register_account ustr ustr ustr ustr
  | Ffi_disconnect_account u64
  | Ffi_delete_account u64
  | Ffi_update_account_display_name u64 ustr
  | Ffi_delete_conversation u64
  | Ffi_poll_transport_events u32
  | Ffi_flush_outbox u64
  | Ffi_snapshot
  | Ffi_drain_events
  | Ffi_save_state disk ustr
  | Ffi_load_state disk disk ustr
  | Ffi_save_state_secured disk ustr "u8 list"
  | Ffi_load_state_secured disk disk ustr "u8 list"

text \<open>The handle after a call.\<close>

fun after :: "'e ffi_env \<Rightarrow> ffi_call \<Rightarrow> ffi_handle \<Rightarrow> ffi_handle" where
  "after E (Ffi_add_account jid server name) h = snd (ffi_add_account h jid server name)"
| "after E (Ffi_set_connection_state i st) h = snd (ffi_set_connection_state h i st)"
| "after E (Ffi_set_capabilities i caps) h = snd (ffi_set_capabilities h i caps)"
| "after E (Ffi_upsert_contact i jid name p st) h = snd (ffi_upsert_contact h i jid name p st)"
| "after E (Ffi_open_conversation i k a t now) h = snd (ffi_open_conversation h i k a t now)"
| "after E (Ffi_send_text i s b rep now) h = snd (ffi_send_text h i s b rep now)"
| "after E (Ffi_receive_text i s b now) h = snd (ffi_receive_text h i s b now)"
| "after E (Ffi_add_reaction i actor e) h = snd (ffi_add_reaction h i actor e)"
| "after E (Ffi_mark_conversation_read i) h = snd (ffi_mark_conversation_read h i)"
| "after E (Ffi_connect_account i pw) h = snd (ffi_connect_account E h i pw)"
| "after E (Ffi_connect_account_with_proxy i pw px pxpw) h = snd (ffi_connect_account_with_proxy E h i pw px pxpw)"
| "after E (Ffi_set_account_proxies i ps) h = snd (ffi_set_account_proxies h i ps)"
| "after E (Ffi_account_proxies i) h = snd (ffi_account_proxies h i)"
| "after E (Ffi_register_account user server name pw) h = snd (ffi_register_account E h user server name pw)"
| "after E (Ffi_disconnect_account i) h = snd (ffi_disconnect_account E h i)"
| "after E (Ffi_delete_account i) h = snd (ffi_delete_account E h i)"
| "after E (Ffi_update_account_display_name i n) h = snd (ffi_update_account_display_name h i n)"
| "after E (Ffi_delete_conversation i) h = snd (ffi_delete_conversation h i)"
| "after E (Ffi_poll_transport_events n) h = snd (ffi_poll_transport_events E h n)"
| "after E (Ffi_flush_outbox i) h = snd (ffi_flush_outbox E h i)"
| "after E Ffi_snapshot h = snd (ffi_snapshot h)"
| "after E Ffi_drain_events h = snd (ffi_drain_events h)"
| "after E (Ffi_save_state d path) h = fst (snd (ffi_save_state E d h path))"
| "after E (Ffi_load_state d0 d1 path) h = snd (ffi_load_state E d0 d1 h path)"
| "after E (Ffi_save_state_secured d path key) h = fst (snd (ffi_save_state_secured E d h path key))"
| "after E (Ffi_load_state_secured d0 d1 path key) h = snd (ffi_load_state_secured E d0 d1 h path key)"

definition step_ok :: "ffi_handle \<Rightarrow> ffi_handle \<Rightarrow> bool" where
  "step_ok h h' \<longleftrightarrow> handle_ok h' \<and> handle_budget h' \<le> max (handle_budget h + 128) (2 ^ 63)"

lemma operation_step:
  assumes "handle_operation f n" and "n \<le> 128" and "handle_ok h" and "handle_budget h + 128 < 2 ^ 64 - 1"
  shows "step_ok h (snd (f h))"
  using handle_operation.handle_keeps [OF handle_operation_mono [OF assms(1,2)] assms(3,4)]
  by (auto simp: step_ok_def)

lemma load_step:
  assumes "load_effect h h'" and "handle_ok h"
  shows "step_ok h h'"
  using load_effect_keeps [OF assms] by (auto simp: step_ok_def)

lemma save_session:
  "fh_session (fst (snd (ffi_save_state E d h path))) = fh_session h"
  "fh_session (fst (snd (ffi_save_state_secured E d h path key))) = fh_session h"
  by (simp_all add: ffi_save_state_def ffi_save_state_secured_def record_defs split: sum.split prod.split)

lemma after_ok:
  assumes "handle_ok h" and "handle_budget h + 128 < 2 ^ 64 - 1" and "readable E"
  shows "step_ok h (after E call h)"
proof -
  note op = operation_step [OF _ _ assms(1,2)]
  note saved = load_step [OF _ assms(1)]
  show ?thesis
    by (cases call)
      (auto simp: save_session load_effect_def
        intro: op [OF fh_add_account.handle_operation_axioms] op [OF fh_set_state.handle_operation_axioms]
          op [OF fh_set_capabilities.handle_operation_axioms] op [OF fh_upsert.handle_operation_axioms]
          op [OF fh_open.handle_operation_axioms] op [OF fh_send.handle_operation_axioms]
          op [OF fh_receive.handle_operation_axioms] op [OF fh_react.handle_operation_axioms]
          op [OF fh_mark_read.handle_operation_axioms] op [OF fh_connect.handle_operation_axioms]
          op [OF fh_connect_proxy.handle_operation_axioms] op [OF fh_set_proxies.handle_operation_axioms]
          op [OF fh_proxies.handle_operation_axioms] op [OF fh_register.handle_operation_axioms]
          op [OF fh_disconnect.handle_operation_axioms] op [OF fh_delete.handle_operation_axioms]
          op [OF fh_rename.handle_operation_axioms] op [OF fh_delete_conversation.handle_operation_axioms]
          op [OF fh_poll.handle_operation_axioms] op [OF fh_flush.handle_operation_axioms]
          op [OF fh_snapshot.handle_operation_axioms] op [OF fh_drain.handle_operation_axioms]
          saved [OF load_state_effect [OF assms(3)]] saved [OF load_state_secured_effect [OF assms(3)]] saved)
qed

section \<open>Runs\<close>

definition move_thread :: "'e parsers \<Rightarrow> ffi_handle \<Rightarrow> 'e move \<Rightarrow> ffi_handle" where
  "move_thread L h mv =
     h\<lparr>fh_session := (fh_session h)\<lparr>tc_transport := thread_move L (tc_transport (fh_session h)) mv\<rparr>\<rparr>"

text \<open>\<open>handle_run L n h\<close>: \<open>h\<close> is a handle after \<open>n\<close> calls, with the parsers \<open>L\<close>.\<close>

inductive handle_run :: "'e parsers \<Rightarrow> nat \<Rightarrow> ffi_handle \<Rightarrow> bool" for L where
  run_new: "handle_run L 0 ffi_new"
| run_move: "handle_run L n h \<Longrightarrow> handle_run L n (move_thread L h mv)"
| run_ffi: "handle_run L n h \<Longrightarrow> parsers.truncate (fe_parsers E) = L \<Longrightarrow> readable E \<Longrightarrow>
    handle_run L (Suc n) (after E call h)"

lemma move_thread_keeps:
  "handle_ok h \<Longrightarrow> handle_ok (move_thread L h mv) \<and> handle_budget (move_thread L h mv) = handle_budget h"
  by (simp add: handle_ok_def handle_budget_def session_ok_def move_thread_def tidy_move)

lemma handle_run_ok:
  assumes "handle_run L n h" and "n \<le> 2 ^ 55"
  shows "handle_ok h \<and> handle_budget h \<le> 2 ^ 63 + 128 * n"
  using assms
proof (induction rule: handle_run.induct)
  case run_new
  then show ?case by (simp add: handle_new_ok)
next
  case (run_move n h mv)
  then show ?case using move_thread_keeps by metis
next
  case (run_ffi n h E call)
  then have h: "handle_ok h" "handle_budget h \<le> 2 ^ 63 + 128 * n" by simp_all
  then have "handle_budget h + 128 < 2 ^ 64 - 1" using run_ffi.prems by simp
  from after_ok [OF h(1) this run_ffi.hyps(3), of call] h(2) show ?case by (auto simp: step_ok_def)
qed

end
