(* ===== verification/Ffi_Properties.thy ===== *)
theory Ffi_Properties
  imports Ffi_Calls
begin

text \<open>
  What the handle promises its caller: the invariant along every run, what survives a restart, when a load
  is refused, what deleting and registering an account does to the core and to the transport together,
  and that a proxy library comes back as it was set.
\<close>

section \<open>The invariant\<close>

definition demo_env :: "(ustr \<times> ustr) ffi_env" where
  "demo_env = \<lparr>fe_parsers = demo_register_parsers, fe_scheduler = demo_scheduler, fe_world = demo_world,
     fe_register_thread = RT_Runs,
     fe_probe = \<lparr>pb_dial = (\<lambda>_ _. Inl []), pb_base64 = map unat, pb_debug = id, pb_runtime = Inr (), pb_timed_out = False,
       pb_elapsed = 20\<rparr>, fe_elapsed = (\<lambda>_. 0), fe_clock = Some 1000,
     fe_serde = demo_serde (snapshot demo_core) [123, 125], fe_aead = demo_aead\<rparr>"

lemma demo_env_parsers: "parsers.truncate (fe_parsers demo_env) = demo_parsers"
  by (simp add: demo_env_def demo_register_parsers_def demo_parsers_def parsers.defs register_parsers.defs)

lemma demo_env_readable: "readable demo_env"
  using demo_wf demo_budget by (auto simp: readable_def demo_env_def demo_serde_def intro!: exI [of _ demo_core])

text \<open>C1: Whatever Kotlin calls, in whatever order, and whatever the servers, the worker threads and the network
  do between and during the calls, the core stays well formed and the transport keeps its invariant, also
  across loads of state files that were written by the program; and the identifier counters stay away
  from their end for as many calls as a device can make.\<close>

theorem handle_stays_ok:
  assumes "handle_run L n h" and "n \<le> 2 ^ 55"
  shows "wf_core (tc_core (fh_session h)) \<and> tokio_tidy (tc_transport (fh_session h))
    \<and> budget (tc_core (fh_session h)) < 2 ^ 64 - 1"
  using handle_run_ok [OF assms] assms(2) by (simp add: handle_ok_def session_ok_def handle_budget_def)

theorem handle_stays_ok_witness:
  "wf_core (tc_core (fh_session (after demo_env (Ffi_register_account (lit ''carol'') (lit ''xmpp.example'') [] (lit ''pw''))
     (after demo_env (Ffi_load_state demo_disk demo_disk (lit ''state'')) ffi_new))))"
proof -
  have "handle_run demo_parsers 0 ffi_new" by (rule run_new)
  from run_ffi [OF run_ffi [OF this demo_env_parsers demo_env_readable] demo_env_parsers demo_env_readable]
  have "handle_run demo_parsers (Suc (Suc 0))
     (after demo_env (Ffi_register_account (lit ''carol'') (lit ''xmpp.example'') [] (lit ''pw''))
       (after demo_env (Ffi_load_state demo_disk demo_disk (lit ''state'')) ffi_new))" .
  from handle_stays_ok [OF this] show ?thesis by simp
qed

section \<open>Restarts\<close>

lemma restart_guard: "load_guard (fh_session ffi_new) = None" "\<not> fh_session_poisoned ffi_new" "\<not> fh_track_poisoned ffi_new"
  by (simp_all add: load_guard_def ffi_new_def accounts_def snapshot_def default_core_def connected_accounts_def tokio_new_def)

lemma ffi_new_session: "fh_session ffi_new = \<lparr>tc_core = default_core, tc_transport = tokio_new\<rparr>"
  by (simp add: ffi_new_def)

definition survives :: "mindchat_core \<Rightarrow> mindchat_core \<Rightarrow> bool" where
  "survives c d \<longleftrightarrow> wf_core d
    \<and> hm_get (core_messages d) = hm_get (core_messages c)
    \<and> hm_get (core_conversations d) = hm_get (core_conversations c)
    \<and> hm_get (core_reactions d) = hm_get (core_reactions c)
    \<and> hm_get (core_accounts d) = map_option offline_account \<circ> hm_get (core_accounts c)
    \<and> hm_get (core_contacts d) = map_option offline_contact \<circ> hm_get (core_contacts c)"

lemma restarted_survives: "wf_core c \<Longrightarrow> survives c (restarted c)"
  by (simp add: survives_def restarted_wf restarted_accounts restarted_contacts restarted_rest restored_tables fun_eq_iff)

text \<open>C22: A secured save followed by a secured load with the same key in a new process restores the
  state: every conversation, message and reaction as it was, every account and contact offline and without
  errors, capabilities or presence, and the file is reported as encrypted. The one exception is a snapshot whose
  text is less than 37 bytes under the size bound: it is saved without an error, and the load refuses the file
  as too large, keeps the empty core and reports the file as quarantined.\<close>

theorem ffi_secured_restart:
  assumes "handle_ok h" and "\<not> fh_session_poisoned h" and "length key = 32"
    and "serde_ok (fe_serde E) (snapshot (tc_core (fh_session h)))"
    and "sd_to_json (fe_serde E) \<lparr>ps_schema_version = CURRENT_SCHEMA_VERSION, ps_snapshot = snapshot (tc_core (fh_session h))\<rparr> = Inr bytes"
    and "aead_ok (fe_aead E) key bytes" and "length bytes \<le> MAX_STATE_FILE_BYTES"
    and "dk_write_fault d = No_fault" and "dk_stat_fault d = None" and "dk_read_fault d = None"
  shows "\<exists>h1 d'. ffi_save_state_secured E d h path key = (Inr (), h1, d') \<and> fh_session h1 = fh_session h
    \<and> (case ffi_load_state_secured E d' d' ffi_new path key of (r, h2) \<Rightarrow>
         if length bytes + 37 \<le> MAX_STATE_FILE_BYTES
         then r = Inr \<lparr>lsr_outcome = FPO_Encrypted, lsr_loaded = True\<rparr>
           \<and> survives (tc_core (fh_session h)) (tc_core (fh_session h2))
           \<and> fdr_state_size_bytes (diagnostics_report h2) = Some (length bytes + 37)
         else r = Inl (BE_Internal (lit ''state file too large: '' @ show_dec (length bytes + 37) @ lit '' bytes''))
           \<and> tc_core (fh_session h2) = default_core
           \<and> fdr_state_quarantined (diagnostics_report h2))"
proof -
  let ?c = "tc_core (fh_session h)"
  obtain m d' where s: "save_state_encrypted (fe_serde E) (fe_aead E) d (snapshot ?c) path key = (Inr m, d')"
    and l: "load_state_encrypted (fe_serde E) (fe_aead E) d' d' path key =
        (if length bytes + 37 \<le> MAX_STATE_FILE_BYTES
         then Inr (Encrypted (sanitize_snapshot (snapshot ?c))
                \<lparr>sfm_size_bytes = length bytes + 37, sfm_schema_version = CURRENT_SCHEMA_VERSION\<rparr>)
         else Inl (PerTooLarge (length bytes + 37)))"
    using encrypted_roundtrip [OF assms(4-10), of path] by blast
  have saved: "ffi_save_state_secured E d h path key = (Inr (), record_save_secured E d' h path, d')"
    using assms(2,3) s by (simp add: ffi_save_state_secured_def validated_state_key_def)
  have "survives ?c (from_snapshot (sanitize_snapshot (snapshot ?c)))"
    using restarted_survives [of ?c] assms(1) by (simp add: restarted_def handle_ok_def session_ok_def)
  then have "case ffi_load_state_secured E d' d' ffi_new path key of (r, h2) \<Rightarrow>
         if length bytes + 37 \<le> MAX_STATE_FILE_BYTES
         then r = Inr \<lparr>lsr_outcome = FPO_Encrypted, lsr_loaded = True\<rparr>
           \<and> survives ?c (tc_core (fh_session h2))
           \<and> fdr_state_size_bytes (diagnostics_report h2) = Some (length bytes + 37)
         else r = Inl (BE_Internal (lit ''state file too large: '' @ show_dec (length bytes + 37) @ lit '' bytes''))
           \<and> tc_core (fh_session h2) = default_core
           \<and> fdr_state_quarantined (diagnostics_report h2)"
    using assms(3) l restart_guard
    by (simp add: ffi_load_state_secured_def validated_state_key_def record_defs replace_core_def diagnostics_report_def
        on_track_def Let_def ffi_new_session)
  with saved show ?thesis by (simp add: record_defs)
qed

definition demo_handle :: ffi_handle where
  "demo_handle = ffi_new\<lparr>fh_session := \<lparr>tc_core = demo_core, tc_transport = tokio_new\<rparr>\<rparr>"

lemma demo_handle_ok: "handle_ok demo_handle" "\<not> fh_session_poisoned demo_handle"
  "tc_core (fh_session demo_handle) = demo_core"
  by (simp_all add: demo_handle_def handle_ok_def session_ok_def demo_wf tidy_new ffi_new_def)

lemma demo_json: "serde_ok (fe_serde demo_env) (snapshot demo_core)"
  "sd_to_json (fe_serde demo_env) \<lparr>ps_schema_version = CURRENT_SCHEMA_VERSION, ps_snapshot = snapshot demo_core\<rparr>
     = Inr [123, 125]"
  by (simp_all add: demo_env_def demo_serde_ok) (simp add: demo_serde_def)

lemma demo_disk_faults: "dk_write_fault demo_disk = No_fault" "dk_stat_fault demo_disk = None" "dk_read_fault demo_disk = None"
  by (simp_all add: demo_disk_def)

theorem ffi_secured_restart_witness:
  "\<exists>h1 d'. ffi_save_state_secured demo_env demo_disk demo_handle (lit ''state'') (replicate 32 9) = (Inr (), h1, d')
     \<and> fst (ffi_load_state_secured demo_env d' d' ffi_new (lit ''state'') (replicate 32 9))
       = Inr \<lparr>lsr_outcome = FPO_Encrypted, lsr_loaded = True\<rparr>"
proof -
  have "aead_ok (fe_aead demo_env) (replicate 32 9) [123, 125]" "length (replicate 32 (9 :: u8)) = 32"
    "length [123, 125 :: u8] \<le> MAX_STATE_FILE_BYTES"
    by (simp_all add: demo_env_def demo_aead_ok MAX_STATE_FILE_BYTES_def)
  from ffi_secured_restart [OF demo_handle_ok(1,2) this(2) _ _ this(1,3) demo_disk_faults, of "lit ''state''"]
  show ?thesis by (auto simp: demo_handle_ok(3) demo_json MAX_STATE_FILE_BYTES_def)
qed

text \<open>A plain save is restored by a plain load, and by a secured load too, which reports the file as a
  legacy plaintext file to migrate, whatever the key: in both cases the same state comes back. The only
  assumption on the text is that JSON never starts with the magic header of an encrypted file.\<close>

lemma ffi_plain_restart:
  assumes "handle_ok h" and "\<not> fh_session_poisoned h" and "length key = 32"
    and "serde_ok (fe_serde E) (snapshot (tc_core (fh_session h)))"
    and "sd_to_json (fe_serde E) \<lparr>ps_schema_version = CURRENT_SCHEMA_VERSION, ps_snapshot = snapshot (tc_core (fh_session h))\<rparr> = Inr bytes"
    and "\<not> is_encrypted_blob bytes" and "length bytes \<le> MAX_STATE_FILE_BYTES"
    and "dk_write_fault d = No_fault" and "dk_stat_fault d = None" and "dk_read_fault d = None"
  shows "\<exists>h1 d' h2 h3. ffi_save_state E d h path = (Inr (), h1, d')
    \<and> ffi_load_state E d' d' ffi_new path = (Inr True, h2)
    \<and> ffi_load_state_secured E d' d' ffi_new path key = (Inr \<lparr>lsr_outcome = FPO_PlaintextLegacy, lsr_loaded = True\<rparr>, h3)
    \<and> fh_session h3 = fh_session h2 \<and> survives (tc_core (fh_session h)) (tc_core (fh_session h2))
    \<and> trk_encrypted (fh_track h3) = Some False"
proof -
  let ?c = "tc_core (fh_session h)"
  let ?meta = "\<lparr>sfm_size_bytes = length bytes, sfm_schema_version = CURRENT_SCHEMA_VERSION\<rparr>"
  obtain d' where d': "write_atomic d path bytes = (Inr (), d')" "dk_stat_fault d' = None" "dk_read_fault d' = None"
    using write_atomic_no_fault [OF assms(8), of path bytes] assms(9,10) by auto
  have saved: "ffi_save_state E d h path = (Inr (), record_save E d' h path, d')"
    using assms(2,5,7) d'(1) by (simp add: ffi_save_state_def save_state_def)
  have bytes: "read_bounded d' d' path = Inr (Some bytes)"
    using write_atomic_ok [OF d'(1)] d'(2,3) assms(7) by (simp add: read_bounded_def)
  have parsed: "parse_state_bytes (fe_serde E) bytes = Inr (sanitize_snapshot (snapshot ?c), ?meta)"
    using assms(4,5) by (simp add: parse_state_bytes_def serde_ok_def)
  have "ffi_load_state E d' d' ffi_new path =
      (Inr True, record_load_success E (replace_core ffi_new (sanitize_snapshot (snapshot ?c))) path ?meta)"
    using restart_guard by (simp add: ffi_load_state_def load_state_with_metadata_def bytes parsed)
  moreover have "ffi_load_state_secured E d' d' ffi_new path key =
      (Inr \<lparr>lsr_outcome = FPO_PlaintextLegacy, lsr_loaded = True\<rparr>,
       record_load_secured E (replace_core ffi_new (sanitize_snapshot (snapshot ?c))) path ?meta False)"
    using restart_guard assms(3,6)
    by (simp add: ffi_load_state_secured_def validated_state_key_def load_state_encrypted_def bytes parsed)
  moreover have "survives ?c (from_snapshot (sanitize_snapshot (snapshot ?c)))"
    using restarted_survives [of ?c] assms(1) by (simp add: restarted_def handle_ok_def session_ok_def)
  ultimately show ?thesis
    using saved restart_guard(3) by (simp add: record_defs replace_core_def on_track_def)
qed

definition load_refused :: "ffi_handle \<Rightarrow> u8 list \<Rightarrow> bool" where
  "load_refused h key \<longleftrightarrow> fh_session_poisoned h \<or> length key \<noteq> 32
     \<or> accounts (tc_core (fh_session h)) \<noteq> [] \<or> connected_accounts (tc_transport (fh_session h)) \<noteq> []"

text \<open>C23: A load never replaces live state: with an account in the core, a connection in the transport, a
  poisoned session or a malformed key it is refused, and nothing at all changes. Otherwise it either
  fails, keeps the session and marks the file as quarantined, or succeeds: then the transport is as it
  was, and the core is as it was exactly when no file was found.\<close>

theorem load_never_clobbers:
  "case ffi_load_state_secured E d0 d1 h path key of (r, h') \<Rightarrow>
     if load_refused h key then is_err r \<and> h' = h
     else (case r of
         Inl _ \<Rightarrow> fh_session h' = fh_session h \<and> (fh_track_poisoned h \<or> trk_quarantined (fh_track h'))
       | Inr res \<Rightarrow> tc_transport (fh_session h') = tc_transport (fh_session h)
           \<and> lsr_loaded res = (lsr_outcome res \<noteq> FPO_Missing)
           \<and> (if lsr_loaded res
              then \<exists>snap. tc_core (fh_session h') = from_snapshot (sanitize_snapshot snap)
              else fh_session h' = fh_session h \<and> dk_files d0 path = None))"
proof -
  have sane: "\<exists>s. snap = sanitize_snapshot s" if "parse_state_bytes S bytes = Inr (snap, meta)" for S bytes snap meta
    using that by (auto simp: parse_state_bytes_def split: sum.splits if_splits)
  have enc: "\<exists>s. snap = sanitize_snapshot s" if "load_state_encrypted S A d0 d1 path key = Inr (Encrypted snap meta)" for S A snap meta
    using that sane by (auto simp: load_state_encrypted_def split: sum.splits option.splits if_splits)
  have plain: "\<exists>s. snap = sanitize_snapshot s" if "load_state_encrypted S A d0 d1 path key = Inr (PlaintextLegacy snap meta)" for S A snap meta
    using that sane by (auto simp: load_state_encrypted_def split: sum.splits option.splits if_splits)
  have gone: "dk_files d0 path = None" if "load_state_encrypted S A d0 d1 path key = Inr Missing" for S A
    using that by (auto simp: load_state_encrypted_def read_bounded_def split: sum.splits option.splits if_splits)
  show ?thesis
  proof (cases "load_state_encrypted (fe_serde E) (fe_aead E) d0 d1 path key")
    case (Inl e)
    then show ?thesis
      by (simp add: ffi_load_state_secured_def load_refused_def validated_state_key_def load_guard_def record_defs on_track_def)
  next
    case (Inr outcome)
    then show ?thesis
      using enc [of "fe_serde E" "fe_aead E"] plain [of "fe_serde E" "fe_aead E"] gone [of "fe_serde E" "fe_aead E"]
      by (cases outcome) (auto simp: ffi_load_state_secured_def load_refused_def validated_state_key_def load_guard_def record_defs
          on_track_def replace_core_def)
  qed
qed

section \<open>Accounts\<close>

lemma known_account:
  assumes "wf_core c"
  shows "list_ex (\<lambda>a. acct_id a = i) (accounts c) \<longleftrightarrow> hm_get (core_accounts c) i \<noteq> None"
proof -
  note ok = wf_hm_ok(1) [OF assms] and keyed = wf_keyed(1) [OF assms]
  have "acct_id a = k" if "hm_get (core_accounts c) k = Some a" for k a
    using keyed that by (auto simp: keyed_def)
  then show ?thesis
    using hm.vals_iff [OF ok] by (auto simp: accounts_def snapshot_def list_ex_iff) blast
qed

lemma known_worker: "List.member (connected_accounts t) i \<longleftrightarrow> hm_get (tt_workers t) i \<noteq> None"
proof -
  have "hm_get m i \<noteq> None \<longleftrightarrow> i \<in> fst ` set m" for m :: "(account_id, nat) hmap"
    by (metis map_of_eq_None_iff)
  then show ?thesis by (simp add: connected_accounts_def List.member_iff)
qed

text \<open>C24: Deleting an account that exists always succeeds, whatever its connection is doing - even if closing
  it fails or times out: the core forgets the account and what it owns, and its worker, if it had one,
  is released, while every other account keeps its own. An account that does not exist is reported as
  not found, and nothing changes.\<close>

theorem ffi_delete_account_spec:
  assumes "handle_ok h" and "\<not> fh_session_poisoned h"
  shows "case ffi_delete_account E h i of (r, h') \<Rightarrow>
     (case hm_get (core_accounts (tc_core (fh_session h))) i of
        None \<Rightarrow> r = Inl (BE_NotFound (lit ''unknown account '' @ show_u64 i)) \<and> h' = h
      | Some a \<Rightarrow> r = Inr ()
          \<and> tc_core (fh_session h') = snd (delete_account (tc_core (fh_session h)) i)
          \<and> hm_get (core_accounts (tc_core (fh_session h'))) i = None
          \<and> (\<forall>j. hm_get (tt_workers (tc_transport (fh_session h'))) j
               = (if j = i then None else hm_get (tt_workers (tc_transport (fh_session h))) j)))"
proof -
  let ?s = "fh_session h"
  have ok: "wf_core (tc_core ?s)" "tokio_ok (tc_transport ?s)"
    using assms(1) by (simp_all add: handle_ok_def session_ok_def tidy_ok)
  show ?thesis
  proof (cases "hm_get (core_accounts (tc_core ?s)) i")
    case None
    then show ?thesis
      using assms(2) known_account [OF ok(1), of i] by (simp add: ffi_delete_account_def locked_def)
  next
    case (Some a)
    have gone: "fst (delete_account (tc_core ?s) i) = Inr ()"
      "hm_get (core_accounts (snd (delete_account (tc_core ?s) i))) i = None"
      using Some by (simp_all add: delete_account_def hm_contains_def domIff Let_def)
    have t: "hm_get (tt_workers (if List.member (connected_accounts (tc_transport ?s)) i
        then snd (tr_disconnect (fe_adapter E) (tc_transport ?s) i) else tc_transport ?s)) j
      = (if j = i then None else hm_get (tt_workers (tc_transport ?s)) j)" for j
      by (auto simp: disconnect_workers [OF ok(2)] known_worker [unfolded List.member_iff] fe_adapter_def tokio_adapter_def)
    show ?thesis
      using assms(2) known_account [OF ok(1), of i] Some gone t
      by (cases "List.member (connected_accounts (tc_transport ?s)) i")
        (simp_all add: ffi_delete_account_def locked_def Let_def case_prod_beta)
  qed
qed

theorem ffi_delete_account_spec_witness:
  "fst (ffi_delete_account demo_env demo_handle 1) = Inr ()"
proof -
  have "hm_get (core_accounts (tc_core (fh_session demo_handle))) 1 \<noteq> None"
    by (simp add: demo_handle_ok(3) demo_core_def)
  with ffi_delete_account_spec [OF demo_handle_ok(1,2), where E = demo_env and i = 1] show ?thesis
    by (auto split: prod.splits option.splits)
qed

lemma add_account_cases:
  assumes "wf_core c" and "add_account c su = (r, d)"
  shows "case r of
      Inl _ \<Rightarrow> d = c
    | Inr i \<Rightarrow> hm_get (core_accounts c) i = None
        \<and> (\<exists>a. hm_get (core_accounts d) = (hm_get (core_accounts c))(i \<mapsto> a) \<and> acct_jid a = setup_jid su)"
proof -
  have "hm_get (core_accounts c) (max (next_account_id c) 1) = None"
    using assms(1) alloc_id_fresh [of acct_id "next_account_id c" "core_accounts c"]
    by (simp add: wf_core_def tables_ok_def alloc_id_def Let_def)
  then show ?thesis
    using assms(2)
    by (auto simp: add_account_def allocate_account_id_def Let_def update_conv' split: try_q_splits)
      (rule exI, rule conjI [OF refl], simp)
qed

lemma connect_cases:
  assumes "tc_connect (tokio_adapter L E) s i pw = (r, s')" and "hm_get (core_accounts (tc_core s)) i = Some a"
  shows "\<exists>b. hm_get (core_accounts (tc_core s')) = (hm_get (core_accounts (tc_core s)))(i \<mapsto> b) \<and> acct_jid b = acct_jid a
    \<and> (case r of
         Inr _ \<Rightarrow> acct_connection_state b = CS_Connecting \<and> hm_get (tt_workers (tc_transport s')) i \<noteq> None
       | Inl _ \<Rightarrow> acct_connection_state b = CS_Failed)"
proof -
  have state: "hm_get (core_accounts (snd (set_connection_state c i st)))
      = (hm_get (core_accounts c))(i \<mapsto> b\<lparr>acct_connection_state := st\<rparr>)" "acct_jid b = acct_jid x"
    if "hm_get (core_accounts c) i = Some x" "b = (if st = CS_Connecting \<or> st = CS_Online
        then x\<lparr>acct_connection_error := None, acct_disconnect_kind := None\<rparr> else x)" for c st x b
    using that by (auto simp: set_connection_state_def modify_account_def Let_def update_conv')
  have started: "hm_get (tt_workers t) i \<noteq> None"
    if "tokio_connect L spawn t0 q = (Inr u, t)" "cr_account_id q = i" for spawn t0 q u t
    using that by (auto simp: tokio_connect_def Let_def update_conv' split: sum.splits if_splits spawn_outcome.splits)
  obtain r1 t where rt: "tr_connect (tokio_adapter L E) (tc_transport s)
      \<lparr>cr_account_id = i, cr_jid = acct_jid a, cr_server = acct_server a, cr_password = pw,
       cr_auto_reconnect = acct_auto_reconnect a, cr_proxy = None, cr_proxy_password = None\<rparr> = (r1, t)" by fastforce
  show ?thesis
  proof (cases r1)
    case (Inl e)
    have "r = Inl (CE_Transport e)" "tc_core s' = snd (set_connection_state (snd (set_connection_state (tc_core s) i CS_Connecting)) i CS_Failed)"
      using assms(1) rt Inl by (auto simp: tc_connect_def connect_effect assms(2))
    then show ?thesis using state(1) [OF assms(2) refl, of CS_Connecting]
      by (auto simp: state(1) [OF _ refl])
  next
    case (Inr u)
    have "r = Inr ()" "tc_core s' = snd (set_connection_state (tc_core s) i CS_Connecting)" "tc_transport s' = t"
      using assms(1) rt Inr by (auto simp: tc_connect_def connect_effect assms(2))
    then show ?thesis using state(1) [OF assms(2) refl, of CS_Connecting] started rt Inr
      by (auto simp: tokio_adapter_def)
  qed
qed

text \<open>A registration call either changes nothing, or the server confirmed the account, it was added, and
  the outcome is that of connecting it.\<close>

lemma register_cases:
  fixes h user server name pw E
  defines "su \<equiv> \<lparr>setup_jid = user @ lit ''@'' @ server, setup_server = server, setup_display_name = name\<rparr>"
    and "reg \<equiv> register (fe_parsers E) (fe_world E) (fe_register_thread E)
      \<lparr>rr_username = user, rr_server = server, rr_password = SecretString pw\<rparr>"
  assumes "wf_core (tc_core (fh_session h))" and "ffi_register_account E h user server name pw = (r, h')"
  obtains (refused) e where "r = Inl e" "fh_session h' = fh_session h"
    | (connected) i c r2 s2 where "reg = Inr ()" "add_account (tc_core (fh_session h)) su = (Inr i, c)"
        "tc_connect (fe_adapter E) ((fh_session h)\<lparr>tc_core := c\<rparr>) i (SecretString pw) = (r2, s2)"
        "fh_session h' = s2" "r = (case r2 of Inl e \<Rightarrow> Inl (binding_of_coordinator e) | Inr _ \<Rightarrow> Inr i)"
proof -
  let ?s = "fh_session h"
  obtain r1 c where add: "add_account (tc_core ?s) su = (r1, c)" by fastforce
  note added = add_account_cases [OF assms(3) add]
  show thesis
  proof (cases "pw \<noteq> [] \<and> trim user \<noteq> [] \<and> trim server \<noteq> [] \<and> \<not> fh_session_poisoned h \<and> reg = Inr () \<and> (\<exists>i. r1 = Inr i)")
    case True
    then obtain i where i: "r1 = Inr i" by blast
    obtain r2 s2 where c2: "tc_connect (fe_adapter E) (?s\<lparr>tc_core := c\<rparr>) i (SecretString pw) = (r2, s2)" by fastforce
    show ?thesis
      by (rule connected [OF _ _ c2])
        (use assms(4) True i c2 add in \<open>cases r2; auto simp: ffi_register_account_def locked_def Let_def su_def reg_def
          split: sum.splits\<close>)+
  next
    case False
    have "?s\<lparr>tc_core := tc_core ?s\<rparr> = ?s" by simp
    with False assms(4) add added show ?thesis
      by (intro refused [of "case r of Inl e \<Rightarrow> e"]; cases reg)
        (auto simp: ffi_register_account_def locked_def Let_def su_def reg_def split: if_splits try_q_splits sum.splits)
  qed
qed

text \<open>C25: A registration that succeeds was confirmed by a server, and leaves exactly one new account, of the
  registered address, connecting, with a worker. One that fails leaves the session as it was - with one
  exception: when the server has registered the account and only starting its session failed, the new
  account stays in the core, in the failed state, although the call reports an error.\<close>

theorem ffi_register_spec:
  assumes "handle_ok h" and "ffi_register_account E h user server name pw = (r, h')"
  shows "case r of
      Inr i \<Rightarrow> register (fe_parsers E) (fe_world E) (fe_register_thread E)
            \<lparr>rr_username = user, rr_server = server, rr_password = SecretString pw\<rparr> = Inr ()
        \<and> hm_get (core_accounts (tc_core (fh_session h))) i = None
        \<and> (\<exists>a. hm_get (core_accounts (tc_core (fh_session h'))) = (hm_get (core_accounts (tc_core (fh_session h))))(i \<mapsto> a)
            \<and> acct_jid a = user @ lit ''@'' @ server \<and> acct_connection_state a = CS_Connecting)
        \<and> hm_get (tt_workers (tc_transport (fh_session h'))) i \<noteq> None
    | Inl e \<Rightarrow> fh_session h' = fh_session h
        \<or> register (fe_parsers E) (fe_world E) (fe_register_thread E)
            \<lparr>rr_username = user, rr_server = server, rr_password = SecretString pw\<rparr> = Inr ()
          \<and> (\<exists>i a. hm_get (core_accounts (tc_core (fh_session h))) i = None
            \<and> hm_get (core_accounts (tc_core (fh_session h'))) = (hm_get (core_accounts (tc_core (fh_session h))))(i \<mapsto> a)
            \<and> acct_jid a = user @ lit ''@'' @ server \<and> acct_connection_state a = CS_Failed)"
proof -
  let ?s = "fh_session h"
  have wf: "wf_core (tc_core ?s)" using assms(1) by (simp add: handle_ok_def session_ok_def)
  from wf assms(2) show ?thesis
  proof (cases rule: register_cases)
    case (refused e)
    then show ?thesis by simp
  next
    case (connected i c r2 s2)
    obtain a where a: "hm_get (core_accounts (tc_core ?s)) i = None"
      "hm_get (core_accounts c) = (hm_get (core_accounts (tc_core ?s)))(i \<mapsto> a)" "acct_jid a = user @ lit ''@'' @ server"
      using add_account_cases [OF wf connected(2)] by auto
    have "hm_get (core_accounts (tc_core (?s\<lparr>tc_core := c\<rparr>))) i = Some a" by (simp add: a)
    from connect_cases [OF connected(3) [unfolded fe_adapter_def] this] a connected show ?thesis
      by (cases r2) auto
  qed
qed

lemma demo_added:
  "\<exists>i c a. add_account demo_core \<lparr>setup_jid = lit ''carol'' @ lit ''@'' @ lit ''xmpp.example'',
       setup_server = lit ''xmpp.example'', setup_display_name = []\<rparr> = (Inr i, c)
     \<and> hm_get (core_accounts c) i = Some a \<and> acct_server a = lit ''xmpp.example''"
proof -
  have "validate_jid (lit ''carol'' @ lit ''@'' @ lit ''xmpp.example'') = Inr ()" "validate_server (lit ''xmpp.example'') = Inr ()"
    by (simp_all add: validate_jid_def validate_server_def lit_def at_sign_def slash_def is_ws_def trim_def)
  then show ?thesis by (simp add: add_account_def allocate_account_id_def Let_def update_conv')
qed

lemma demo_connects:
  assumes "hm_get (core_accounts (tc_core s)) i = Some a" and "acct_server a = lit ''xmpp.example''"
    and "tc_transport s = tokio_new"
  shows "fst (tc_connect (fe_adapter demo_env) s i pw) = Inr ()"
proof -
  have server: "trim (lit ''xmpp.example'') = lit ''xmpp.example''" "xmpp_split_host_and_port (lit ''xmpp.example'') = Inr None"
    "lit ''xmpp.example'' \<noteq> []"
    by (simp_all add: trim_def is_ws_def xmpp_split_host_and_port_def strip_prefix_def lit_def colon_def)
  have "\<exists>conn. from_request demo_parsers \<lparr>cr_account_id = i, cr_jid = acct_jid a, cr_server = acct_server a, cr_password = pw,
       cr_auto_reconnect = acct_auto_reconnect a, cr_proxy = None, cr_proxy_password = None\<rparr> = Inr conn"
    by (simp add: from_request_def assms(2) server validate_endpoint_syntax_def demo_parsers_def Let_def)
  then show ?thesis
    unfolding fe_adapter_def demo_env_parsers
    by (auto simp: tc_connect_def connect_effect assms(1,3) tokio_adapter_def tokio_connect_def Let_def hm_contains_def
        tokio_new_def demo_env_def demo_scheduler_def)
qed

theorem ffi_register_spec_witness:
  "\<exists>i h' a. ffi_register_account demo_env demo_handle (lit ''carol'') (lit ''xmpp.example'') [] (lit ''pw'') = (Inr i, h')
     \<and> hm_get (core_accounts (tc_core (fh_session h'))) i = Some a \<and> acct_connection_state a = CS_Connecting"
proof -
  let ?call = "ffi_register_account demo_env demo_handle (lit ''carol'') (lit ''xmpp.example'') [] (lit ''pw'')"
  have texts: "lit ''pw'' \<noteq> []" "trim (lit ''carol'') \<noteq> []" "trim (lit ''xmpp.example'') \<noteq> []"
    by (simp_all add: lit_def trim_def is_ws_def)
  have reg: "register (fe_parsers demo_env) (fe_world demo_env) (fe_register_thread demo_env)
      \<lparr>rr_username = lit ''carol'', rr_server = lit ''xmpp.example'', rr_password = SecretString (lit ''pw'')\<rparr> = Inr ()"
    using demo_registered by (auto simp: register_def demo_env_def demo_register_def)
  obtain i c a where add: "add_account demo_core \<lparr>setup_jid = lit ''carol'' @ lit ''@'' @ lit ''xmpp.example'',
       setup_server = lit ''xmpp.example'', setup_display_name = []\<rparr> = (Inr i, c)"
    and a: "hm_get (core_accounts c) i = Some a" "acct_server a = lit ''xmpp.example''"
    using demo_added by blast
  have session: "fh_session demo_handle = \<lparr>tc_core = demo_core, tc_transport = tokio_new\<rparr>" by (simp add: demo_handle_def)
  obtain s2 where "tc_connect (fe_adapter demo_env) \<lparr>tc_core = c, tc_transport = tokio_new\<rparr> i (SecretString (lit ''pw'')) = (Inr (), s2)"
    using demo_connects [of "\<lparr>tc_core = c, tc_transport = tokio_new\<rparr>" i a] a by (metis prod.collapse transport_coordinator.select_convs)
  then have run: "?call = (Inr i, demo_handle\<lparr>fh_session := s2\<rparr>)"
    using texts reg add demo_handle_ok(2) by (simp add: ffi_register_account_def locked_def session)
  from ffi_register_spec [OF demo_handle_ok(1) run] run show ?thesis by auto
qed

section \<open>Credentials\<close>

lemma tokio_connect_private:
  "fst (tokio_connect L spawn t (q\<lparr>cr_password := pw, cr_proxy_password := x\<rparr>)) = fst (tokio_connect L spawn t q)"
  by (auto simp: tokio_connect_def from_request_def Let_def split: option.split sum.split spawn_outcome.split)

text \<open>What a save reports and leaves on the disk depends on the core alone.\<close>

lemma save_sees_core:
  assumes "tc_core (fh_session h1) = tc_core (fh_session h2)" "fh_session_poisoned h1 = fh_session_poisoned h2"
  shows "(case ffi_save_state E d h1 path of (r, _, d') \<Rightarrow> (r, d')) = (case ffi_save_state E d h2 path of (r, _, d') \<Rightarrow> (r, d'))"
    and "(case ffi_save_state_secured E d h1 path key of (r, _, d') \<Rightarrow> (r, d'))
      = (case ffi_save_state_secured E d h2 path key of (r, _, d') \<Rightarrow> (r, d'))"
  using assms by (auto simp: ffi_save_state_def ffi_save_state_secured_def Let_def split: sum.splits prod.splits)

text \<open>C26: A connect hands the credentials to the worker, and what it leaves behind elsewhere does not depend on
  them. Two calls
  that differ only in a password, of which neither is empty, and in the proxy password have the same result and
  leave the same core and the same records of saves and loads; so right after the call the snapshot, the queued
  events, the diagnostics and a state file that is saved, in plain or secured, are the same too. (What the
  worker reports later does depend on whether the password is right.) A call without a password is refused and
  changes nothing.\<close>

theorem ffi_connect_private:
  assumes "pw \<noteq> []" and "pw' \<noteq> []"
  shows "(case (ffi_connect_account_with_proxy E h i pw px x, ffi_connect_account_with_proxy E h i pw' px x') of
    ((r, h1), (r', h2)) \<Rightarrow> r = r' \<and> tc_core (fh_session h1) = tc_core (fh_session h2) \<and> fh_track h1 = fh_track h2
      \<and> fst (ffi_snapshot h1) = fst (ffi_snapshot h2) \<and> fst (ffi_drain_events h1) = fst (ffi_drain_events h2)
      \<and> diagnostics_report h1 = diagnostics_report h2
      \<and> (\<forall>d path. (case ffi_save_state E d h1 path of (saved, _, d') \<Rightarrow> (saved, d'))
            = (case ffi_save_state E d h2 path of (saved, _, d') \<Rightarrow> (saved, d')))
      \<and> (\<forall>d path key. (case ffi_save_state_secured E d h1 path key of (saved, _, d') \<Rightarrow> (saved, d'))
            = (case ffi_save_state_secured E d h2 path key of (saved, _, d') \<Rightarrow> (saved, d'))))
    \<and> ffi_connect_account_with_proxy E h i [] px x = (Inl password_required, h)"
proof -
  have same: "fst (tr_connect (fe_adapter E) t \<lparr>cr_account_id = i, cr_jid = j, cr_server = sv, cr_password = p,
        cr_auto_reconnect = ar, cr_proxy = y, cr_proxy_password = z\<rparr>)
      = fst (tr_connect (fe_adapter E) t \<lparr>cr_account_id = i, cr_jid = j, cr_server = sv, cr_password = p',
        cr_auto_reconnect = ar, cr_proxy = y, cr_proxy_password = z'\<rparr>)" for t j sv p p' ar y z z'
    using tokio_connect_private [where L = "parsers.truncate (fe_parsers E)" and spawn = "sd_spawn (fe_scheduler E) t" and t = t
      and q = "\<lparr>cr_account_id = i, cr_jid = j, cr_server = sv, cr_password = p', cr_auto_reconnect = ar, cr_proxy = y, cr_proxy_password = z'\<rparr>"
      and pw = p and x = z]
    by (simp add: fe_adapter_def tokio_adapter_def)
  have session: "fst (connect_with_proxy (fe_adapter E) s i p y z) = fst (connect_with_proxy (fe_adapter E) s i p' y z')
      \<and> tc_core (snd (connect_with_proxy (fe_adapter E) s i p y z)) = tc_core (snd (connect_with_proxy (fe_adapter E) s i p' y z'))"
    for s p p' y z z'
  proof (cases "hm_get (core_accounts (tc_core s)) i")
    case (Some a)
    show ?thesis
      using same [of "tc_transport s" "acct_jid a" "acct_server a" p "acct_auto_reconnect a" y z p' z']
      by (auto simp: connect_effect Some split: prod.splits sum.splits)
  qed (simp add: connect_effect)
  show ?thesis
  proof (cases "case px of None \<Rightarrow> Inr None | Some config \<Rightarrow> map_sum (\<lambda>e. e) Some (to_proxy_config config)")
    case (Inl e)
    then show ?thesis using assms by (simp add: ffi_connect_account_with_proxy_def)
  next
    case (Inr v)
    note connected = session [of "fh_session h" "SecretString pw" v "map_option SecretString x" "SecretString pw'" "map_option SecretString x'"]
    let ?connect = "\<lambda>p y. connect_with_proxy (fe_adapter E) (fh_session h) i (SecretString p) v (map_option SecretString y)"
    have call: "ffi_connect_account_with_proxy E h i p px y =
        (if fh_session_poisoned h then (Inl lock_poisoned, h)
         else (map_sum binding_of_coordinator (\<lambda>a. a) (fst (?connect p y)), h\<lparr>fh_session := snd (?connect p y)\<rparr>))"
      if "p \<noteq> []" for p y
      using that Inr by (simp add: ffi_connect_account_with_proxy_def in_session_def locked_def case_prod_beta)
    obtain r1 h1 r2 h2 where calls: "ffi_connect_account_with_proxy E h i pw px x = (r1, h1)"
      "ffi_connect_account_with_proxy E h i pw' px x' = (r2, h2)" by fastforce
    have "r1 = r2" and core: "tc_core (fh_session h1) = tc_core (fh_session h2)" and track: "fh_track h1 = fh_track h2"
      and lock: "fh_session_poisoned h1 = fh_session_poisoned h2" "fh_track_poisoned h1 = fh_track_poisoned h2"
      using calls call [OF assms(1), of x] call [OF assms(2), of x'] connected
      by (cases "fh_session_poisoned h"; force)+
    moreover have "fst (ffi_snapshot h1) = fst (ffi_snapshot h2)" "fst (ffi_drain_events h1) = fst (ffi_drain_events h2)"
      "diagnostics_report h1 = diagnostics_report h2"
      using core track lock
      by (simp_all add: ffi_snapshot_def ffi_drain_events_def in_core_def locked_def diagnostics_report_def case_prod_beta
          Let_def drain_events_def)
    moreover have "ffi_connect_account_with_proxy E h i [] px x = (Inl password_required, h)"
      by (simp add: ffi_connect_account_with_proxy_def)
    ultimately show ?thesis
      unfolding calls prod.case by - (intro conjI allI; (assumption | rule save_sees_core [OF core lock(1)]))
  qed
qed

theorem ffi_connect_private_witness:
  "fst (ffi_connect_account_with_proxy demo_env demo_handle 1 (lit ''a'') None None)
     = fst (ffi_connect_account_with_proxy demo_env demo_handle 1 (lit ''b'') None (Some (lit ''c'')))"
proof -
  have "lit ''a'' \<noteq> []" "lit ''b'' \<noteq> []" by (simp_all add: lit_def)
  from ffi_connect_private [OF this, of demo_env demo_handle 1 None None "Some (lit ''c'')"] show ?thesis
    by (auto split: prod.splits)
qed

section \<open>The proxy library\<close>

lemma collect_results_Inr: "collect_results rs = Inr xs \<longleftrightarrow> rs = map Inr xs"
proof (induction rs arbitrary: xs)
  case (Cons r rs)
  then show ?case by (cases r; cases xs) (auto simp: map_sum_Inr)
qed auto

text \<open>Setting the proxies of an account stores all of them or, when one is invalid or the account is
  unknown, none; after a success the library reads back exactly as it was set.\<close>

lemma ffi_proxies_roundtrip:
  assumes "ffi_set_account_proxies h i (Some ps) = (r, h')"
  shows "case r of
      Inl _ \<Rightarrow> h' = h
    | Inr _ \<Rightarrow> fst (ffi_account_proxies h' i) = Inr ps \<and> list_all (\<lambda>p. \<not> is_err (to_proxy_config p)) ps"
proof (cases "collect_results (map to_proxy_config ps)")
  case (Inl e)
  then show ?thesis using assms by (auto simp: ffi_set_account_proxies_def)
next
  case (Inr vs)
  then have maps: "map to_proxy_config ps = map Inr vs" by (simp add: collect_results_Inr)
  have keep: "map ffi_proxy_config_from vs = ps"
    using maps
  proof (induction ps arbitrary: vs)
    case (Cons p ps)
    then obtain v ws where "vs = v # ws" by (cases vs) auto
    with Cons show ?case by (auto dest: to_proxy_config_back(1))
  qed simp
  have valid: "list_all (\<lambda>p. \<not> is_err (to_proxy_config p)) ps"
    using maps by (metis (mono_tags, lifting) imageE is_err_simps(2) list.set_map list_all_iff image_eqI)
  show ?thesis
  proof (cases "fh_session_poisoned h \<or> hm_get (core_accounts (tc_core (fh_session h))) i = None")
    case True
    then show ?thesis
      using assms Inr by (cases "fh_session_poisoned h")
        (auto simp: ffi_set_account_proxies_def in_core_def locked_def set_account_proxies_def modify_account_def)
  next
    case False
    then show ?thesis
      using assms Inr keep valid by (auto simp: ffi_set_account_proxies_def ffi_account_proxies_def in_core_def locked_def
          set_account_proxies_def modify_account_def account_proxies_def update_conv')
  qed
qed

section \<open>The quarantine flag\<close>

lemma locked_track [simp]: "fh_track (snd (locked h f)) = fh_track h"
  by (simp add: locked_def split: prod.split)

lemma in_core_track [simp]: "fh_track (snd (in_core h f)) = fh_track h" "fh_track (snd (in_session h g)) = fh_track h"
  by (simp_all add: in_core_def in_session_def)

text \<open>Once a load has failed, every later report says that the file is quarantined, also after a load that
  succeeded.\<close>

lemma quarantine_sticks:
  assumes "trk_quarantined (fh_track h)"
  shows "trk_quarantined (fh_track (after E call h))"
proof -
  have tracked: "trk_quarantined (fh_track (on_track g f))"
    if "fh_track g = fh_track h" "\<And>t. trk_quarantined t \<Longrightarrow> trk_quarantined (f t)" for f g
    using that assms by (simp add: on_track_def)
  show ?thesis
    using assms
    by (cases call)
      (auto simp: ffi_add_account_def ffi_set_connection_state_def ffi_set_capabilities_def ffi_upsert_contact_def
        ffi_open_conversation_def ffi_send_text_def ffi_receive_text_def ffi_add_reaction_def ffi_mark_conversation_read_def
        ffi_connect_account_def ffi_connect_account_with_proxy_def ffi_set_account_proxies_def ffi_account_proxies_def
        ffi_register_account_def ffi_disconnect_account_def ffi_delete_account_def ffi_update_account_display_name_def
        ffi_delete_conversation_def ffi_poll_transport_events_def ffi_flush_outbox_def ffi_snapshot_def ffi_drain_events_def
        ffi_save_state_def ffi_load_state_def ffi_save_state_secured_def ffi_load_state_secured_def record_defs replace_core_def
        intro!: tracked split: sum.split option.split prod.split load_outcome.split)
qed

end
