(* ===== verification/Ffi_Lifecycle.thy ===== *)
theory Ffi_Lifecycle
  imports Ffi_Properties
begin

text \<open>
  What the handle (\<^verbatim>\<open>ffi.rs\<close>) owes the platform from its first call to its end: the values it hands out are
  well typed, a message it shows as sent was sent, and dropping it ends every worker thread.
\<close>

section \<open>What a snapshot contains\<close>

definition by_key :: "('v \<Rightarrow> 'k :: linorder) \<Rightarrow> 'v list \<Rightarrow> bool" where
  "by_key key vs \<longleftrightarrow> sorted (map key vs) \<and> distinct (map key vs)"

text \<open>A snapshot the platform can render without checking anything: lists in ascending order of their
  keys, references that resolve inside the snapshot, replies inside their conversation, validated
  texts, and an attachment exactly on the messages that are not text.\<close>

definition snapshot_typed :: "ffi_core_snapshot \<Rightarrow> bool" where
  "snapshot_typed s \<longleftrightarrow>
     by_key facct_id (fsnap_accounts s) \<and> by_key (\<lambda>v. (fct_account_id v, fct_jid v)) (fsnap_contacts s)
     \<and> by_key fcv_id (fsnap_conversations s) \<and> by_key fmsg_id (fsnap_messages s) \<and> by_key frx_id (fsnap_reactions s)
     \<and> (\<forall>a \<in> set (fsnap_accounts s). 1 \<le> facct_id a \<and> bare_jid (facct_jid a) \<and> server_name (facct_server a))
     \<and> (\<forall>v \<in> set (fsnap_contacts s). fct_account_id v \<in> facct_id ` set (fsnap_accounts s)
          \<and> bare_jid (fct_jid v) \<and> trimmed (fct_display_name v))
     \<and> (\<forall>v \<in> set (fsnap_conversations s). 1 \<le> fcv_id v \<and> fcv_account_id v \<in> facct_id ` set (fsnap_accounts s)
          \<and> bare_jid (fcv_address v))
     \<and> (\<forall>m \<in> set (fsnap_messages s). 1 \<le> fmsg_id m \<and> fmsg_conversation_id m \<in> fcv_id ` set (fsnap_conversations s)
          \<and> body_ok (fmsg_body m) \<and> (fmsg_attachment m = None \<longleftrightarrow> fmsg_kind m = FMK_Text)
          \<and> (case fmsg_in_reply_to m of None \<Rightarrow> True
             | Some r \<Rightarrow> \<exists>w \<in> set (fsnap_messages s). fmsg_id w = r \<and> fmsg_conversation_id w = fmsg_conversation_id m))
     \<and> (\<forall>r \<in> set (fsnap_reactions s). 1 \<le> frx_id r \<and> frx_message_id r \<in> fmsg_id ` set (fsnap_messages s)
          \<and> trim (frx_emoji r) \<noteq> [])"

lemma by_key_values:
  assumes "keyed key m" and "\<And>v. key' (g v) = key v"
  shows "by_key key' (map g (sort_key key (hm_values m)))"
proof -
  have "map key' (map g (sort_key key (hm_values m))) = map key (sort_key key (hm_values m))"
    by (simp add: assms(2))
  then show ?thesis
    using keyed_values [OF assms(1)] unfolding by_key_def
    by (simp only: sorted_sort_key) (simp add: distinct_map)
qed

lemma ffi_keys [simp]:
  "facct_id (ffi_account_from a) = acct_id a" "facct_jid (ffi_account_from a) = acct_jid a"
  "facct_server (ffi_account_from a) = acct_server a"
  "fct_account_id (ffi_contact_from v) = ct_account_id v" "fct_jid (ffi_contact_from v) = ct_jid v"
  "fct_display_name (ffi_contact_from v) = ct_display_name v"
  "fcv_id (ffi_conversation_from w) = cv_id w" "fcv_account_id (ffi_conversation_from w) = cv_account_id w"
  "fcv_address (ffi_conversation_from w) = cv_address w"
  "fmsg_id (ffi_message_from m) = msg_id m" "fmsg_conversation_id (ffi_message_from m) = msg_conversation_id m"
  "fmsg_body (ffi_message_from m) = msg_body m" "fmsg_in_reply_to (ffi_message_from m) = msg_in_reply_to m"
  "frx_id (ffi_reaction_from r) = rx_id r" "frx_message_id (ffi_reaction_from r) = rx_message_id r"
  "frx_emoji (ffi_reaction_from r) = rx_emoji r"
  by (simp_all add: ffi_account_from_def ffi_contact_from_def ffi_conversation_from_def ffi_message_from_def
      ffi_reaction_from_def)

lemma ffi_message_union:
  "fmsg_attachment (ffi_message_from m) = None \<longleftrightarrow> msg_attachment m = None"
  "fmsg_kind (ffi_message_from m) = FMK_Text \<longleftrightarrow> msg_kind m = MK_Text"
  by (simp_all add: ffi_message_from_def) (cases "msg_kind m"; simp)

lemma id_in_values:
  assumes "keyed key m" and "hm_get m k \<noteq> None"
  shows "k \<in> key ` set (hm_values m)"
proof -
  obtain v where v: "hm_get m k = Some v" using assms(2) by auto
  then have "key v = k" and "v \<in> set (hm_values m)"
    using assms(1) hm.valsI [of m k v] by (auto simp: keyed_def)
  then show ?thesis by force
qed

lemma wf_positive:
  assumes "wf_core c"
  shows "hm_get (core_accounts c) i = Some a \<Longrightarrow> 1 \<le> acct_id a"
    and "hm_get (core_conversations c) i = Some v \<Longrightarrow> 1 \<le> cv_id v"
    and "hm_get (core_messages c) i = Some m \<Longrightarrow> 1 \<le> msg_id m"
    and "hm_get (core_reactions c) i = Some r \<Longrightarrow> 1 \<le> rx_id r"
  using assms by (auto simp: wf_core_def tables_ok_def dest: table_okD)

lemma snapshot_of_wf_typed:
  assumes "wf_core c"
  shows "snapshot_typed (ffi_core_snapshot_from (snapshot c))"
proof -
  note keyed = wf_keyed [OF assms] and ok = wf_hm_ok [OF assms]
  note at = hm.vals_iff [OF ok(1)] hm.vals_iff [OF ok(2)] hm.vals_iff [OF ok(3)] hm.vals_iff [OF ok(4)] hm.vals_iff [OF ok(5)]
  have acct: "1 \<le> acct_id a \<and> bare_jid (acct_jid a) \<and> server_name (acct_server a)" if "a \<in> set (hm_values (core_accounts c))" for a
    using that wf_account(2) [OF assms] wf_positive(1) [OF assms] by (auto simp: at account_data_def)
  have cont: "ct_account_id v \<in> acct_id ` set (hm_values (core_accounts c)) \<and> bare_jid (ct_jid v) \<and> trimmed (ct_display_name v)"
    if "v \<in> set (hm_values (core_contacts c))" for v
    using that wf_contact(2,3) [OF assms] id_in_values [OF keyed(1)] by (auto simp: at contact_data_def)
  have conv: "1 \<le> cv_id v \<and> cv_account_id v \<in> acct_id ` set (hm_values (core_accounts c)) \<and> bare_jid (cv_address v)"
    if "v \<in> set (hm_values (core_conversations c))" for v
    using that wf_conversation(2,3) [OF assms] wf_positive(2) [OF assms] id_in_values [OF keyed(1)] by (auto simp: at)
  have msg: "1 \<le> msg_id m \<and> msg_conversation_id m \<in> cv_id ` set (hm_values (core_conversations c)) \<and> message_data m"
    if "m \<in> set (hm_values (core_messages c))" for m
    using that wf_message(2,3) [OF assms] wf_positive(3) [OF assms] id_in_values [OF keyed(3)] by (auto simp: at)
  have rep: "\<exists>w \<in> set (hm_values (core_messages c)). msg_id w = r \<and> msg_conversation_id w = msg_conversation_id m"
    if m: "m \<in> set (hm_values (core_messages c))" and r: "msg_in_reply_to m = Some r" for m r
  proof -
    obtain k where k: "hm_get (core_messages c) k = Some m" using m by (auto simp: at)
    obtain w where w: "hm_get (core_messages c) r = Some w" "msg_conversation_id w = msg_conversation_id m"
      using wf_reply [OF assms k r] by blast
    then show ?thesis using wf_message(1) [OF assms w(1)] hm.valsI [OF ok(4) w(1)] by blast
  qed
  have rx: "1 \<le> rx_id r \<and> rx_message_id r \<in> msg_id ` set (hm_values (core_messages c)) \<and> trim (rx_emoji r) \<noteq> []"
    if "r \<in> set (hm_values (core_reactions c))" for r
    using that wf_reaction(2,3) [OF assms] wf_positive(4) [OF assms] id_in_values [OF keyed(4)] by (auto simp: at)
  show ?thesis
    unfolding snapshot_typed_def ffi_core_snapshot_from_def snapshot_def
    using acct cont conv msg rep rx
    by (auto simp: image_image ffi_message_union message_data_def contact_key_def
        intro!: by_key_values keyed split: option.split)
qed

text \<open>C4: The snapshot that the platform gets is well typed after every sequence of calls, loads of state files
  included, whatever the servers sent: ascending and distinct keys, references that resolve within the
  snapshot, replies inside their conversation, validated addresses and texts, and an attachment exactly
  on the messages that are not text. Taking it changes nothing.\<close>

theorem ffi_snapshot_typed:
  assumes "handle_run L n h" and "n \<le> 2 ^ 55"
  shows "case ffi_snapshot h of
      (Inl e, h') \<Rightarrow> fh_session_poisoned h \<and> h' = h
    | (Inr snap, h') \<Rightarrow> snapshot_typed snap \<and> h' = h"
proof -
  have "wf_core (tc_core (fh_session h))"
    using handle_run_ok [OF assms] by (simp add: handle_ok_def session_ok_def)
  from snapshot_of_wf_typed [OF this] show ?thesis
    by (simp add: ffi_snapshot_def in_core_def locked_def)
qed

theorem ffi_snapshot_typed_witness:
  "\<exists>snap. ffi_snapshot (after demo_env (Ffi_load_state demo_disk demo_disk (lit ''state'')) ffi_new) =
       (Inr snap, after demo_env (Ffi_load_state demo_disk demo_disk (lit ''state'')) ffi_new)
     \<and> snapshot_typed snap"
proof -
  let ?h = "after demo_env (Ffi_load_state demo_disk demo_disk (lit ''state'')) ffi_new"
  have "handle_run demo_parsers (Suc 0) ?h"
    by (rule run_ffi [OF run_new demo_env_parsers demo_env_readable])
  moreover have "\<not> fh_session_poisoned ?h"
    by (simp add: ffi_load_state_def load_guard_def ffi_new_def replace_core_def record_defs split: option.split sum.split)
  ultimately show ?thesis
    using ffi_snapshot_typed [of demo_parsers "Suc 0" ?h] by (auto split: prod.splits sum.splits)
qed

section \<open>What a sent message is\<close>

text \<open>The states the transport goes through while a queue is sent.\<close>

abbreviation sent_through :: "'t xmpp_transport \<Rightarrow> 't \<Rightarrow> outgoing_message list \<Rightarrow> 't" where
  "sent_through X \<equiv> foldl (\<lambda>t m. snd (tr_send X t m))"

lemma send_run_states:
  assumes "send_run X el n ms t = (ss, f, t')" and "j < length ss"
  shows "ss ! j = ms ! j \<and> fst (tr_send X (sent_through X t (take j ms)) (ms ! j)) = Inr ()"
  using assms
proof (induction ms arbitrary: n t ss f t' j)
  case (Cons m ms)
  obtain r t1 where rt: "tr_send X t m = (r, t1)" by fastforce
  obtain qs g t2 where run: "send_run X el (n + 1) ms t1 = (qs, g, t2)" by (metis prod_cases3)
  have ss: "r = Inr ()" "ss = m # qs" if "ss \<noteq> []"
    using Cons.prems(1) rt run that by (auto split: if_splits sum.splits)
  show ?case
  proof (cases j)
    case 0
    then show ?thesis using ss Cons.prems(2) rt by auto
  next
    case (Suc i)
    have "ss \<noteq> []" using Cons.prems(2) by auto
    note ss = ss [OF this]
    have "i < length qs" using ss(2) Suc Cons.prems(2) by simp
    from Cons.IH [OF run this] show ?thesis using ss rt Suc by simp
  qed
qed simp

lemma sent_through_tidy:
  "tokio_tidy t \<Longrightarrow> tokio_tidy (sent_through (tokio_adapter L S) t ms)"
  by (induction ms arbitrary: t) (simp_all add: tokio_sound.send_valid)

lemma flushed_sent:
  assumes "session_ok tokio_tidy s" and "flush_outbox X el s i = (r, s')"
    and "hm_get (core_messages (tc_core s)) k = Some w" and "hm_get (core_messages (tc_core s')) k = Some w'"
    and "msg_delivery_state w \<noteq> DS_Sent" and "msg_delivery_state w' = DS_Sent"
  shows "\<exists>out j. pending_outgoing_messages (tc_core s) i = Inr out \<and> j < length out \<and> j < 16
    \<and> om_message_id (out ! j) = k \<and> fst (tr_send X (sent_through X (tc_transport s) (take j out)) (out ! j)) = Inr ()"
proof -
  have wf: "wf_core (tc_core s)" using assms(1) by (simp add: session_ok_def)
  obtain out where out: "pending_outgoing_messages (tc_core s) i = Inr out"
    using assms(2-6) by (cases "pending_outgoing_messages (tc_core s) i") (auto simp: flush_outbox_def)
  obtain ss f t where run: "send_run X el 0 (take 16 out) (tc_transport s) = (ss, f, t)" by (metis prod_cases3)
  have "tc_core s' = mark_run (tc_core s) ss f"
    using assms(2) unfolding flush_outbox_run [OF wf out run] by auto
  then have "k \<in> om_message_id ` set ss"
    using assms(3-6) mark_run_get [of "tc_core s" ss f k] by (auto split: if_splits)
  then obtain j where j: "j < length ss" "om_message_id (ss ! j) = k" by (auto simp: in_set_conv_nth)
  have "j < 16" "j < length out" using j(1) send_run_prefix [OF run] by auto
  with j send_run_states [OF run j(1)] out show ?thesis by (intro exI [of _ out] exI [of _ j]) simp
qed

lemma pending_source:
  assumes "wf_core c" and "pending_outgoing_messages c i = Inr out" and "m \<in> set out"
    and "hm_get (core_messages c) (om_message_id m) = Some w"
  shows "outgoing_of c i w = Some m"
proof -
  obtain k v where v: "hm_get (core_messages c) k = Some v" "outgoing_of c i v = Some m"
    using assms(1-3) hm.vals_iff [OF wf_hm_ok(4) [OF assms(1)]]
    by (auto simp: pending_outgoing_messages_def map_filter_set split: if_splits)
  then show ?thesis using outgoing_of_id [OF v(2)] wf_message(1) [OF assms(1) v(1)] assms(4) by simp
qed

lemma outgoing_of_account: "outgoing_of c i w = Some m \<Longrightarrow> om_account_id m = i"
  by (auto simp: outgoing_of_def split: option.splits if_splits)

text \<open>C5: A message that a flush shows as sent was sent: it was in the queue of the account, and during the call
  the thread of the worker that this very account owns took the message out of its channel, built its
  stanza - of the body and for the address that the core stores - and handed it to the client without
  an error.\<close>

theorem ffi_flush_honest:
  assumes "handle_ok h" and "ffi_flush_outbox E h i = (r, h')"
    and "hm_get (core_messages (tc_core (fh_session h))) k = Some w"
    and "hm_get (core_messages (tc_core (fh_session h'))) k = Some w'"
    and "msg_delivery_state w \<noteq> DS_Sent" and "msg_delivery_state w' = DS_Sent"
  shows "\<exists>m out j tid stanza. outgoing_of (tc_core (fh_session h)) i w = Some m
    \<and> pending_outgoing_messages (tc_core (fh_session h)) i = Inr out \<and> j < length out \<and> out ! j = m
    \<and> build_message_stanza (parsers.truncate (fe_parsers E)) m = Inr stanza
    \<and> (let t = sent_through (fe_adapter E) (tc_transport (fh_session h)) (take j out)
       in hm_get (tt_workers t) i = Some tid \<and> wk_account_id (th_worker (tt_threads t ! tid)) = i
         \<and> (tid, W_Send m Send_Ok) \<in> set (made_moves (parsers.truncate (fe_parsers E))
             (enqueue tid (Cmd_Send m) t) (sd_during (fe_scheduler E) t)))"
proof -
  let ?s = "fh_session h" and ?L = "parsers.truncate (fe_parsers E)"
  have ok: "session_ok tokio_tidy ?s" "wf_core (tc_core ?s)" "tokio_tidy (tc_transport ?s)"
    using assms(1) by (simp_all add: handle_ok_def session_ok_def)
  obtain r1 s1 where flush: "flush_outbox (fe_adapter E) (fe_elapsed E) ?s i = (r1, s1)" by fastforce
  have "h' = h \<or> fh_session h' = ?s \<or> fh_session h' = s1"
    using assms(2) flush by (auto simp: ffi_flush_outbox_def in_session_def locked_def Let_def split: if_splits option.splits)
  then have s1: "fh_session h' = s1" using assms(3-6) by auto
  obtain out j where j: "pending_outgoing_messages (tc_core ?s) i = Inr out" "j < length out" "om_message_id (out ! j) = k"
    and sent: "fst (tr_send (fe_adapter E) (sent_through (fe_adapter E) (tc_transport ?s) (take j out)) (out ! j)) = Inr ()"
    using flushed_sent [OF ok(1) flush assms(3) assms(4) [unfolded s1] assms(5,6)] by blast
  let ?t = "sent_through (fe_adapter E) (tc_transport ?s) (take j out)"
  have m: "outgoing_of (tc_core ?s) i w = Some (out ! j)"
    by (rule pending_source [OF ok(2) j(1)]) (use j assms(3) in auto)
  then have acct: "om_account_id (out ! j) = i" by (rule outgoing_of_account)
  have "tokio_ok ?t" unfolding fe_adapter_def by (intro tidy_ok sent_through_tidy ok(3))
  moreover obtain t' where "tokio_send ?L (sd_during (fe_scheduler E) ?t) ?t (out ! j) = (Inr (), t')"
    using sent by (cases "tokio_send ?L (sd_during (fe_scheduler E) ?t) ?t (out ! j)") (simp add: fe_adapter_def tokio_adapter_def)
  ultimately obtain tid stanza where "hm_get (tt_workers ?t) i = Some tid" "wk_account_id (th_worker (tt_threads ?t ! tid)) = i"
    "(tid, W_Send (out ! j) Send_Ok) \<in> set (made_moves ?L (enqueue tid (Cmd_Send (out ! j)) ?t) (sd_during (fe_scheduler E) ?t))"
    "build_message_stanza ?L (out ! j) = Inr stanza"
    using send_honest [of ?t ?L "sd_during (fe_scheduler E) ?t" "out ! j"] acct by (auto split: option.splits)
  with m j show ?thesis by (auto simp: Let_def)
qed

section \<open>The end of the worker threads\<close>

text \<open>C6: Dropping the handle ends every worker thread that was ever started, also those that serve no account
  any more. From the drop on, however the threads are scheduled and whatever the servers send, a
  thread reads its command channel at most once for each command in it and once more; and until it has
  ended, such a read is possible and it has not used up that bound. So every schedule that keeps
  letting a thread read its channel ends it.\<close>

theorem drop_ends_workers:
  fixes L :: "'e parsers"
  assumes "handle_ok h" and "tid < length (tt_threads (tc_transport (fh_session h)))"
  shows "let t0 = tokio_drop (tc_transport (fh_session h)); t = thread_moves L t0 mvs;
             bound = Suc (length (th_channel (tt_threads t0 ! tid)))
    in channel_reads L tid t0 mvs \<le> bound
      \<and> (thread_exited (tt_threads t ! tid)
          \<or> channel_reads L tid t0 mvs < bound \<and> (\<exists>i :: 'e worker_input. is_command i \<and> can_move t (tid, i)))"
proof -
  let ?d = "tokio_drop (tc_transport (fh_session h))"
  let ?t = "thread_moves L ?d mvs"
  have tidy: "tokio_tidy (tc_transport (fh_session h))"
    using assms(1) by (simp add: handle_ok_def session_ok_def)
  note closed = drop_closes [OF tidy assms(2)]
  have "tid < length (tt_threads ?t)" "\<not> th_open (tt_threads ?t ! tid)"
    using closed assms(2) moves_shape [of L ?d mvs] moves_open [of L ?d mvs tid] by simp_all
  note progress = closed_progress [OF this]
  have "channel_reads L tid ?d mvs + remaining (tt_threads ?t ! tid) \<le> Suc (length (th_channel (tt_threads ?d ! tid)))"
    using moves_remaining [of L tid ?d mvs] by (auto simp: remaining_def split: if_splits)
  with progress show ?thesis by (auto simp: Let_def remaining_def split: if_splits)
qed

text \<open>A handle with one live connection.\<close>

definition demo_online :: ffi_handle where
  "demo_online = ffi_new\<lparr>fh_session := \<lparr>tc_core = demo_core, tc_transport = demo_online_tokio\<rparr>\<rparr>"

lemma demo_online_ok: "handle_ok demo_online" "tc_transport (fh_session demo_online) = demo_online_tokio"
  "tc_core (fh_session demo_online) = demo_core"
proof -
  have "tokio_tidy demo_online_tokio"
    unfolding demo_online_tokio_def demo_tokio_def by (intro tidy_move tidy_connect tidy_new)
  then show "handle_ok demo_online" by (simp add: demo_online_def handle_ok_def session_ok_def demo_wf)
qed (simp_all add: demo_online_def)

text \<open>The thread of the connection has the farewell of the drop in its channel; two reads end it.\<close>

theorem drop_ends_workers_witness:
  "channel_reads demo_parsers 0 (tokio_drop demo_online_tokio) [(0, W_Ping), (0, W_Disconnect Close_TimedOut), (0, W_Closed)] \<le> 2"
proof -
  obtain w where w: "demo_online_tokio = tokio_new\<lparr>tt_workers := [(1, 0)],
      tt_threads := [\<lparr>th_worker = w, th_channel = [], th_open = True\<rparr>], tt_queue := [Connected 1 {Cap_StreamManagement}]\<rparr>"
    "wk_phase w = Phase_Running"
    using demo_online_state by blast
  have "0 < length (tt_threads (tc_transport (fh_session demo_online)))" by (simp add: demo_online_ok w)
  from drop_ends_workers [OF demo_online_ok(1) this, of demo_parsers
      "[(0, W_Ping), (0, W_Disconnect Close_TimedOut), (0, W_Closed)]"]
  have "channel_reads demo_parsers 0 (tokio_drop demo_online_tokio) [(0, W_Ping), (0, W_Disconnect Close_TimedOut), (0, W_Closed)]
      \<le> Suc (length (th_channel (tt_threads (tokio_drop demo_online_tokio) ! 0)))"
    unfolding demo_online_ok(2) Let_def by blast
  moreover have "length (th_channel (tt_threads (tokio_drop demo_online_tokio) ! 0)) = 1"
    using w(2) by (simp add: w(1) tokio_drop_def enqueue_def close_channel_def thread_exited_def Let_def)
  ultimately show ?thesis by simp
qed

text \<open>A flush in which the thread sends the first message of the queue and then falls silent.\<close>

definition demo_flush_env :: "(ustr \<times> ustr) ffi_env" where
  "demo_flush_env = demo_env\<lparr>fe_scheduler := \<lparr>sd_during = (\<lambda>_. [(0, W_Send (demo_out 1) Send_Ok)]), sd_spawn = (\<lambda>_. Spawn_Ready)\<rparr>\<rparr>"

lemma demo_flush_adapter:
  "tr_send (fe_adapter demo_flush_env) t m = tokio_send demo_parsers [(0, W_Send (demo_out 1) Send_Ok)] t m"
  by (simp add: fe_adapter_def demo_flush_env_def tokio_adapter_def) (simp add: demo_env_parsers [symmetric] demo_env_def)

lemma demo_first_send:
  "\<exists>t. tokio_send demo_parsers [(0, W_Send (demo_out 1) Send_Ok)] demo_online_tokio (demo_out 1) = (Inr (), t)"
proof -
  obtain w where w: "demo_online_tokio = tokio_new\<lparr>tt_workers := [(1, 0)],
      tt_threads := [\<lparr>th_worker = w, th_channel = [], th_open = True\<rparr>], tt_queue := [Connected 1 {Cap_StreamManagement}]\<rparr>"
    "wk_phase w = Phase_Running"
    using demo_online_state by blast
  obtain st where b: "om_account_id (demo_out 1) = 1" "build_message_stanza demo_parsers (demo_out 1) = Inr st"
    by (simp add: demo_out_def build_message_stanza_def demo_parsers_def Let_def)
  show ?thesis
    by (simp add: w b tokio_send_def ask_worker_def thread_exited_def enqueue_def thread_moves_def thread_move_def can_move_def
        takes_def offers_input_def worker_step_def running_step_def send_message_def asks_reply_def first_reply_def
        List.map_filter_simps tokio_new_def Let_def)
qed

lemma demo_flush:
  "\<exists>r h' w'. ffi_flush_outbox demo_flush_env demo_online 1 = (r, h')
     \<and> hm_get (core_messages (tc_core (fh_session h'))) 1 = Some w' \<and> msg_delivery_state w' = DS_Sent"
proof -
  let ?X = "fe_adapter demo_flush_env"
  obtain ss f t where run: "send_run ?X (\<lambda>_. 0) 0 (take 16 [demo_out 1, demo_out 3]) demo_online_tokio = (ss, f, t)"
    by (metis prod_cases3)
  have ids: "om_message_id (demo_out 1) = 1" "om_message_id (demo_out 3) = 3" by (simp_all add: demo_out_def)
  have first: "demo_out 1 \<in> set ss" and only: "\<nexists>m e. f = Some (m, e) \<and> om_message_id m = 1"
    using run demo_first_send ids
    by (auto simp: demo_flush_adapter FLUSH_SEND_TIMEOUT_def split: sum.splits prod.splits)
  let ?s = "fh_session demo_online"
  have s: "wf_core (tc_core ?s)" "pending_outgoing_messages (tc_core ?s) 1 = Inr [demo_out 1, demo_out 3]"
    "tc_transport ?s = demo_online_tokio" "fe_elapsed demo_flush_env = (\<lambda>_. 0)"
    by (simp_all add: demo_online_ok demo_wf demo_pending) (simp add: demo_flush_env_def demo_env_def)
  have "find (\<lambda>account. acct_id account = 1) (accounts (tc_core ?s)) = Some demo_account" "acct_connection_state demo_account = CS_Online"
    by (simp_all add: demo_online_ok accounts_def snapshot_def demo_core_def hm_values_def) (simp_all add: demo_account_def)
  with flush_outbox_run [OF s(1,2) run [folded s(3)]] s(4)
  have "fh_session (snd (ffi_flush_outbox demo_flush_env demo_online 1)) =
      ?s\<lparr>tc_core := mark_run (tc_core ?s) ss f, tc_transport := t\<rparr>"
    by (simp add: ffi_flush_outbox_def in_session_def locked_def demo_online_def ffi_new_def Let_def)
  moreover have "hm_get (core_messages demo_core) 1 = Some (demo_message 1 2 MD_Outgoing DS_Pending None)"
    by (simp add: demo_core_def)
  ultimately show ?thesis
    using first only ids by (cases "ffi_flush_outbox demo_flush_env demo_online 1") (force simp: mark_run_get demo_online_ok)
qed

theorem ffi_flush_honest_witness:
  "\<exists>stanza. build_message_stanza demo_parsers (demo_out 1) = Inr stanza"
proof -
  obtain r h' w' where flush: "ffi_flush_outbox demo_flush_env demo_online 1 = (r, h')"
    and w': "hm_get (core_messages (tc_core (fh_session h'))) 1 = Some w'" "msg_delivery_state w' = DS_Sent"
    using demo_flush by blast
  have w: "hm_get (core_messages (tc_core (fh_session demo_online))) 1 = Some (demo_message 1 2 MD_Outgoing DS_Pending None)"
    by (simp add: demo_online_ok demo_core_def)
  have "outgoing_of demo_core 1 (demo_message 1 2 MD_Outgoing DS_Pending None) = Some (demo_out 1)"
    by (simp add: outgoing_of_def demo_defs demo_out_def)
  moreover have "parsers.truncate (fe_parsers demo_flush_env) = demo_parsers"
    by (simp add: demo_flush_env_def demo_env_parsers)
  ultimately show ?thesis
    using ffi_flush_honest [OF demo_online_ok(1) flush w w'(1) _ w'(2)]
    by (auto simp: demo_online_ok demo_message_def)
qed

end
