(* ===== verification/Session_Status.thy ===== *)
theory Session_Status
  imports Session_Wf
begin

text \<open>
  What the interface shows and what the worker does: the connection state of an account in the core,
  after the events of its worker were projected, against the session of the worker.
\<close>

fun status_after :: "connection_state \<Rightarrow> transport_event \<Rightarrow> connection_state" where
  "status_after st (Connected _ _) = CS_Online"
| "status_after st (Disconnected _ recoverable _ _) = (if recoverable then CS_Offline else CS_Failed)"
| "status_after st _ = st"

fun kind_after :: "disconnect_kind option \<Rightarrow> transport_event \<Rightarrow> disconnect_kind option" where
  "kind_after k (Connected _ _) = None"
| "kind_after k (Disconnected _ _ _ kind) = Some kind"
| "kind_after k _ = k"

lemma receive_accounts: "core_accounts (snd (receive_transport_text c i k a s b now)) = core_accounts c"
  by (auto simp: receive_transport_text_def receive_text_def touch_conversation_def Let_def
      allocate_conversation_id_def allocate_message_id_def split: option.splits try_q_splits prod.splits)

text \<open>An event changes the connection state of its own account only.\<close>

lemma apply_event_status:
  assumes "hm_get (core_accounts c) i = Some a"
  shows "\<exists>b. hm_get (core_accounts (snd (apply_transport_event c ev))) i = Some b
    \<and> acct_connection_state b = (if ev_account ev = i then status_after (acct_connection_state a) ev else acct_connection_state a)
    \<and> acct_disconnect_kind b = (if ev_account ev = i then kind_after (acct_disconnect_kind a) ev else acct_disconnect_kind a)"
proof (cases ev)
  case (IncomingText j k ad s b now)
  then show ?thesis using assms by (simp add: apply_transport_event_def receive_accounts)
next
  case (DeliveryUpdated j s n st)
  then show ?thesis using assms
    by (simp add: receipt_event apply_delivery_update_effect split: option.split)
qed (use assms in \<open>auto simp: apply_transport_event_def set_capabilities_def modify_account_def sync_roster_contact_def
    remove_contact_def update_contact_presence_def Let_def update_conv' split: option.splits try_q_splits\<close>)

text \<open>The same for the events of several accounts, in any interleaving.\<close>

lemma project_status:
  assumes "hm_get (core_accounts c) i = Some a"
  shows "\<exists>b. hm_get (core_accounts (project c evs)) i = Some b
    \<and> acct_connection_state b = foldl status_after (acct_connection_state a) (filter (\<lambda>ev. ev_account ev = i) evs)
    \<and> acct_disconnect_kind b = foldl kind_after (acct_disconnect_kind a) (filter (\<lambda>ev. ev_account ev = i) evs)"
  using assms
proof (induction evs arbitrary: c a)
  case (Cons ev evs)
  obtain b where "hm_get (core_accounts (snd (apply_transport_event c ev))) i = Some b"
    "acct_connection_state b = (if ev_account ev = i then status_after (acct_connection_state a) ev else acct_connection_state a)"
    "acct_disconnect_kind b = (if ev_account ev = i then kind_after (acct_disconnect_kind a) ev else acct_disconnect_kind a)"
    using apply_event_status [OF Cons.prems] by blast
  with Cons.IH [OF this(1)] show ?case by auto
qed simp

text \<open>The connection state shows the session the events tell of.\<close>

definition shows_session :: "connection_state \<Rightarrow> disconnect_kind option \<Rightarrow> session \<Rightarrow> bool" where
  "shows_session st kind session = (case session of
     Session_Connecting \<Rightarrow> st = CS_Connecting
   | Session_Online \<Rightarrow> st = CS_Online \<and> kind = None
   | Session_Lost \<Rightarrow> st \<in> {CS_Offline, CS_Failed} \<and> kind \<noteq> None)"

lemma status_follows:
  "shows_session st kind session \<Longrightarrow>
     shows_session (foldl status_after st evs) (foldl kind_after kind evs) (session_of session evs)"
proof (induction evs arbitrary: st kind session)
  case (Cons ev evs)
  have "shows_session (status_after st ev) (kind_after kind ev) (session_after session ev)"
    using Cons.prems by (cases ev) (auto simp: shows_session_def split: session.splits)
  from Cons.IH [OF this] show ?case by simp
qed simp

text \<open>A worker that a command ended tells nothing more, and the flag of its session stays as it was.\<close>

lemma command_tells_nothing:
  assumes "is_command i" "worker_step L w i = (new, w')"
  shows "emitted new = [] \<and> (wk_phase w \<noteq> Phase_Exited \<longrightarrow> wk_session_live w' = wk_session_live w)"
  using assms
  by (auto simp: is_command_def worker_step_def connecting_step_def running_step_def exited_def send_message_def Let_def
      split: worker_input.splits if_splits sum.splits)

lemma worker_run_empty: "worker_run L w0 [] outs w \<Longrightarrow> w = w0 \<and> outs = []"
  by (auto elim: worker_run.cases)

lemma command_end:
  assumes "worker_run L (worker_start conn) ins outs w" and "ins \<noteq> []" "is_command (last ins)"
  shows "wk_session_live w = (session_of Session_Connecting (emitted outs) = Session_Online)"
  using assms
proof (cases rule: worker_run.cases)
  case (run_step ins0 outs0 w0 i new)
  note before = worker_run_invariant [OF run_step(3)]
  have step: "emitted new = []" "wk_phase w0 \<noteq> Phase_Exited \<longrightarrow> wk_session_live w = wk_session_live w0"
    using command_tells_nothing [OF _ run_step(5)] assms(3) run_step(1) by simp_all
  have "wk_session_live w0 = (session_of Session_Connecting (emitted outs0) = Session_Online)" if "wk_phase w0 \<noteq> Phase_Exited"
  proof (cases "wk_phase w0")
    case Phase_Connecting
    then have "w0 = worker_start conn" "outs0 = []"
      using before worker_run_empty run_step(3) by auto
    then show ?thesis by (simp add: worker_start_def)
  qed (use before that in auto)
  moreover have "wk_phase w0 \<noteq> Phase_Exited"
    using run_step(4) by (auto simp: takes_def)
  ultimately show ?thesis
    using step run_step(2) by simp
qed simp

text \<open>C2: What the interface shows of an account is what its worker has told. Once the events of the
  account's worker are projected, among events of any other accounts, the account is online exactly when the
  session is live, as long as the worker runs; it is shown as connecting until the first of them; and a worker
  that ended by itself leaves it offline or failed with a reason. A worker that ended by a command - a
  disconnect, a message sent while it was connecting, or the end of its command channel, which the transport
  itself closes when it retires a worker - tells nothing of its end: the account stays as the last event showed
  it, and so online if the session was live.\<close>

theorem status_follows_session:
  assumes "worker_run L (worker_start conn) ins outs w"
    and "hm_get (core_accounts c) (wc_account_id conn) = Some a" and "acct_connection_state a = CS_Connecting"
    and "filter (\<lambda>ev. ev_account ev = wc_account_id conn) evs = emitted outs"
  shows "\<exists>b. hm_get (core_accounts (project c evs)) (wc_account_id conn) = Some b
    \<and> shows_session (acct_connection_state b) (acct_disconnect_kind b) (session_of Session_Connecting (emitted outs))
    \<and> (case wk_phase w of
         Phase_Connecting \<Rightarrow> acct_connection_state b = CS_Connecting
       | Phase_Running \<Rightarrow> (acct_connection_state b = CS_Online) = wk_session_live w
       | Phase_Exited \<Rightarrow> if ins \<noteq> [] \<and> is_command (last ins) then (acct_connection_state b = CS_Online) = wk_session_live w
           else acct_connection_state b \<in> {CS_Offline, CS_Failed} \<and> acct_disconnect_kind b \<noteq> None)"
proof -
  obtain b where b: "hm_get (core_accounts (project c evs)) (wc_account_id conn) = Some b"
    "acct_connection_state b = foldl status_after CS_Connecting (emitted outs)"
    "acct_disconnect_kind b = foldl kind_after (acct_disconnect_kind a) (emitted outs)"
    using project_status [OF assms(2), of evs] assms(3,4) by auto
  have "shows_session CS_Connecting (acct_disconnect_kind a) Session_Connecting" by (simp add: shows_session_def)
  from status_follows [OF this, of "emitted outs"]
  have "shows_session (acct_connection_state b) (acct_disconnect_kind b) (session_of Session_Connecting (emitted outs))"
    by (simp only: b)
  with worker_run_invariant [OF assms(1)] command_end [OF assms(1)] b(1) show ?thesis
    by (cases "session_of Session_Connecting (emitted outs)"; cases "wk_phase w") (auto simp: shows_session_def)
qed

definition demo_connecting :: mindchat_core where
  "demo_connecting = snd (set_connection_state demo_core 1 CS_Connecting)"

theorem status_follows_session_witness:
  "\<exists>outs w b. worker_run demo_parsers (worker_start demo_connection) demo_inputs outs w
     \<and> hm_get (core_accounts (project demo_connecting (emitted outs))) 1 = Some b
     \<and> acct_connection_state b \<in> {CS_Offline, CS_Failed}"
proof -
  obtain outs w where run: "worker_run demo_parsers (worker_start demo_connection) demo_inputs outs w"
    and w: "wk_phase w = Phase_Exited"
    using demo_worker_run by blast
  have i: "wc_account_id demo_connection = 1" by (simp add: demo_connection_def)
  obtain a where a: "hm_get (core_accounts demo_connecting) (wc_account_id demo_connection) = Some a" "acct_connection_state a = CS_Connecting"
    by (simp add: i demo_connecting_def set_connection_state_def modify_account_def demo_core_def update_conv')
  have "\<forall>ev \<in> set (emitted outs). ev_account ev = wc_account_id demo_connection"
    using worker_run_invariant [OF run] by blast
  then have "filter (\<lambda>ev. ev_account ev = wc_account_id demo_connection) (emitted outs) = emitted outs" by simp
  moreover have "\<not> is_command (last demo_inputs)" by (simp add: demo_inputs_def is_command_def)
  ultimately obtain b where "hm_get (core_accounts (project demo_connecting (emitted outs))) 1 = Some b"
    "acct_connection_state b \<in> {CS_Offline, CS_Failed}"
    using status_follows_session [OF run a, where evs = "emitted outs"] w i by auto
  with run show ?thesis by blast
qed

text \<open>
  So a loss that is polled together with the next connect leaves the account online without a worker: the
  transport retires the worker for the loss, which closes its command channel, and then the connect is projected.
\<close>

lemma reconnect_strands_account:
  fixes s :: "tokio_transport transport_coordinator"
  assumes "tokio_ok (tc_transport s)" and "tt_queue (tc_transport s) = [Disconnected i True detail kind, Connected i caps]"
    and "hm_get (core_accounts (tc_core s)) i = Some a"
  shows "\<exists>s' b. poll_transport_events (tokio_adapter L E) s 2 = (Inr 2, s')
    \<and> hm_get (core_accounts (tc_core s')) i = Some b \<and> acct_connection_state b = CS_Online
    \<and> hm_get (tt_workers (tc_transport s')) i = None"
proof -
  let ?evs = "[Disconnected i True detail kind, Connected i caps]"
  have X: "tr_next_event (tokio_adapter L E) = tokio_next_event" by (simp add: tokio_adapter_def)
  obtain t' where run: "pulled (tokio_adapter L E) 2 (tc_transport s) = (?evs, None, t')"
    using tokio.pulled_queue [OF X assms(1), of 2] assms(2) by auto
  then have "poll_transport_events (tokio_adapter L E) s 2 = (Inr 2, s\<lparr>tc_core := project (tc_core s) ?evs, tc_transport := t'\<rparr>)"
    by (simp add: poll_transport_events_def poll_loop_pulled)
  moreover have "hm_get (tt_workers t') i = None"
    using pulled_workers [OF X assms(1) run] by simp
  moreover obtain b where "hm_get (core_accounts (project (tc_core s) ?evs)) i = Some b" "acct_connection_state b = CS_Online"
    using project_status [OF assms(3), of ?evs] by auto
  ultimately show ?thesis by auto
qed

section \<open>Disconnecting\<close>

text \<open>C3: A disconnect either settles an account or says that it did not. It succeeds only after the
  account's worker has ended; the account is then offline, cancelled by the user. When it fails, the core is
  left as it was, so an account that was online is still shown so, though its worker is given up in every case:
  the transport no longer owns it and its channel is closed. A disconnect of an account without a worker is an
  error that changes nothing; no other account or worker is touched.\<close>

theorem disconnect_settles:
  assumes "tokio_ok (tc_transport s)" and "tc_disconnect (tokio_adapter L E) s i = (r, s')"
  shows "(\<forall>j. hm_get (tt_workers (tc_transport s')) j = (if j = i then None else hm_get (tt_workers (tc_transport s)) j))
    \<and> (\<forall>j. j \<noteq> i \<longrightarrow> hm_get (core_accounts (tc_core s')) j = hm_get (core_accounts (tc_core s)) j)
    \<and> (case hm_get (tt_workers (tc_transport s)) i of
        None \<Rightarrow> r = Inl (CE_Transport (tokio_error ''account has no active XMPP worker'')) \<and> s' = s
      | Some tid \<Rightarrow>
          \<not> th_open (tt_threads (tc_transport s') ! tid)
          \<and> (case r of
              Inl e \<Rightarrow> (\<exists>t. e = CE_Transport t) \<and> tc_core s' = tc_core s
            | Inr _ \<Rightarrow> thread_exited (tt_threads (tc_transport s') ! tid)
                \<and> (case hm_get (core_accounts (tc_core s)) i of
                     None \<Rightarrow> tc_core s' = tc_core s
                   | Some a \<Rightarrow> hm_get (core_accounts (tc_core s')) i
                       = Some (a\<lparr>acct_connection_state := CS_Offline, acct_connection_error := None,
                           acct_disconnect_kind := Some DK_Cancelled\<rparr>))))"
proof -
  obtain r1 t where rt: "tokio_disconnect L (sd_during E (tc_transport s)) (tc_transport s) i = (r1, t)" by fastforce
  have workers: "hm_get (tt_workers t) j = (if j = i then None else hm_get (tt_workers (tc_transport s)) j)" for j
    using disconnect_workers [OF assms(1), of L "sd_during E (tc_transport s)" i j] rt by simp
  have closed: "\<not> th_open (tt_threads t ! tid)" if "hm_get (tt_workers (tc_transport s)) i = Some tid" for tid
    using disconnect_effect [OF assms(1), of L "sd_during E (tc_transport s)" i i] rt that by simp
  show ?thesis
  proof (cases r1)
    case (Inl e)
    then have "r = Inl (CE_Transport e)" "s' = s\<lparr>tc_transport := t\<rparr>"
      using assms(2) rt by (simp_all add: tc_disconnect_def tokio_adapter_def)
    then show ?thesis
      using workers closed rt Inl by (auto simp: tokio_disconnect_def split: option.splits prod.splits)
  next
    case (Inr u)
    then obtain tid where tid: "hm_get (tt_workers (tc_transport s)) i = Some tid" "thread_exited (tt_threads t ! tid)"
      using disconnect_ends [OF assms(1), of L "sd_during E (tc_transport s)" i t] rt by auto
    have "r = Inr ()" "tc_transport s' = t"
      "tc_core s' = snd (apply_transport_event (tc_core s) (Disconnected i True None DK_Cancelled))"
      using assms(2) rt Inr
      by (cases "hm_get (core_accounts (tc_core s)) i";
          auto simp: tc_disconnect_def tokio_adapter_def on_core_def apply_transport_event_def Let_def)+
    then show ?thesis
      using workers closed tid by (auto simp: apply_transport_event_def update_conv' split: option.split)
  qed
qed

text \<open>A worker that is still closing its stream when the disconnect gives up.\<close>

definition demo_busy :: "(ustr \<times> ustr) scheduler" where
  "demo_busy = \<lparr>sd_during = (\<lambda>_. []), sd_spawn = (\<lambda>_. Spawn_Ready)\<rparr>"

definition demo_pair :: "tokio_transport transport_coordinator" where
  "demo_pair = \<lparr>tc_core = demo_core, tc_transport = demo_online_tokio\<rparr>"

theorem disconnect_settles_witness:
  "\<exists>e s'. tc_disconnect (tokio_adapter demo_parsers demo_busy) demo_pair 1 = (Inl (CE_Transport e), s')
    \<and> tc_core s' = demo_core \<and> hm_get (tt_workers (tc_transport s')) 1 = None"
proof -
  obtain r s' where d: "tc_disconnect (tokio_adapter demo_parsers demo_busy) demo_pair 1 = (r, s')" by fastforce
  obtain w where w: "demo_online_tokio = tokio_new\<lparr>tt_workers := [(1, 0)],
      tt_threads := [\<lparr>th_worker = w, th_channel = [], th_open = True\<rparr>], tt_queue := [Connected 1 {Cap_StreamManagement}]\<rparr>"
    "wk_phase w = Phase_Running"
    using demo_online_state by blast
  have ok: "tokio_ok (tc_transport demo_pair)"
    using reachable_ok [OF demo_online_reachable] by (simp add: demo_pair_def)
  have worker: "hm_get (tt_workers (tc_transport demo_pair)) 1 = Some 0"
    by (simp add: demo_pair_def w(1))
  have "\<exists>e. r = Inl e"
    using d w(2) by (auto simp: tc_disconnect_def tokio_adapter_def tokio_disconnect_def demo_pair_def demo_busy_def w(1)
        ask_worker_def thread_exited_def enqueue_def thread_moves_def tokio_new_def Let_def)
  with disconnect_settles [OF ok d] d worker show ?thesis
    by (auto simp: demo_pair_def)
qed

end
