(* ===== verification/Xmpp_Tunnel.thy ===== *)
theory Xmpp_Tunnel
  imports Xmpp_Connect Proxy_Handshake
begin

text \<open>
  \<^verbatim>\<open>ProxyServerConnector\<close> (\<^verbatim>\<open>xmpp.rs\<close>): how a client that is dialled through a proxy gets its stream, on the
  first connect and on every reconnect. The connector over an open stream (TLS and the start of the
  XMPP stream) is a parameter.
\<close>

record proxy_server_connector =
  psc_proxy :: proxy_config
  psc_proxy_password :: "ustr option"
  psc_target :: proxy_target

definition proxy_connector_connect ::
  "(ustr \<Rightarrow> u16 \<Rightarrow> ustr + tcp_stream) \<Rightarrow> (u8 list \<Rightarrow> ustr) \<Rightarrow> (ustr \<Rightarrow> ustr)
    \<Rightarrow> (tcp_stream \<Rightarrow> ustr \<Rightarrow> xmpp_error + 'a) \<Rightarrow> proxy_server_connector \<Rightarrow> xmpp_error + 'a" where
  "proxy_connector_connect dial b64 debug_str preconnected connector =
     (case connect_via_proxy dial b64 debug_str (psc_proxy connector) (psc_proxy_password connector) (psc_target connector) of
        Inl error \<Rightarrow> Inl (XE_Io (proxy_error_display error))
      | Inr stream \<Rightarrow> preconnected stream (pt_host (psc_target connector)))"

text \<open>Whatever a proxy does wrong, the client sees a lost network: the account stays recoverable, the reason
  is the proxy's own, and it is never taken for rejected credentials or a bad certificate of the server.\<close>

lemma proxy_failure_is_network_loss:
  assumes "connect_via_proxy dial b64 debug_str (psc_proxy C) (psc_proxy_password C) (psc_target C) = Inl error"
  shows "proxy_connector_connect dial b64 debug_str preconnected C = Inl (XE_Io (proxy_error_display error))
    \<and> disconnected_is_recoverable (XE_Io (proxy_error_display error))
    \<and> classify_disconnect (XE_Io (proxy_error_display error)) = DK_NetworkLost"
  using assms by (simp add: proxy_connector_connect_def disconnected_is_recoverable_def classify_disconnect_def)

text \<open>The server is reached only through the tunnel: what is dialled is the proxy's own address, and the
  stream the server's certificate is checked on is the one whose handshake succeeded.\<close>

lemma proxy_connector_dials_proxy:
  assumes "proxy_connector_connect dial b64 debug_str preconnected C = Inr x"
  shows "\<exists>stream tunnel. dial (px_host (psc_proxy C)) (px_port (psc_proxy C)) = Inr stream
    \<and> connect_via_proxy dial b64 debug_str (psc_proxy C) (psc_proxy_password C) (psc_target C) = Inr tunnel
    \<and> preconnected tunnel (pt_host (psc_target C)) = Inr x"
  using assms
  by (auto simp: proxy_connector_connect_def connect_via_proxy_def split: sum.splits)

end
