(* ===== verification/Client_Login.thy ===== *)
theory Client_Login
  imports Xmpp_Stanza
begin

text \<open>
  The sign-in of the client (\<^verbatim>\<open>client/login.rs\<close> of the vendored \<^verbatim>\<open>tokio-xmpp\<close>, with MindChat's patch
  of the mechanisms): which SASL mechanism is started, the exchange with the server, and
  how each end of it is reported. The crate \<^verbatim>\<open>sasl\<close> and the parser of mechanism names are parameters, as is
  the stream: what it reads, up to its end, and which of its writes fail.
\<close>

section \<open>Parameters\<close>

datatype credentialed_mechanism = Mech_Scram_Sha256 | Mech_Scram_Sha1 | Mech_Plain

record 'b credentials =
  cr_username :: ustr
  cr_password :: ustr
  cr_channel_binding :: 'b

text \<open>
  A mechanism of the crate \<^verbatim>\<open>sasl\<close> is a value of \<open>'m\<close>; \<open>sl_wire_name\<close> is the parser of
  \<^verbatim>\<open>xmpp_parsers::sasl::Mechanism\<close>, followed by what the value is written as, with its error's text.
\<close>

record ('b, 'm) sasl_library =
  sl_from_credentials :: "credentialed_mechanism \<Rightarrow> 'b credentials \<Rightarrow> 'm"
  sl_name :: "'m \<Rightarrow> ustr"
  sl_initial :: "'m \<Rightarrow> u8 list \<times> 'm"
  sl_response :: "'m \<Rightarrow> u8 list \<Rightarrow> (ustr + u8 list) \<times> 'm"
  sl_wire_name :: "ustr \<Rightarrow> ustr + ustr"

datatype sasl_read =
    Read_Challenge "u8 list"
  | Read_Success
  | Read_Failure sasl_condition
  | Read_Other_Nonza
  | Read_Element ustr
  | Read_Hard_Error ustr
  | Read_Parse_Error ustr
  | Read_Soft_Timeout
  | Read_Footer

datatype sasl_sent = Sent_Auth ustr "u8 list" | Sent_Response "u8 list"

text \<open>The text of the error of the \<open>n\<close>th write, if it fails.\<close>

type_synonym write_faults = "nat \<Rightarrow> ustr option"

section \<open>The exchange\<close>

text \<open>
  The inner loop of \<^verbatim>\<open>auth\<close>: what it hands to the stream, and its result, on success with what is left to
  read.
\<close>

fun sasl_exchange ::
  "('b, 'm) sasl_library \<Rightarrow> write_faults \<Rightarrow> nat \<Rightarrow> 'm \<Rightarrow> sasl_read list
    \<Rightarrow> sasl_sent list \<times> (xmpp_error + sasl_read list)" where
  "sasl_exchange S faults n m [] = ([], Inl XE_Disconnected)"
| "sasl_exchange S faults n m (item # items) =
     (case item of
        Read_Challenge challenge \<Rightarrow>
          (case sl_response S m challenge of
             (Inl e, _) \<Rightarrow> ([], Inl (XE_Auth (AE_Sasl e)))
           | (Inr response, m') \<Rightarrow>
               (case faults n of
                  Some e \<Rightarrow> ([Sent_Response response], Inl (XE_Io e))
                | None \<Rightarrow>
                    let (sent, r) = sasl_exchange S faults (Suc n) m' items
                    in (Sent_Response response # sent, r)))
      | Read_Success \<Rightarrow> ([], Inr items)
      | Read_Failure condition \<Rightarrow> ([], Inl (XE_Auth (AE_Fail condition)))
      | Read_Other_Nonza \<Rightarrow> sasl_exchange S faults n m items
      | Read_Element el \<Rightarrow>
          ([], Inl (XE_Io (lit ''unexpected stream element during SASL negotiation: '' @ el)))
      | Read_Hard_Error e \<Rightarrow> ([], Inl (XE_Io e))
      | Read_Parse_Error e \<Rightarrow> ([], Inl (XE_Io e))
      | Read_Soft_Timeout \<Rightarrow> sasl_exchange S faults n m items
      | Read_Footer \<Rightarrow> ([], Inl XE_Disconnected))"

definition credentialed_mechanisms ::
  "('b, 'm) sasl_library \<Rightarrow> 'b credentials \<Rightarrow> 'm list" where
  "credentialed_mechanisms S creds =
     [sl_from_credentials S Mech_Scram_Sha256 creds,
      sl_from_credentials S Mech_Scram_Sha1 creds,
      sl_from_credentials S Mech_Plain creds]"

text \<open>The outer loop of \<^verbatim>\<open>auth\<close>, over the local mechanisms that are left.\<close>

fun auth_loop ::
  "('b, 'm) sasl_library \<Rightarrow> write_faults \<Rightarrow> sasl_read list \<Rightarrow> ustr set \<Rightarrow> 'm list
    \<Rightarrow> sasl_sent list \<times> (xmpp_error + sasl_read list)" where
  "auth_loop S faults items sasl_mechanisms [] = ([], Inl (XE_Auth AE_NoMechanism))"
| "auth_loop S faults items sasl_mechanisms (m # local_mechs) =
     (if sl_name S m \<in> sasl_mechanisms
      then let (initial, m') = sl_initial S m
        in (case sl_wire_name S (sl_name S m) of
              Inl e \<Rightarrow> ([], Inl (XE_Protocol e))
            | Inr wire_name \<Rightarrow>
                (case faults 0 of
                   Some e \<Rightarrow> ([Sent_Auth wire_name initial], Inl (XE_Io e))
                 | None \<Rightarrow>
                     let (sent, r) = sasl_exchange S faults 1 m' items
                     in (Sent_Auth wire_name initial # sent, r)))
      else auth_loop S faults items sasl_mechanisms local_mechs)"

definition auth ::
  "('b, 'm) sasl_library \<Rightarrow> write_faults \<Rightarrow> sasl_read list \<Rightarrow> ustr set \<Rightarrow> 'b credentials
    \<Rightarrow> sasl_sent list \<times> (xmpp_error + sasl_read list)" where
  "auth S faults items sasl_mechanisms creds =
     auth_loop S faults items sasl_mechanisms (credentialed_mechanisms S creds)"

text \<open>
  What a server does to one attempt: the opening of the stream with its channel binding, the features
  it announces, the exchange, and the new stream after it with its features.
\<close>

record ('b, 'c) sign_in_server =
  si_connect :: "xmpp_error + 'b"
  si_features :: "xmpp_error + ustr set"
  si_faults :: write_faults
  si_reads :: "sasl_read list"
  si_send_header :: "xmpp_error + unit"
  si_final_features :: "xmpp_error + 'c"

text \<open>\<^verbatim>\<open>jid.node().unwrap()\<close>: an address without a local part would panic, the outer \<^const>\<open>None\<close>.\<close>

definition client_auth ::
  "('b, 'm) sasl_library \<Rightarrow> ('b, 'c) sign_in_server \<Rightarrow> ustr option \<Rightarrow> ustr
    \<Rightarrow> (sasl_sent list \<times> (xmpp_error + 'c)) option" where
  "client_auth S server node password =
     (case node of
        None \<Rightarrow> None
      | Some username \<Rightarrow> Some
          (case si_connect server of
             Inl e \<Rightarrow> ([], Inl e)
           | Inr channel_binding \<Rightarrow>
               (case si_features server of
                  Inl e \<Rightarrow> ([], Inl e)
                | Inr sasl_mechanisms \<Rightarrow>
                    let creds = \<lparr>cr_username = username, cr_password = password, cr_channel_binding = channel_binding\<rparr>;
                        (sent, r) = auth S (si_faults server) (si_reads server) sasl_mechanisms creds
                    in (sent, (case r of
                          Inl e \<Rightarrow> Inl e
                        | Inr _ \<Rightarrow> (case si_send_header server of
                              Inl e \<Rightarrow> Inl e
                            | Inr _ \<Rightarrow> si_final_features server))))))"

section \<open>What is started, and how it ends\<close>

text \<open>What the loop goes on after.\<close>

fun keeps_waiting :: "sasl_read \<Rightarrow> bool" where
  "keeps_waiting (Read_Challenge _) = True"
| "keeps_waiting Read_Other_Nonza = True"
| "keeps_waiting Read_Soft_Timeout = True"
| "keeps_waiting _ = False"

text \<open>
  The exchange as a whole, without a loop: the challenges that come before the end of it, the mechanism's
  responses to them, in order and up to the first challenge that it refuses, and what the read that ends it means.
\<close>

fun challenge_of :: "sasl_read \<Rightarrow> u8 list list" where
  "challenge_of (Read_Challenge challenge) = [challenge]"
| "challenge_of _ = []"

definition asked :: "sasl_read list \<Rightarrow> u8 list list" where
  "asked items = concat (map challenge_of (takeWhile keeps_waiting items))"

fun answers :: "('b, 'm) sasl_library \<Rightarrow> 'm \<Rightarrow> u8 list list \<Rightarrow> u8 list list \<times> ustr option" where
  "answers S m [] = ([], None)"
| "answers S m (challenge # challenges) =
     (case sl_response S m challenge of
        (Inl refusal, _) \<Rightarrow> ([], Some refusal)
      | (Inr response, m') \<Rightarrow> (let (responses, refusal) = answers S m' challenges in (response # responses, refusal)))"

fun verdict :: "sasl_read list \<Rightarrow> xmpp_error + sasl_read list" where
  "verdict (Read_Success # items) = Inr items"
| "verdict (Read_Failure condition # _) = Inl (XE_Auth (AE_Fail condition))"
| "verdict (Read_Element el # _) = Inl (XE_Io (lit ''unexpected stream element during SASL negotiation: '' @ el))"
| "verdict (Read_Hard_Error e # _) = Inl (XE_Io e)"
| "verdict (Read_Parse_Error e # _) = Inl (XE_Io e)"
| "verdict _ = Inl XE_Disconnected"

text \<open>The first of \<open>k\<close> writes from the \<open>n\<close>th on that fails.\<close>

definition first_fault :: "write_faults \<Rightarrow> nat \<Rightarrow> nat \<Rightarrow> nat option" where
  "first_fault faults n k = List.find (\<lambda>i. faults (n + i) \<noteq> None) [0..<k]"

definition exchanged ::
  "('b, 'm) sasl_library \<Rightarrow> write_faults \<Rightarrow> nat \<Rightarrow> 'm \<Rightarrow> sasl_read list \<Rightarrow> sasl_sent list \<times> (xmpp_error + sasl_read list)" where
  "exchanged S faults n m items =
     (let (responses, refusal) = answers S m (asked items)
      in case first_fault faults n (length responses) of
           Some i \<Rightarrow> (map Sent_Response (take (Suc i) responses), Inl (XE_Io (the (faults (n + i)))))
         | None \<Rightarrow> (map Sent_Response responses,
             case refusal of
               Some e \<Rightarrow> Inl (XE_Auth (AE_Sasl e))
             | None \<Rightarrow> verdict (dropWhile keeps_waiting items)))"

lemma find_map: "List.find P (map f xs) = map_option f (List.find (P \<circ> f) xs)"
  by (induction xs) simp_all

lemma first_fault_Suc:
  "first_fault faults n (Suc k)
     = (if faults n \<noteq> None then Some 0 else map_option Suc (first_fault faults (Suc n) k))"
proof -
  have "[0..<Suc k] = 0 # map Suc [0..<k]"
    by (simp add: map_Suc_upt upt_conv_Cons del: upt_Suc)
  then show ?thesis
    by (simp add: first_fault_def find_map comp_def del: upt_Suc)
qed

lemma exchange_exchanged: "sasl_exchange S faults n m items = exchanged S faults n m items"
proof (induction S faults n m items rule: sasl_exchange.induct)
  case (1 S faults n m)
  then show ?case by (simp add: exchanged_def asked_def first_fault_def)
next
  case (2 S faults n m item items)
  show ?case
  proof (cases item)
    case (Read_Challenge challenge)
    obtain r m' where r: "sl_response S m challenge = (r, m')" by fastforce
    show ?thesis
    proof (cases r)
      case (Inl e)
      then show ?thesis
        using Read_Challenge r by (simp add: exchanged_def asked_def first_fault_def)
    next
      case (Inr response)
      obtain responses refusal where a: "answers S m' (asked items) = (responses, refusal)" by fastforce
      have all: "answers S m (asked (Read_Challenge challenge # items)) = (response # responses, refusal)"
        using Read_Challenge r Inr a by (simp add: asked_def)
      show ?thesis
      proof (cases "faults n")
        case None
        have "sasl_exchange S faults (Suc n) m' items = exchanged S faults (Suc n) m' items"
          using 2(1) Read_Challenge r Inr None by metis
        then show ?thesis
          using Read_Challenge r Inr None a
          by (auto simp: exchanged_def all first_fault_Suc split: option.splits)
      next
        case (Some e)
        then show ?thesis
          using Read_Challenge r Inr by (simp add: exchanged_def all first_fault_Suc)
      qed
    qed
  qed (use 2 in \<open>auto simp: exchanged_def asked_def first_fault_def split: prod.splits option.splits\<close>)
qed

text \<open>The first local mechanism the server offers.\<close>

definition first_offered :: "('b, 'm) sasl_library \<Rightarrow> ustr set \<Rightarrow> 'm list \<Rightarrow> 'm option" where
  "first_offered S offered ms = List.find (\<lambda>m. sl_name S m \<in> offered) ms"

lemma auth_loop_first:
  "auth_loop S faults items offered ms =
     (case first_offered S offered ms of
        None \<Rightarrow> ([], Inl (XE_Auth AE_NoMechanism))
      | Some m \<Rightarrow> auth_loop S faults items offered [m])"
  by (induction ms) (auto simp: first_offered_def)

text \<open>
  The names the crate gives its mechanisms, with and without a channel binding, all of which
  \<^verbatim>\<open>xmpp_parsers\<close> knows.
\<close>

definition PLAIN :: ustr where "PLAIN = lit ''PLAIN''"

fun wire_names :: "credentialed_mechanism \<Rightarrow> ustr set" where
  "wire_names Mech_Scram_Sha256 = {lit ''SCRAM-SHA-256'', lit ''SCRAM-SHA-256-PLUS''}"
| "wire_names Mech_Scram_Sha1 = {lit ''SCRAM-SHA-1'', lit ''SCRAM-SHA-1-PLUS''}"
| "wire_names Mech_Plain = {PLAIN}"

definition documented_names :: "('b, 'm) sasl_library \<Rightarrow> bool" where
  "documented_names S \<longleftrightarrow>
     (\<forall>mech creds. sl_name S (sl_from_credentials S mech creds) \<in> wire_names mech)
   \<and> (\<forall>mech. \<forall>name \<in> wire_names mech. sl_wire_name S name = Inr name)"

lemma wire_names_distinct:
  "lit ''ANONYMOUS'' \<notin> wire_names mech" "PLAIN \<in> wire_names mech \<longleftrightarrow> mech = Mech_Plain"
  by (cases mech; simp add: PLAIN_def lit_def)+

lemma local_mechanism:
  "m \<in> set (credentialed_mechanisms S creds) \<longleftrightarrow> (\<exists>mech. m = sl_from_credentials S mech creds)"
  by (auto simp: credentialed_mechanisms_def) (metis credentialed_mechanism.exhaust)

lemma mechanism_names:
  assumes "documented_names S" "m \<in> set (credentialed_mechanisms S creds)"
  shows "sl_wire_name S (sl_name S m) = Inr (sl_name S m)" "sl_name S m \<noteq> lit ''ANONYMOUS''"
  using assms wire_names_distinct(1) by (auto simp: local_mechanism documented_names_def) metis+

text \<open>C33: A sign-in starts at most one SASL mechanism: the first of SCRAM-SHA-256, SCRAM-SHA-1 and PLAIN,
  under the names they have for the channel binding of the connection, that the server offers, and never
  ANONYMOUS. So a password goes out by PLAIN only to a server that offers neither SCRAM under those names. After
  the start it sends the responses of the mechanism to the challenges before the end of the exchange, each once
  and in their order, up to the first one that the mechanism refuses or whose write fails, and nothing else. The
  first write that fails is an I/O error; a refused challenge is an authentication error, which is never
  retried; otherwise the read that ended the exchange decides: the success of the server, its failure as an
  authentication error with its condition, or the loss of the connection or a stray element, which is no
  authentication error. Without a common mechanism nothing is sent. \<close>

theorem sign_in_spec:
  assumes "documented_names S"
  shows "case first_offered S offered (credentialed_mechanisms S creds) of
      None \<Rightarrow> auth S faults items offered creds = ([], Inl (XE_Auth AE_NoMechanism))
    | Some m \<Rightarrow> sl_name S m \<noteq> lit ''ANONYMOUS''
        \<and> (sl_name S m = PLAIN \<longrightarrow> (\<forall>mech \<in> {Mech_Scram_Sha256, Mech_Scram_Sha1}.
             sl_name S (sl_from_credentials S mech creds) \<notin> offered))
        \<and> (let start = Sent_Auth (sl_name S m) (fst (sl_initial S m));
               (responses, refusal) = answers S (snd (sl_initial S m)) (asked items)
           in auth S faults items offered creds =
             (case first_fault faults 0 (Suc (length responses)) of
                Some i \<Rightarrow> (start # map Sent_Response (take i responses), Inl (XE_Io (the (faults i))))
              | None \<Rightarrow> (start # map Sent_Response responses,
                  case refusal of
                    Some e \<Rightarrow> Inl (XE_Auth (AE_Sasl e))
                  | None \<Rightarrow> verdict (dropWhile keeps_waiting items))))"
proof (cases "first_offered S offered (credentialed_mechanisms S creds)")
  case None
  then show ?thesis
    by (simp add: auth_def auth_loop_first [of S faults items offered "credentialed_mechanisms S creds"])
next
  case (Some m)
  then have m: "m \<in> set (credentialed_mechanisms S creds)" "sl_name S m \<in> offered"
    by (auto simp: first_offered_def find_Some_iff)
  have plain: "\<forall>mech \<in> {Mech_Scram_Sha256, Mech_Scram_Sha1}. sl_name S (sl_from_credentials S mech creds) \<notin> offered"
    if "sl_name S m = PLAIN"
  proof -
    have "sl_name S (sl_from_credentials S mech creds) \<noteq> PLAIN" if "mech \<noteq> Mech_Plain" for mech
      using assms that wire_names_distinct(2) [of mech] by (metis documented_names_def)
    then show ?thesis
      using that Some by (auto simp: first_offered_def credentialed_mechanisms_def split: if_splits)
  qed
  have "auth S faults items offered creds = auth_loop S faults items offered [m]"
    using Some by (simp add: auth_def auth_loop_first [of S faults items offered "credentialed_mechanisms S creds"])
  moreover obtain responses refusal where a: "answers S (snd (sl_initial S m)) (asked items) = (responses, refusal)" by fastforce
  have "auth_loop S faults items offered [m] =
      (case first_fault faults 0 (Suc (length responses)) of
         Some i \<Rightarrow> (Sent_Auth (sl_name S m) (fst (sl_initial S m)) # map Sent_Response (take i responses), Inl (XE_Io (the (faults i))))
       | None \<Rightarrow> (Sent_Auth (sl_name S m) (fst (sl_initial S m)) # map Sent_Response responses,
           case refusal of
             Some e \<Rightarrow> Inl (XE_Auth (AE_Sasl e))
           | None \<Rightarrow> verdict (dropWhile keeps_waiting items)))"
    using m(2) mechanism_names(1) [OF assms m(1)] a
    by (cases "sl_initial S m"; cases "faults 0")
      (auto simp: exchange_exchanged exchanged_def first_fault_Suc split: option.splits)
  ultimately show ?thesis
    using Some plain mechanism_names(2) [OF assms m(1)] a by (simp add: Let_def)
qed

text \<open>A library that names its mechanisms by the channel binding, as the tests of \<^verbatim>\<open>login.rs\<close> show it to do.\<close>

definition demo_sasl :: "(bool, ustr) sasl_library" where
  "demo_sasl = \<lparr>
     sl_from_credentials = (\<lambda>mech creds.
       let plus = (if cr_channel_binding creds then lit ''-PLUS'' else [])
       in case mech of
            Mech_Scram_Sha256 \<Rightarrow> lit ''SCRAM-SHA-256'' @ plus
          | Mech_Scram_Sha1 \<Rightarrow> lit ''SCRAM-SHA-1'' @ plus
          | Mech_Plain \<Rightarrow> PLAIN),
     sl_name = (\<lambda>m. m), sl_initial = (\<lambda>m. ([1], m)), sl_response = (\<lambda>m challenge. (Inr (rev challenge), m)),
     sl_wire_name = Inr\<rparr>"

lemma demo_sasl_names: "documented_names demo_sasl"
  unfolding documented_names_def
proof (intro conjI allI)
  show "sl_name demo_sasl (sl_from_credentials demo_sasl mech creds) \<in> wire_names mech" for mech creds
    by (cases mech) (simp_all add: demo_sasl_def lit_def)
qed (simp add: demo_sasl_def)

definition demo_credentials :: "bool \<Rightarrow> bool credentials" where
  "demo_credentials binding = \<lparr>cr_username = lit ''alice'', cr_password = lit ''secret'', cr_channel_binding = binding\<rparr>"

theorem sign_in_spec_witness:
  "first_offered demo_sasl {lit ''SCRAM-SHA-1'', PLAIN} (credentialed_mechanisms demo_sasl (demo_credentials False))
     = Some (lit ''SCRAM-SHA-1'')
   \<and> auth demo_sasl (\<lambda>_. None) [Read_Challenge [7, 8], Read_Soft_Timeout, Read_Success] {lit ''SCRAM-SHA-1'', PLAIN} (demo_credentials False)
     = ([Sent_Auth (lit ''SCRAM-SHA-1'') [1], Sent_Response [8, 7]], Inr [])"
proof -
  have "first_offered demo_sasl {lit ''SCRAM-SHA-1'', PLAIN} (credentialed_mechanisms demo_sasl (demo_credentials False))
      = Some (lit ''SCRAM-SHA-1'')"
    by (simp add: first_offered_def credentialed_mechanisms_def demo_sasl_def demo_credentials_def PLAIN_def lit_def)
  moreover have "sl_initial demo_sasl m = ([1], m)" "sl_name demo_sasl m = m"
    "sl_response demo_sasl m c = (Inr (rev c), m)" for m c
    by (simp_all add: demo_sasl_def)
  ultimately show ?thesis
    using sign_in_spec [OF demo_sasl_names, where offered = "{lit ''SCRAM-SHA-1'', PLAIN}"
        and creds = "demo_credentials False" and faults = "\<lambda>_. None"
        and items = "[Read_Challenge [7, 8], Read_Soft_Timeout, Read_Success]"]
    by (simp add: asked_def first_fault_def)
qed

text \<open>
  On a connection with a channel binding, the mechanisms without one are not tried: a server that offers
  SCRAM without channel binding is sent the password by PLAIN, or is refused if it has no PLAIN.\<close>

lemma plain_beside_scram:
  "auth demo_sasl (\<lambda>_. None) [Read_Success] {lit ''SCRAM-SHA-256'', PLAIN} (demo_credentials True)
     = ([Sent_Auth PLAIN [1]], Inr [])"
  "auth demo_sasl (\<lambda>_. None) [Read_Success] {lit ''SCRAM-SHA-256''} (demo_credentials True)
     = ([], Inl (XE_Auth AE_NoMechanism))"
  by (simp_all add: auth_def credentialed_mechanisms_def demo_sasl_def demo_credentials_def PLAIN_def lit_def)

end
