(* ===== verification/Client_Resume.thy ===== *)
theory Client_Resume
  imports Prelude
begin

text \<open>
  What keeps a stanza of the client from being lost when the connection is: the transmit queue
  (\<^verbatim>\<open>stanzastream/queue.rs\<close>) and the state of XEP-0198 stream management
  (\<^verbatim>\<open>stanzastream/stream_management.rs\<close>) of the vendored \<^verbatim>\<open>tokio-xmpp\<close>, with its counters modulo \<open>2 ^ 32\<close>.
\<close>

section \<open>The transmit queue\<close>

datatype 'a poll = Poll_Pending | Poll_Ready 'a

text \<open>\<open>tq_inner\<close> is what the channel holds, \<open>tq_closed\<close> whether its senders are gone.\<close>

record 'q transmit_queue =
  tq_inner :: "'q list"
  tq_closed :: bool
  tq_peek :: "'q list"

definition tq_wrap :: "'q transmit_queue" where
  "tq_wrap = \<lparr>tq_inner = [], tq_closed = False, tq_peek = []\<rparr>"

text \<open>The reference that \<^verbatim>\<open>poll_next\<close> returns is to the front of the local queue.\<close>

definition tq_poll_next :: "'q transmit_queue \<Rightarrow> 'q option poll \<times> 'q transmit_queue" where
  "tq_poll_next q =
     (case tq_peek q of
        v # _ \<Rightarrow> (Poll_Ready (Some v), q)
      | [] \<Rightarrow>
          (case tq_inner q of
             [] \<Rightarrow> (if tq_closed q then Poll_Ready None else Poll_Pending, q)
           | v # vs \<Rightarrow> (Poll_Ready (Some v), q\<lparr>tq_inner := vs, tq_peek := [v]\<rparr>)))"

definition tq_take :: "'q transmit_queue \<Rightarrow> 'q transmit_queue" where
  "tq_take q = q\<lparr>tq_peek := tl (tq_peek q)\<rparr>"

definition list_swap :: "nat \<Rightarrow> nat \<Rightarrow> 'q list \<Rightarrow> 'q list" where
  "list_swap i j xs = xs[i := xs ! j, j := xs ! i]"

text \<open>The two loops of \<^verbatim>\<open>requeue_all\<close>: every item is pushed to the front, then their order is turned back.\<close>

definition turn_back :: "nat \<Rightarrow> nat \<Rightarrow> 'q list \<Rightarrow> 'q list" where
  "turn_back n k peek = foldl (\<lambda>peek i. list_swap i (n - (i + 1)) peek) peek [0..<k]"

definition requeue_all :: "'q list \<Rightarrow> 'q transmit_queue \<Rightarrow> 'q transmit_queue" where
  "requeue_all items q =
     (let (n, peek) = foldl (\<lambda>(n, peek) item. (Suc n, item # peek)) (0, tq_peek q) items
      in q\<lparr>tq_peek := turn_back n (n div 2) peek\<rparr>)"

definition tq_enqueue :: "'q \<Rightarrow> 'q transmit_queue \<Rightarrow> 'q transmit_queue" where
  "tq_enqueue item q = q\<lparr>tq_peek := tq_peek q @ [item]\<rparr>"

text \<open>\<^verbatim>\<open>fail\<close> empties the queue; the first result are the items whose tokens it sets to failed.\<close>

definition tq_fail :: "'q transmit_queue \<Rightarrow> 'q list \<times> 'q transmit_queue" where
  "tq_fail q = (tq_peek q @ tq_inner q, q\<lparr>tq_peek := [], tq_inner := []\<rparr>)"

definition tq_content :: "'q transmit_queue \<Rightarrow> 'q list" where
  "tq_content q = tq_peek q @ tq_inner q"

lemma push_front: "foldl (\<lambda>(n, peek) item. (Suc n, item # peek)) (n :: nat, peek) items = (n + length items, rev items @ peek)"
  by (induction items arbitrary: n peek) auto

lemma length_turn_back: "length (turn_back n k peek) = length peek"
  by (induction k) (simp_all add: turn_back_def list_swap_def)

text \<open>After \<open>k\<close> swaps the outer \<open>k\<close> positions on either side are turned, and nothing else.\<close>

lemma nth_turn_back:
  assumes "2 * k \<le> n" "n \<le> length peek" "p < length peek"
  shows "turn_back n k peek ! p = peek ! (if p < k \<or> n - k \<le> p \<and> p < n then n - (p + 1) else p)"
  using assms
proof (induction k arbitrary: p)
  case 0
  then show ?case by (auto simp: turn_back_def)
next
  case (Suc k)
  let ?xs = "turn_back n k peek"
  have "turn_back n (Suc k) peek = ?xs[k := ?xs ! (n - (k + 1)), n - (k + 1) := ?xs ! k]"
    by (simp add: turn_back_def list_swap_def)
  then have "turn_back n (Suc k) peek ! p
      = (if p = n - (k + 1) then ?xs ! k else if p = k then ?xs ! (n - (k + 1)) else ?xs ! p)"
    using Suc.prems by (simp add: nth_list_update length_turn_back)
  also have "\<dots> = peek ! (if p < Suc k \<or> n - Suc k \<le> p \<and> p < n then n - (p + 1) else p)"
    using Suc.IH [of k] Suc.IH [of "n - (k + 1)"] Suc.IH [of p] Suc.prems
    by (auto intro: arg_cong [of _ _ "(!) peek"])
  finally show ?case .
qed

lemma turn_back_rev: "turn_back (length xs) (length xs div 2) (rev xs @ ys) = xs @ ys"
proof (rule nth_equalityI)
  show "length (turn_back (length xs) (length xs div 2) (rev xs @ ys)) = length (xs @ ys)"
    by (simp add: length_turn_back)
next
  fix p assume p: "p < length (turn_back (length xs) (length xs div 2) (rev xs @ ys))"
  let ?n = "length xs"
  have "2 * (?n div 2) \<le> ?n" by simp
  then have nth: "turn_back ?n (?n div 2) (rev xs @ ys) ! p
      = (rev xs @ ys) ! (if p < ?n div 2 \<or> ?n - ?n div 2 \<le> p \<and> p < ?n then ?n - (p + 1) else p)"
    using p by (subst nth_turn_back) (simp_all add: length_turn_back)
  have middle: "p = ?n - (p + 1)" if "p < ?n" "\<not> p < ?n div 2" "\<not> ?n - ?n div 2 \<le> p"
    using that by linarith
  show "turn_back ?n (?n div 2) (rev xs @ ys) ! p = (xs @ ys) ! p"
    using nth middle p by (auto simp: nth_append rev_nth length_turn_back)
qed

text \<open>So the items stand in front, in their own order.\<close>

lemma requeue_all_eq: "requeue_all items q = q\<lparr>tq_peek := items @ tq_peek q\<rparr>"
  by (simp add: requeue_all_def push_front turn_back_rev)

lemma tq_content_simps [simp]:
  "tq_content (requeue_all items q) = items @ tq_content q"
  "tq_content (snd (tq_fail q)) = []" "fst (tq_fail q) = tq_content q"
  by (simp_all add: tq_content_def tq_fail_def requeue_all_eq)

section \<open>What the stream relies on\<close>

text \<open>
  The contract of the queue with the worker of the stream: what is polled is the oldest item and stays in the queue until
  it is taken, a closed queue ends once it is empty, and what is to be sent again goes before everything else.
\<close>

locale retransmit_queue =
  fixes content :: "'s \<Rightarrow> 'q list" and closed :: "'s \<Rightarrow> bool" and next_item :: "'s \<Rightarrow> 'q option poll \<times> 's"
    and take_item :: "'s \<Rightarrow> 's" and resend :: "'q list \<Rightarrow> 's \<Rightarrow> 's"
  assumes next_empty: "content q = [] \<Longrightarrow> next_item q = (if closed q then Poll_Ready None else Poll_Pending, q)"
    and next_head: "content q = v # vs \<Longrightarrow> fst (next_item q) = Poll_Ready (Some v)"
    and next_content: "content (snd (next_item q)) = content q"
    and next_closed: "closed (snd (next_item q)) = closed q"
    and take_content: "content (take_item (snd (next_item q))) = tl (content q)"
    and resend_content: "content (resend vs q) = vs @ content q"
begin

lemma poll_cases:
  obtains (pending) "next_item q = (Poll_Pending, q)" "content q = []" "\<not> closed q"
  | (finished) "next_item q = (Poll_Ready None, q)" "content q = []" "closed q"
  | (item) v q' where "next_item q = (Poll_Ready (Some v), q')" "content q = v # content (take_item q')"
      "content q' = content q" "closed q' = closed q"
proof (cases "content q")
  case Nil
  then show thesis
    using pending finished next_empty by (cases "closed q") simp_all
next
  case (Cons v vs)
  have "next_item q = (Poll_Ready (Some v), snd (next_item q))"
    using next_head [OF Cons] by (simp add: prod_eq_iff)
  then show thesis
    by (rule item) (simp_all add: Cons take_content next_content next_closed)
qed

lemma finished_iff: "fst (next_item q) = Poll_Ready None \<longleftrightarrow> content q = [] \<and> closed q"
  by (cases q rule: poll_cases) simp_all

lemma resent_first:
  obtains q' where "next_item (resend (v # vs) q) = (Poll_Ready (Some v), q')" "content (take_item q') = vs @ content q"
proof
  have "content (resend (v # vs) q) = v # (vs @ content q)" by (simp add: resend_content)
  then show "next_item (resend (v # vs) q) = (Poll_Ready (Some v), snd (next_item (resend (v # vs) q)))"
    "content (take_item (snd (next_item (resend (v # vs) q)))) = vs @ content q"
    by (simp_all add: prod_eq_iff next_head take_content)
qed

end

interpretation tq: retransmit_queue tq_content tq_closed tq_poll_next tq_take requeue_all
  by unfold_locales (auto simp: tq_poll_next_def tq_content_def tq_take_def requeue_all_eq split: list.splits)

lemmas tq_poll_cases = tq.poll_cases

section \<open>Stream management\<close>

datatype sm_resume_info = NotResumable | Resumable (sm_id: string) (sm_location: "string option")

record 'q sm_state =
  sm_outbound_base :: u32
  sm_inbound_ctr :: u32
  sm_pending_acks :: nat
  sm_pending_req :: bool
  sm_resumption :: sm_resume_info
  sm_unacked :: "'q list"

text \<open>An error carries the base, the length of the queue and the counter of the peer.\<close>

datatype sm_error = RemoteAckedMoreStanzas u32 u32 u32 | RemoteAckWentBackwards u32 u32 u32

text \<open>The reply of a server to the request for stream management (\<^verbatim>\<open>sm::Enabled\<close>).\<close>

record sm_enabled =
  en_resume :: bool
  en_id :: "string option"
  en_location :: "string option"

definition sm_from_enabled :: "sm_enabled \<Rightarrow> 'q sm_state" where
  "sm_from_enabled other =
     \<lparr>sm_outbound_base = 0, sm_inbound_ctr = 0, sm_pending_acks = 0, sm_pending_req = False,
      sm_resumption = (if en_resume other
        then (case en_id other of Some i \<Rightarrow> Resumable i (en_location other) | None \<Rightarrow> NotResumable)
        else NotResumable),
      sm_unacked = []\<rparr>"

definition MAX_QUEUE_SIZE :: nat where "MAX_QUEUE_SIZE = 2 ^ 31 - 2"

text \<open>A full queue of unacknowledged stanzas is a panic, \<^const>\<open>None\<close>.\<close>

definition sm_enqueue :: "'q \<Rightarrow> 'q sm_state \<Rightarrow> 'q sm_state option" where
  "sm_enqueue entry s =
     (if MAX_QUEUE_SIZE \<le> length (sm_unacked s) then None
      else Some (s\<lparr>sm_unacked := sm_unacked s @ [entry]\<rparr>))"

text \<open>On success the stanzas whose tokens are set to acknowledged.\<close>

definition remote_acked :: "u32 \<Rightarrow> 'q sm_state \<Rightarrow> (sm_error + 'q list) \<times> 'q sm_state" where
  "remote_acked h s =
     (let to_drop = unat (h - sm_outbound_base s);
          queue_len = of_nat (length (sm_unacked s))
      in if 0 < to_drop then
           (if length (sm_unacked s) < to_drop then
              (if (2 ^ 32 - 1) div 2 < (of_nat to_drop :: u32)
               then (Inl (RemoteAckWentBackwards (sm_outbound_base s) queue_len h), s)
               else (Inl (RemoteAckedMoreStanzas (sm_outbound_base s) queue_len h), s))
            else (Inr (take to_drop (sm_unacked s)),
                  s\<lparr>sm_unacked := drop to_drop (sm_unacked s), sm_outbound_base := h\<rparr>))
         else (Inr [], s))"

text \<open>On success the acknowledged stanzas and, after them, those to transmit again.\<close>

definition sm_resume :: "u32 \<Rightarrow> 'q sm_state \<Rightarrow> (sm_error + 'q list \<times> 'q list) \<times> 'q sm_state" where
  "sm_resume h s =
     (case remote_acked h s of
        (Inl e, s') \<Rightarrow> (Inl e, s')
      | (Inr acked, s') \<Rightarrow> (Inr (acked, sm_unacked s'), s'\<lparr>sm_unacked := []\<rparr>))"

definition sm_received :: "'q sm_state \<Rightarrow> 'q sm_state" where
  "sm_received s = s\<lparr>sm_inbound_ctr := sm_inbound_ctr s + 1\<rparr>"

definition resume_info :: "'q sm_state \<Rightarrow> (string \<times> u32) option" where
  "resume_info s =
     (case sm_resumption s of Resumable i _ \<Rightarrow> Some (i, sm_inbound_ctr s) | NotResumable \<Rightarrow> None)"

text \<open>The counters a server is told in \<^verbatim>\<open><handled-count-too-high/>\<close>.\<close>

fun handled_count_too_high :: "sm_error \<Rightarrow> u32 \<times> u32" where
  "handled_count_too_high (RemoteAckedMoreStanzas local_base queue_len remote_ctr) = (remote_ctr, local_base + queue_len)"
| "handled_count_too_high (RemoteAckWentBackwards local_base queue_len remote_ctr) = (remote_ctr, local_base + queue_len)"

text \<open>
  What the counters mean, modulo \<open>2 ^ 32\<close>: \<open>n\<close> stanzas were acknowledged before those still in the queue, which
  never holds more than half the number space.
\<close>

definition counts :: "nat \<Rightarrow> 'q sm_state \<Rightarrow> bool" where
  "counts n s \<longleftrightarrow> sm_outbound_base s = of_nat n \<and> length (sm_unacked s) \<le> MAX_QUEUE_SIZE"

lemma unat_count_diff:
  assumes "n \<le> m" "m - n < 2 ^ 32"
  shows "unat (of_nat m - of_nat n :: u32) = m - n"
proof -
  have "of_nat m - of_nat n = (of_nat (m - n) :: u32)"
    using assms(1) by (simp add: of_nat_diff)
  then show ?thesis
    using assms(2) by (simp add: unat_of_nat take_bit_eq_mod del: of_nat_diff)
qed

lemma unat_count_back:
  assumes "m < n" "n - m < 2 ^ 32"
  shows "unat (of_nat m - of_nat n :: u32) = 2 ^ 32 - (n - m)"
proof -
  have "of_nat m - of_nat n = 0 - (of_nat (n - m) :: u32)"
    using assms(1) by (simp add: of_nat_diff)
  moreover have "unat (of_nat (n - m) :: u32) = n - m"
    using assms(2) by (simp add: unat_of_nat take_bit_eq_mod del: of_nat_diff)
  ultimately show ?thesis
    using assms by (simp only: unat_sub_if_size) (simp add: word_size)
qed

text \<open>
  A truthful acknowledgement, of \<open>m\<close> stanzas altogether, is accepted and drops exactly the \<open>m - n\<close> oldest, also where a
  counter has wrapped; one beyond what was sent or before what was acknowledged is refused.
\<close>

lemma remote_acked_truthful:
  assumes "counts n s" "n \<le> m" "m \<le> n + length (sm_unacked s)"
  shows "remote_acked (of_nat m) s
      = (Inr (take (m - n) (sm_unacked s)), s\<lparr>sm_unacked := drop (m - n) (sm_unacked s), sm_outbound_base := of_nat m\<rparr>)"
proof -
  have "unat (of_nat m - sm_outbound_base s) = m - n"
    using assms by (auto simp: counts_def MAX_QUEUE_SIZE_def intro!: unat_count_diff)
  then show ?thesis
    using assms by (cases "m = n") (auto simp: remote_acked_def counts_def Let_def)
qed

lemma remote_acked_ahead:
  assumes "counts n s" "n + length (sm_unacked s) < m" "m < n + 2 ^ 31"
  shows "remote_acked (of_nat m) s
      = (Inl (RemoteAckedMoreStanzas (of_nat n) (of_nat (length (sm_unacked s))) (of_nat m)), s)"
proof -
  have "unat (of_nat m - sm_outbound_base s) = m - n" and "m - n < 2 ^ 31"
    using assms by (simp_all add: counts_def unat_count_diff)
  moreover then have "\<not> (2 ^ 32 - 1) div 2 < (of_nat (m - n) :: u32)"
    by (simp add: word_less_nat_alt unat_of_nat take_bit_eq_mod)
  ultimately show ?thesis
    using assms by (simp add: remote_acked_def counts_def Let_def)
qed

lemma remote_acked_behind:
  assumes "counts n s" "m < n" "n \<le> m + 2 ^ 31"
  shows "remote_acked (of_nat m) s
      = (Inl (RemoteAckWentBackwards (of_nat n) (of_nat (length (sm_unacked s))) (of_nat m)), s)"
proof -
  obtain d where d: "unat (of_nat m - sm_outbound_base s) = d" "2 ^ 31 \<le> d" "d < 2 ^ 32"
    using assms by (simp add: counts_def unat_count_back)
  then have "(2 ^ 32 - 1) div 2 < (of_nat d :: u32)"
    by (simp add: word_less_nat_alt unat_of_nat take_bit_eq_mod)
  then show ?thesis
    using d assms by (simp add: remote_acked_def counts_def Let_def MAX_QUEUE_SIZE_def)
qed

end
