(* ===== verification/Client_Stream.thy ===== *)
theory Client_Stream
  imports Client_Resume Xmpp_Stanza
begin

text \<open>
  The stanza stream of the client over one connection after another (\<^verbatim>\<open>stanzastream/negotiation.rs\<close>,
  \<^verbatim>\<open>connected.rs\<close> and \<^verbatim>\<open>worker.rs\<close> of the vendored \<^verbatim>\<open>tokio-xmpp\<close>): the negotiation that
  binds a resource or resumes a session, the established stream, and the worker that reconnects.
  A function is one poll that makes progress; what the XML stream does, and the text of
  an I/O error, are its arguments.
\<close>

section \<open>What an XML stream yields\<close>

datatype parse_failure = Parse_Xml ustr | Parse_Text ustr | Parse_Other ustr | Parse_Type_Mismatch ustr

datatype 'e stream_element =
    El_Stanza "'e stanza"
  | El_Enabled sm_enabled
  | El_Resumed u32
  | El_Failed "u32 option"
  | El_Ack u32
  | El_Request
  | El_Stream_Error ustr
  | El_Other ustr

text \<open>An element that could not be parsed: a stanza with its error's text, or another element.\<close>

datatype 'e fallible_element = El_Ok "'e stream_element" | El_Bad_Stanza ustr | El_Bad_Nonza ustr parse_failure

datatype read_error = Re_SoftTimeout | Re_ParseError parse_failure | Re_HardError ustr | Re_StreamFooterReceived

type_synonym 'e stream_read = "(read_error + 'e fallible_element) option"

text \<open>The conditions of the stream errors that are sent, with their texts.\<close>

datatype stream_error =
    SE_HandledCountTooHigh u32 u32
  | SE_UndefinedCondition ustr
  | SE_UnsupportedStanzaType ustr
  | SE_NotWellFormed ustr
  | SE_InvalidXml ustr

fun parse_error_to_stream_error :: "parse_failure \<Rightarrow> stream_error" where
  "parse_error_to_stream_error (Parse_Xml e) = SE_NotWellFormed e"
| "parse_error_to_stream_error (Parse_Text e) = SE_InvalidXml e"
| "parse_error_to_stream_error (Parse_Other e) = SE_InvalidXml e"
| "parse_error_to_stream_error (Parse_Type_Mismatch e) = SE_UnsupportedStanzaType e"

definition sm_stream_error :: "sm_error \<Rightarrow> stream_error" where
  "sm_stream_error e = (let (h, send_count) = handled_count_too_high e in SE_HandledCountTooHigh h send_count)"

text \<open>The end of the stream counts as a hard error; \<^verbatim>\<open>into_read_error\<close> makes one of an unparsable element.\<close>

definition read_item :: "'e stream_read \<Rightarrow> read_error + 'e fallible_element" where
  "read_item r = (case r of None \<Rightarrow> Inl (Re_HardError (lit ''eof before stream footer'')) | Some v \<Rightarrow> v)"

definition into_read_error :: "read_error + 'e fallible_element \<Rightarrow> read_error + 'e stream_element" where
  "into_read_error item =
     (case item of
        Inl e \<Rightarrow> Inl e
      | Inr (El_Ok v) \<Rightarrow> Inr v
      | Inr (El_Bad_Stanza e) \<Rightarrow> Inl (Re_HardError e)
      | Inr (El_Bad_Nonza e _) \<Rightarrow> Inl (Re_HardError e))"

section \<open>Negotiation\<close>

definition BIND_REQ_ID :: ustr where "BIND_REQ_ID = lit ''resource-binding''"

datatype 'q negotiation_state =
    SendSmRequest "'q sm_state option" "jid option"
  | ReceiveSmResponse "'q sm_state option" "jid option"
  | SendBindRequest bool
  | ReceiveBindResponse bool

datatype 'q negotiation_result =
    NR_Disconnect "'q sm_state option" ustr
  | NR_StreamReset "'q sm_state option" jid
  | NR_StreamResumed "'q sm_state"
  | NR_StreamError stream_error

text \<open>What is written: a request to bind the resource, to resume (counter and stream) or to enable.\<close>

datatype negotiation_request = Req_Bind "ustr option" | Req_Resume u32 string | Req_Enable

text \<open>How one poll goes on: an \<^verbatim>\<open>expect\<close> that fails is a panic of the worker.\<close>

datatype ('q, 'e) negotiation_step =
    Neg_Continue "'q negotiation_state" "'e stanza option"
  | Neg_Break "'q negotiation_result"
  | Neg_Panic

definition negotiation_new ::
  "bool \<Rightarrow> stream_features \<Rightarrow> 'q sm_state option \<Rightarrow> ustr + 'q negotiation_state" where
  "negotiation_new can_bind features sm_state =
     (if sm_state \<noteq> None \<and> sf_stream_management features then Inr (SendSmRequest sm_state None)
      else if \<not> can_bind then
        Inl (lit ''Peer is not offering the bind feature. Cannot proceed with stream negotiation.'')
      else Inr (SendBindRequest (sf_stream_management features)))"

text \<open>The two states that send: \<open>ready\<close> is the error of a stream that cannot take the request.\<close>

definition negotiation_send ::
  "ustr option \<Rightarrow> ustr option \<Rightarrow> 'q negotiation_state \<Rightarrow> negotiation_request list \<times> ('q, 'e) negotiation_step" where
  "negotiation_send resource ready state =
     (case state of
        SendBindRequest sm_supported \<Rightarrow>
          (case ready of
             Some error \<Rightarrow> ([], Neg_Break (NR_Disconnect None error))
           | None \<Rightarrow> ([Req_Bind resource], Neg_Continue (ReceiveBindResponse sm_supported) None))
      | SendSmRequest sm_state bound_jid \<Rightarrow>
          (case ready of
             Some error \<Rightarrow> ([], Neg_Break (NR_Disconnect sm_state error))
           | None \<Rightarrow>
               ([case Option.bind sm_state resume_info of
                   Some (i, inbound_ctr) \<Rightarrow> Req_Resume inbound_ctr i
                 | None \<Rightarrow> Req_Enable],
                Neg_Continue (ReceiveSmResponse sm_state bound_jid) None))
      | _ \<Rightarrow> ([], Neg_Continue state None))"

fun iq_id :: "'e iq \<Rightarrow> ustr" where
  "iq_id (Iq_Get _ _ i _) = i"
| "iq_id (Iq_Set _ _ i _) = i"
| "iq_id (Iq_Result _ _ i _) = i"
| "iq_id (Iq_Error _ _ i _) = i"

text \<open>Parameters: the parser of \<^verbatim>\<open>BindResponse\<close>, with the text of its error, the debug format of an element, and
  the resource of an address.\<close>

record 'e stream_library =
  sb_bind_response :: "'e \<Rightarrow> ustr + jid"
  sb_debug :: "'e stream_element \<Rightarrow> ustr"
  sb_resource :: "jid \<Rightarrow> ustr option"

definition receive_bind ::
  "'e stream_library \<Rightarrow> bool \<Rightarrow> read_error + 'e stream_element \<Rightarrow> ('q, 'e) negotiation_step" where
  "receive_bind B sm_supported item =
     (case item of
        Inr (El_Stanza (St_Iq iq)) \<Rightarrow>
          if iq_id iq = BIND_REQ_ID then
            (let refuse = (\<lambda>error. Neg_Break (NR_StreamError (SE_UndefinedCondition error)))
             in case iq of
                  Iq_Result _ _ _ (Some payload) \<Rightarrow>
                    (case sb_bind_response B payload of
                       Inl e \<Rightarrow> refuse e
                     | Inr bound_jid \<Rightarrow>
                         if sm_supported then Neg_Continue (SendSmRequest None (Some bound_jid)) None
                         else Neg_Break (NR_StreamReset None bound_jid))
                | Iq_Result _ _ _ None \<Rightarrow> refuse (lit ''Bind response has no payload'')
                | _ \<Rightarrow> refuse (lit ''Unexpected IQ type in response to bind request''))
          else Neg_Continue (ReceiveBindResponse sm_supported) None
      | Inr (El_Stanza _) \<Rightarrow> Neg_Continue (ReceiveBindResponse sm_supported) None
      | Inr (El_Stream_Error error) \<Rightarrow> Neg_Break (NR_Disconnect None error)
      | Inr other \<Rightarrow> Neg_Break (NR_StreamError (SE_UnsupportedStanzaType (lit ''Unsupported stream element during bind: '' @ sb_debug B other)))
      | Inl Re_SoftTimeout \<Rightarrow> Neg_Continue (ReceiveBindResponse sm_supported) None
      | Inl (Re_ParseError e) \<Rightarrow> Neg_Break (NR_StreamError (parse_error_to_stream_error e))
      | Inl (Re_HardError error) \<Rightarrow> Neg_Break (NR_Disconnect None error)
      | Inl Re_StreamFooterReceived \<Rightarrow>
          Neg_Break (NR_Disconnect None (lit ''stream footer received during negotiation'')))"

text \<open>The updates of the \<^verbatim>\<open>StanzaState\<close> behind the token of a stanza; the error of a failure is left out.\<close>

datatype 'q token_update = Token_Sent 'q | Token_Acked 'q | Token_Failed 'q

text \<open>
  The reply to a request for stream management. A panic is the \<^verbatim>\<open>expect\<close> of a bound address that is not there.
\<close>

definition receive_sm ::
  "'e stream_library \<Rightarrow> 'q sm_state option \<Rightarrow> jid option \<Rightarrow> read_error + 'e stream_element \<Rightarrow> 'q transmit_queue
    \<Rightarrow> 'q token_update list \<times> ('q, 'e) negotiation_step \<times> 'q transmit_queue" where
  "receive_sm B sm_state bound_jid item q =
     (let wait = Neg_Continue (ReceiveSmResponse sm_state bound_jid);
          reset = (\<lambda>sm. case bound_jid of None \<Rightarrow> Neg_Panic | Some j \<Rightarrow> Neg_Break (NR_StreamReset sm j))
      in case item of
        Inr (El_Stanza data) \<Rightarrow> ([], wait (Some data), q)
      | Inr (El_Enabled enabled) \<Rightarrow> ([], reset (Some (sm_from_enabled enabled)), q)
      | Inr (El_Resumed h) \<Rightarrow>
          (case sm_state of
             None \<Rightarrow> ([], Neg_Break (NR_Disconnect None
               (lit ''Peer replied to <sm:enable/> request with <sm:resumed/> response'')), q)
           | Some sm \<Rightarrow>
               (case sm_resume h sm of
                  (Inl e, _) \<Rightarrow> ([], Neg_Break (NR_StreamError (sm_stream_error e)), q)
                | (Inr (acked, to_retransmit), sm') \<Rightarrow>
                    (map Token_Acked acked, Neg_Break (NR_StreamResumed sm'), requeue_all to_retransmit q)))
      | Inr (El_Failed h) \<Rightarrow>
          (case sm_state of
             None \<Rightarrow> ([], reset None, q)
           | Some sm \<Rightarrow>
               (case map_option (\<lambda>h. fst (remote_acked h sm)) h of
                  Some (Inr acked) \<Rightarrow> map Token_Acked acked
                | _ \<Rightarrow> [],
                Neg_Continue (SendBindRequest True) None, q))
      | Inr (El_Stream_Error error) \<Rightarrow>
          (map Token_Failed (fst (tq_fail q)), Neg_Break (NR_Disconnect None error), snd (tq_fail q))
      | Inr other \<Rightarrow> ([], Neg_Break (NR_StreamError (SE_UnsupportedStanzaType
          (lit ''Unsupported stream element during negotiation: '' @ sb_debug B other))), q)
      | Inl Re_SoftTimeout \<Rightarrow> ([], wait None, q)
      | Inl (Re_ParseError e) \<Rightarrow> ([], Neg_Break (NR_StreamError (parse_error_to_stream_error e)), q)
      | Inl (Re_HardError error) \<Rightarrow> ([], Neg_Break (NR_Disconnect sm_state error), q)
      | Inl Re_StreamFooterReceived \<Rightarrow>
          ([], Neg_Break (NR_Disconnect sm_state (lit ''stream footer received during negotiation'')), q))"

text \<open>
  A server that refuses to resume a session ends it: what it has not acknowledged is neither queued again nor
  reported, and its tokens keep saying that it was sent. A server that answers the request to resume with
  \<^verbatim>\<open><enabled/>\<close> brings the worker down.
\<close>

lemma refused_resumption:
  "receive_sm B (Some sm) j (Inr (El_Failed None)) q = ([], Neg_Continue (SendBindRequest True) None, q)"
  "receive_sm B (Some sm) None (Inr (El_Enabled enabled)) q = ([], Neg_Panic, q)"
  by (simp_all add: receive_sm_def)

text \<open>
  The two states that receive: first the flush, whose error ends the negotiation, then an item. A stream error also fails
  what is queued in the answer to a bind.
\<close>

definition negotiation_receive ::
  "'e stream_library \<Rightarrow> ustr option \<Rightarrow> 'e stream_read \<Rightarrow> 'q negotiation_state \<Rightarrow> 'q transmit_queue
    \<Rightarrow> 'q token_update list \<times> ('q, 'e) negotiation_step \<times> 'q transmit_queue" where
  "negotiation_receive B flushed r state q =
     (let item = into_read_error (read_item r)
      in case state of
        ReceiveBindResponse sm_supported \<Rightarrow>
          (case flushed of
             Some error \<Rightarrow> ([], Neg_Break (NR_Disconnect None error), q)
           | None \<Rightarrow>
               (case item of
                  Inr (El_Stream_Error _) \<Rightarrow>
                    (map Token_Failed (fst (tq_fail q)), receive_bind B sm_supported item, snd (tq_fail q))
                | _ \<Rightarrow> ([], receive_bind B sm_supported item, q)))
      | ReceiveSmResponse sm_state bound_jid \<Rightarrow>
          (case flushed of
             Some error \<Rightarrow> ([], Neg_Break (NR_Disconnect sm_state error), q)
           | None \<Rightarrow> receive_sm B sm_state bound_jid item q)
      | _ \<Rightarrow> ([], Neg_Continue state None, q))"

section \<open>The established stream\<close>

text \<open>
  \<^verbatim>\<open>ConnectedState\<close> up to a shutdown by choice, without its deadlines and without the I/O error of a
  failure, which \<^verbatim>\<open>WorkerStream::disconnect\<close> ignores.
\<close>

datatype 'q connected_state =
    CS_Negotiating "'q negotiation_state"
  | CS_Ready "'q sm_state option"
  | CS_SendStreamError stream_error
  | CS_Failed "'q sm_state option"
  | CS_RemoteShutdown "'q sm_state option"

datatype 'e worker_event =
    WE_Reset jid stream_features
  | WE_Resumed
  | WE_Stanza "'e stanza"
  | WE_ParseError parse_failure
  | WE_SoftTimeout

datatype ('q, 'e) connected_event =
    CE_Worker "'e worker_event"
  | CE_RemoteShutdown "'q sm_state option"
  | CE_Disconnect "'q sm_state option"

text \<open>What a step of a negotiation makes of the connection; \<^const>\<open>None\<close> is a panic.\<close>

definition after_negotiation ::
  "stream_features \<Rightarrow> ('q, 'e) negotiation_step \<Rightarrow> ('q connected_state \<times> ('q, 'e) connected_event option) option" where
  "after_negotiation features r =
     (case r of
        Neg_Panic \<Rightarrow> None
      | Neg_Continue state stanza \<Rightarrow> Some (CS_Negotiating state, map_option (\<lambda>st. CE_Worker (WE_Stanza st)) stanza)
      | Neg_Break (NR_Disconnect sm_state error) \<Rightarrow> Some (CS_Failed sm_state, None)
      | Neg_Break (NR_StreamReset sm_state bound_jid) \<Rightarrow>
          Some (CS_Ready sm_state, Some (CE_Worker (WE_Reset bound_jid features)))
      | Neg_Break (NR_StreamResumed sm_state) \<Rightarrow> Some (CS_Ready (Some sm_state), Some (CE_Worker WE_Resumed))
      | Neg_Break (NR_StreamError error) \<Rightarrow> Some (CS_SendStreamError error, None))"

text \<open>
  One round of the loop that transmits what is queued: \<open>failure\<close> is the text of a serialisation error. The
  outer \<^const>\<open>None\<close> is the panic of a full queue of unacknowledged stanzas, the inner one an
  empty or closed queue.
\<close>

definition transmit_next ::
  "ustr option \<Rightarrow> 'q sm_state option \<Rightarrow> 'q transmit_queue
    \<Rightarrow> ('q token_update \<times> 'q sm_state option \<times> 'q transmit_queue) option option" where
  "transmit_next failure sm_state q =
     (case tq_poll_next q of
        (Poll_Ready (Some v), q') \<Rightarrow>
          (case failure of
             Some _ \<Rightarrow> Some (Some (Token_Failed v, sm_state, tq_take q'))
           | None \<Rightarrow>
               (case sm_state of
                  None \<Rightarrow> Some (Some (Token_Sent v, None, tq_take q'))
                | Some sm \<Rightarrow> map_option (\<lambda>sm'. Some (Token_Sent v, Some sm', tq_take q')) (sm_enqueue v sm)))
      | _ \<Rightarrow> Some None)"

text \<open>
  Before and after the stanzas, a pending request for an acknowledgement is written (always, if any stanza
  was), and last the answers to the requests of the peer, one for each.
\<close>

definition sm_write_request :: "'q sm_state \<Rightarrow> bool \<times> 'q sm_state" where
  "sm_write_request sm = (sm_pending_req sm, sm\<lparr>sm_pending_req := False\<rparr>)"

definition sm_after_transmit :: "bool \<Rightarrow> 'q sm_state \<Rightarrow> bool \<times> 'q sm_state" where
  "sm_after_transmit transmitted sm = sm_write_request (sm\<lparr>sm_pending_req := transmitted\<rparr>)"

definition sm_write_acks :: "'q sm_state \<Rightarrow> u32 list \<times> 'q sm_state" where
  "sm_write_acks sm = (replicate (sm_pending_acks sm) (sm_inbound_ctr sm), sm\<lparr>sm_pending_acks := 0\<rparr>)"

text \<open>What the established stream reads; the counter of pending answers is a 64-bit \<^verbatim>\<open>usize\<close>, whose overflow panics.\<close>

definition ready_read ::
  "'e stream_library \<Rightarrow> 'q sm_state option \<Rightarrow> 'e stream_read
    \<Rightarrow> ('q token_update list \<times> 'q connected_state \<times> ('q, 'e) connected_event option) option" where
  "ready_read B sm_state r =
     (case read_item r of
        Inr (El_Ok (El_Stanza data)) \<Rightarrow>
          Some ([], CS_Ready (map_option sm_received sm_state), Some (CE_Worker (WE_Stanza data)))
      | Inr (El_Ok (El_Ack h)) \<Rightarrow>
          (case sm_state of
             None \<Rightarrow> Some ([], CS_Ready None, None)
           | Some sm \<Rightarrow>
               (case remote_acked h sm of
                  (Inr acked, sm') \<Rightarrow> Some (map Token_Acked acked, CS_Ready (Some sm'), None)
                | (Inl e, _) \<Rightarrow> Some ([], CS_SendStreamError (sm_stream_error e), None)))
      | Inr (El_Ok El_Request) \<Rightarrow>
          (case sm_state of
             None \<Rightarrow> Some ([], CS_SendStreamError (SE_UnsupportedStanzaType
               (lit ''received <sm:r/>, but stream management is not enabled'')), None)
           | Some sm \<Rightarrow>
               if sm_pending_acks sm + 1 < 2 ^ 64
               then Some ([], CS_Ready (Some (sm\<lparr>sm_pending_acks := sm_pending_acks sm + 1\<rparr>)), None)
               else None)
      | Inr (El_Ok other) \<Rightarrow>
          Some ([], CS_SendStreamError (SE_UnsupportedStanzaType
            (lit ''Unsupported stream element: '' @ sb_debug B other)), None)
      | Inr (El_Bad_Stanza _) \<Rightarrow> Some ([], CS_Ready (map_option sm_received sm_state), None)
      | Inr (El_Bad_Nonza _ e) \<Rightarrow> Some ([], CS_Ready sm_state, Some (CE_Worker (WE_ParseError e)))
      | Inl Re_SoftTimeout \<Rightarrow> Some ([], CS_Ready sm_state, Some (CE_Worker WE_SoftTimeout))
      | Inl (Re_ParseError e) \<Rightarrow> Some ([], CS_Ready sm_state, Some (CE_Worker (WE_ParseError e)))
      | Inl (Re_HardError e) \<Rightarrow> Some ([], CS_Ready None, Some (CE_Disconnect sm_state))
      | Inl Re_StreamFooterReceived \<Rightarrow> Some ([], CS_RemoteShutdown sm_state, None))"

text \<open>The states that only report; the sending of a stream error ends in a failure without a session to resume.\<close>

definition report :: "'q connected_state \<Rightarrow> 'q connected_state \<times> ('q, 'e) connected_event option" where
  "report state =
     (case state of
        CS_Failed sm_state \<Rightarrow> (CS_Failed None, Some (CE_Disconnect sm_state))
      | CS_RemoteShutdown sm_state \<Rightarrow> (CS_RemoteShutdown None, Some (CE_RemoteShutdown sm_state))
      | CS_SendStreamError e \<Rightarrow> (CS_Failed None, None)
      | _ \<Rightarrow> (state, None))"

text \<open>MindChat's patch: the watchdog of the application takes an established session down.\<close>

definition connected_force_disconnect ::
  "'q connected_state \<Rightarrow> 'q connected_state \<times> ('q, 'e) connected_event option" where
  "connected_force_disconnect state =
     (case state of
        CS_Ready sm_state \<Rightarrow>
          (CS_Failed None, Some (CE_Disconnect sm_state))
      | _ \<Rightarrow> (state, None))"

definition connected_send_stream_error :: "stream_error \<Rightarrow> 'q connected_state \<Rightarrow> 'q connected_state" where
  "connected_send_stream_error error state =
     (case state of
        CS_Ready _ \<Rightarrow> CS_SendStreamError error
      | CS_Negotiating _ \<Rightarrow> CS_SendStreamError error
      | _ \<Rightarrow> state)"

definition connected_queue_sm_request :: "'q connected_state \<Rightarrow> bool \<times> 'q connected_state" where
  "connected_queue_sm_request state =
     (case state of
        CS_Ready (Some sm) \<Rightarrow> (True, CS_Ready (Some (sm\<lparr>sm_pending_req := True\<rparr>)))
      | _ \<Rightarrow> (False, state))"

section \<open>The worker of the stream\<close>

text \<open>A connection of the connector: its features, whether they offer to bind, and its address.\<close>

record connection =
  co_features :: stream_features
  co_can_bind :: bool
  co_identity :: jid

datatype 'q worker_stream =
    WS_Connecting "'q sm_state option"
  | WS_Connected "'q connected_state" stream_features jid
  | WS_Terminated

datatype stream_event = Str_Reset jid stream_features | Str_Suspended | Str_Resumed | Str_Fatal xmpp_error

datatype 'e stanza_stream_event = Ev_Stream stream_event | Ev_Received "'e stanza"

text \<open>
  The worker: \<open>ss_running\<close> is false once its loop has ended. What it does with an event of its stream also says
  whether it asks the connector for a new connection.
\<close>

record 'q stanza_stream =
  ss_stream :: "'q worker_stream"
  ss_queue :: "'q transmit_queue"
  ss_ping_probe_ctr :: u64
  ss_running :: bool

definition stream_spawn :: "u64 \<Rightarrow> 'q stanza_stream" where
  "stream_spawn ctr = \<lparr>ss_stream = WS_Connecting None, ss_queue = tq_wrap, ss_ping_probe_ctr = ctr, ss_running = True\<rparr>"

text \<open>\<^verbatim>\<open>disconnect\<close> and the end of a session by the peer, followed by their arm of the loop.\<close>

definition stream_lost ::
  "'q sm_state option \<Rightarrow> 'q stanza_stream \<Rightarrow> 'e stanza_stream_event list \<times> bool \<times> 'q stanza_stream" where
  "stream_lost sm_state ss =
     (let ss' = ss\<lparr>ss_stream := WS_Connecting sm_state\<rparr>
      in if tq_closed (ss_queue ss) then ([Ev_Stream Str_Suspended], False, ss'\<lparr>ss_running := False\<rparr>)
         else ([Ev_Stream Str_Suspended], True, ss'))"

text \<open>The value that arrives in the slot: a connection, the connector's fatal error, or the loss of the sender, a panic.\<close>

definition stream_slot ::
  "(xmpp_error + connection) option \<Rightarrow> 'q stanza_stream \<Rightarrow> ('e stanza_stream_event list \<times> 'q stanza_stream) option" where
  "stream_slot v ss =
     (case ss_stream ss of
        WS_Connecting sm_state \<Rightarrow>
          (case v of
             None \<Rightarrow> None
           | Some (Inl error) \<Rightarrow>
               Some ([Ev_Stream (Str_Fatal error)], ss\<lparr>ss_stream := WS_Terminated, ss_running := False\<rparr>)
           | Some (Inr conn) \<Rightarrow>
               (case negotiation_new (co_can_bind conn) (co_features conn) sm_state of
                  Inl _ \<Rightarrow> None
                | Inr substate \<Rightarrow> Some ([], ss\<lparr>ss_stream :=
                    WS_Connected (CS_Negotiating substate) (co_features conn) (co_identity conn)\<rparr>)))
      | _ \<Rightarrow> Some ([], ss))"

text \<open>
  An event of the connection, which is left in \<open>state\<close>. \<open>ping\<close> makes the probe that is sent where no
  acknowledgement can be asked for.
\<close>

definition stream_connected ::
  "(u64 \<Rightarrow> 'q) \<Rightarrow> 'q connected_state \<Rightarrow> ('q, 'e) connected_event option \<Rightarrow> 'q stanza_stream
    \<Rightarrow> 'e stanza_stream_event list \<times> bool \<times> 'q stanza_stream" where
  "stream_connected ping state event ss =
     (case ss_stream ss of
        WS_Connected _ features identity \<Rightarrow>
          (let kept = ss\<lparr>ss_stream := WS_Connected state features identity\<rparr>
           in case event of
             None \<Rightarrow> ([], False, kept)
           | Some (CE_Disconnect sm_state) \<Rightarrow> stream_lost sm_state kept
           | Some (CE_RemoteShutdown sm_state) \<Rightarrow> stream_lost sm_state kept
           | Some (CE_Worker (WE_Reset bound_jid f)) \<Rightarrow>
               ([Ev_Stream (Str_Reset bound_jid f)], False, ss\<lparr>ss_stream := WS_Connected state features bound_jid\<rparr>)
           | Some (CE_Worker WE_Resumed) \<Rightarrow> ([Ev_Stream Str_Resumed], False, kept)
           | Some (CE_Worker (WE_Stanza stanza)) \<Rightarrow> ([Ev_Received stanza], False, kept)
           | Some (CE_Worker (WE_ParseError e)) \<Rightarrow>
               ([], False, ss\<lparr>ss_stream :=
                  WS_Connected (connected_send_stream_error (parse_error_to_stream_error e) state) features identity\<rparr>)
           | Some (CE_Worker WE_SoftTimeout) \<Rightarrow>
               (case connected_queue_sm_request state of
                  (True, state') \<Rightarrow> ([], False, ss\<lparr>ss_stream := WS_Connected state' features identity\<rparr>)
                | (False, _) \<Rightarrow>
                    (let ctr = ss_ping_probe_ctr ss + 1
                     in ([], False, kept\<lparr>ss_ping_probe_ctr := ctr, ss_queue := tq_enqueue (ping ctr) (ss_queue kept)\<rparr>))))
      | _ \<Rightarrow> ([], False, ss))"

text \<open>MindChat's patch: a request of the application's watchdog.\<close>

definition stream_force_disconnect :: "'q stanza_stream \<Rightarrow> 'e stanza_stream_event list \<times> bool \<times> 'q stanza_stream" where
  "stream_force_disconnect ss =
     (case ss_stream ss of
        WS_Connected state features identity \<Rightarrow>
          (case (connected_force_disconnect state :: 'q connected_state \<times> ('q, 'e) connected_event option) of
             (state', Some (CE_Disconnect sm_state)) \<Rightarrow>
               stream_lost sm_state (ss\<lparr>ss_stream := WS_Connected state' features identity\<rparr>)
           | _ \<Rightarrow> ([], False, ss))
      | _ \<Rightarrow> ([], False, ss))"

section \<open>Polls\<close>

text \<open>
  One poll of the worker, of the part its state selects: the slot, the negotiation, the established stream (a stanza is
  transmitted, a write fails, something is read), a failure that is reported, or the watchdog's request.
\<close>

datatype 'e stream_input =
    In_Slot "(xmpp_error + connection) option"
  | In_Negotiation_Write "ustr option"
  | In_Negotiation_Read "ustr option" "'e stream_read"
  | In_Transmit "ustr option"
  | In_Write_Failed
  | In_Read "'e stream_read"
  | In_Report
  | In_Watchdog

record ('q, 'e) poll_output =
  po_tokens :: "'q token_update list"
  po_requests :: "negotiation_request list"
  po_events :: "'e stanza_stream_event list"
  po_redial :: bool

definition polled ::
  "'q token_update list \<Rightarrow> negotiation_request list \<Rightarrow> 'e stanza_stream_event list \<times> bool \<times> 'q stanza_stream
    \<Rightarrow> (('q, 'e) poll_output \<times> 'q stanza_stream) option" where
  "polled tokens requests r =
     (case r of (events, redial, ss) \<Rightarrow>
        Some (\<lparr>po_tokens = tokens, po_requests = requests, po_events = events, po_redial = redial\<rparr>, ss))"

definition stream_poll ::
  "'e stream_library \<Rightarrow> (u64 \<Rightarrow> 'q) \<Rightarrow> 'e stream_input \<Rightarrow> 'q stanza_stream
    \<Rightarrow> (('q, 'e) poll_output \<times> 'q stanza_stream) option" where
  "stream_poll B ping input ss =
     (case (input, ss_stream ss) of
        (In_Slot v, WS_Connecting _) \<Rightarrow>
          Option.bind (stream_slot v ss) (\<lambda>(events, ss'). polled [] [] (events, False, ss'))
      | (In_Negotiation_Write ready, WS_Connected (CS_Negotiating state) features identity) \<Rightarrow>
          (let (requests, r) = negotiation_send (sb_resource B identity) ready state
           in Option.bind (after_negotiation features r)
                (\<lambda>(state', event). polled [] requests (stream_connected ping state' event ss)))
      | (In_Negotiation_Read flushed r, WS_Connected (CS_Negotiating state) features _) \<Rightarrow>
          (let (tokens, r, q) = negotiation_receive B flushed r state (ss_queue ss)
           in Option.bind (after_negotiation features r)
                (\<lambda>(state', event). polled tokens [] (stream_connected ping state' event (ss\<lparr>ss_queue := q\<rparr>))))
      | (In_Transmit failure, WS_Connected (CS_Ready sm_state) _ _) \<Rightarrow>
          Option.bind (transmit_next failure sm_state (ss_queue ss))
            (\<lambda>r. case r of
                None \<Rightarrow> polled [] [] ([], False, ss)
              | Some (token, sm_state', q) \<Rightarrow>
                  polled [token] [] (stream_connected ping (CS_Ready sm_state') None (ss\<lparr>ss_queue := q\<rparr>)))
      | (In_Write_Failed, WS_Connected (CS_Ready sm_state) _ _) \<Rightarrow>
          polled [] [] (stream_connected ping (CS_Failed sm_state) None ss)
      | (In_Read r, WS_Connected (CS_Ready sm_state) _ _) \<Rightarrow>
          Option.bind (ready_read B sm_state r)
            (\<lambda>(tokens, state', event). polled tokens [] (stream_connected ping state' event ss))
      | (In_Report, WS_Connected state _ _) \<Rightarrow>
          (let (state', event) = report state in polled [] [] (stream_connected ping state' event ss))
      | (In_Watchdog, _) \<Rightarrow> polled [] [] (stream_force_disconnect ss)
      | _ \<Rightarrow> polled [] [] ([], False, ss))"

end
