(* ===== verification/Client_Delivery.thy ===== *)
theory Client_Delivery
  imports Client_Stream
begin

text \<open>
  What stream management promises, over whole runs of the stanza stream: as long as the peer resumes the session,
  it handles every stanza exactly once and in order, whatever connections are lost, and a stanza counts as
  acknowledged only if the peer has handled it.
\<close>

section \<open>The session of a stream\<close>

text \<open>The stream management state a stream holds, wherever it is.\<close>

fun session_of_negotiation :: "'q negotiation_state \<Rightarrow> 'q sm_state option" where
  "session_of_negotiation (SendSmRequest sm _) = sm"
| "session_of_negotiation (ReceiveSmResponse sm _) = sm"
| "session_of_negotiation _ = None"

fun session_of_connected :: "'q connected_state \<Rightarrow> 'q sm_state option" where
  "session_of_connected (CS_Negotiating state) = session_of_negotiation state"
| "session_of_connected (CS_Ready sm) = sm"
| "session_of_connected (CS_SendStreamError _) = None"
| "session_of_connected (CS_Failed sm) = sm"
| "session_of_connected (CS_RemoteShutdown sm) = sm"

fun session_of_stream :: "'q worker_stream \<Rightarrow> 'q sm_state option" where
  "session_of_stream (WS_Connecting sm) = sm"
| "session_of_stream (WS_Connected state _ _) = session_of_connected state"
| "session_of_stream WS_Terminated = None"

text \<open>A negotiation that tries to resume has bound no address.\<close>

fun unbound :: "'q worker_stream \<Rightarrow> bool" where
  "unbound (WS_Connected (CS_Negotiating (SendSmRequest sm j)) _ _) = (sm = None \<or> j = None)"
| "unbound (WS_Connected (CS_Negotiating (ReceiveSmResponse sm j)) _ _) = (sm = None \<or> j = None)"
| "unbound _ = True"

section \<open>Runs with a peer\<close>

text \<open>
  A stream with what happens around it: the stanzas that were handed in since the session was
  enabled, those the peer has handled, those that are on their way to it or lost with their connection, and those
  whose tokens say that they are acknowledged.
\<close>

record 'q delivery =
  de_stream :: "'q stanza_stream"
  de_submitted :: "'q list"
  de_handled :: "'q list"
  de_flight :: "'q list"
  de_acked :: "'q list"

text \<open>
  The peer tells the truth: an acknowledgement counts stanzas it has handled and no fewer than before, the answer to
  a resumption all of them, modulo \<open>2 ^ 32\<close>. A stanza that cannot be serialised is not considered.
\<close>

fun truthful_input :: "'q delivery \<Rightarrow> 'e stream_input \<Rightarrow> bool" where
  "truthful_input d (In_Read (Some (Inr (El_Ok (El_Ack h)))))
     = (\<exists>m. h = of_nat m \<and> length (de_acked d) \<le> m \<and> m \<le> length (de_handled d))"
| "truthful_input d (In_Negotiation_Read _ (Some (Inr (El_Ok (El_Resumed h))))) = (h = of_nat (length (de_handled d)))"
| "truthful_input d (In_Transmit failure) = (failure = None)"
| "truthful_input d _ = True"

definition sent_tokens :: "'q token_update list \<Rightarrow> 'q list" where
  "sent_tokens us = List.map_filter (\<lambda>u. case u of Token_Sent v \<Rightarrow> Some v | _ \<Rightarrow> None) us"

definition acked_tokens :: "'q token_update list \<Rightarrow> 'q list" where
  "acked_tokens us = List.map_filter (\<lambda>u. case u of Token_Acked v \<Rightarrow> Some v | _ \<Rightarrow> None) us"

text \<open>After a resumption, what the peer has not handled is no longer on its way: its connection is gone.\<close>

definition after_poll :: "('q, 'e) poll_output \<Rightarrow> 'q stanza_stream \<Rightarrow> 'q delivery \<Rightarrow> 'q delivery" where
  "after_poll out ss d =
     d\<lparr>de_stream := ss,
       de_flight := (if Ev_Stream Str_Resumed \<in> set (po_events out) then [] else de_flight d @ sent_tokens (po_tokens out)),
       de_acked := de_acked d @ acked_tokens (po_tokens out)\<rparr>"

text \<open>A session begins in an established stream, when the peer has enabled it.\<close>

definition session_enabled :: "sm_enabled \<Rightarrow> 'q stanza_stream \<Rightarrow> bool" where
  "session_enabled enabled ss \<longleftrightarrow> (\<exists>f i. ss_stream ss = WS_Connected (CS_Ready (Some (sm_from_enabled enabled))) f i)"

definition delivery_start :: "'q stanza_stream \<Rightarrow> 'q delivery" where
  "delivery_start ss = \<lparr>de_stream = ss, de_submitted = tq_content (ss_queue ss), de_handled = [], de_flight = [], de_acked = []\<rparr>"

definition submit :: "'q \<Rightarrow> 'q delivery \<Rightarrow> 'q delivery" where
  "submit x d =
     (let ss = de_stream d; q = ss_queue ss
      in d\<lparr>de_stream := ss\<lparr>ss_queue := q\<lparr>tq_inner := tq_inner q @ [x]\<rparr>\<rparr>, de_submitted := de_submitted d @ [x]\<rparr>)"

text \<open>
  The runs in which the session lives on: a stanza is handed in, the peer handles the next stanza that reaches it, or
  the worker polls.
\<close>

inductive delivery_run :: "'e stream_library \<Rightarrow> (u64 \<Rightarrow> 'q) \<Rightarrow> 'q delivery \<Rightarrow> 'q delivery \<Rightarrow> bool"
  for B ping d0 where
  de_start: "delivery_run B ping d0 d0"
| de_submit: "delivery_run B ping d0 d \<Longrightarrow> delivery_run B ping d0 (submit x d)"
| de_handle: "delivery_run B ping d0 d \<Longrightarrow> de_flight d = x # rest
    \<Longrightarrow> delivery_run B ping d0 (d\<lparr>de_handled := de_handled d @ [x], de_flight := rest\<rparr>)"
| de_poll: "delivery_run B ping d0 d \<Longrightarrow> truthful_input d input
    \<Longrightarrow> stream_poll B ping input (de_stream d) = Some (out, ss) \<Longrightarrow> session_of_stream (ss_stream ss) \<noteq> None
    \<Longrightarrow> delivery_run B ping d0 (after_poll out ss d)"

definition delivery_ok :: "'q delivery \<Rightarrow> 'q sm_state \<Rightarrow> bool" where
  "delivery_ok d sm \<longleftrightarrow>
     counts (length (de_acked d)) sm
   \<and> de_acked d @ sm_unacked sm = de_handled d @ de_flight d
   \<and> length (de_acked d) \<le> length (de_handled d)
   \<and> de_submitted d = de_handled d @ de_flight d @ tq_content (ss_queue (de_stream d))
   \<and> unbound (ss_stream (de_stream d))"

section \<open>What a poll does to the session\<close>

text \<open>A poll that neither sends nor hears of a count leaves the stanzas as they are.\<close>

definition same_stanzas :: "'q stanza_stream \<Rightarrow> 'q sm_state \<Rightarrow> ('q, 'e) poll_output \<Rightarrow> 'q stanza_stream \<Rightarrow> 'q sm_state \<Rightarrow> bool" where
  "same_stanzas ss sm out ss' sm' \<longleftrightarrow>
     sm_unacked sm' = sm_unacked sm \<and> sm_outbound_base sm' = sm_outbound_base sm
   \<and> tq_content (ss_queue ss') = tq_content (ss_queue ss)
   \<and> sent_tokens (po_tokens out) = [] \<and> acked_tokens (po_tokens out) = [] \<and> Ev_Stream Str_Resumed \<notin> set (po_events out)"

lemma token_simps [simp]:
  "sent_tokens [] = []" "acked_tokens [] = []"
  "sent_tokens (map Token_Acked vs) = []" "acked_tokens (map Token_Acked vs) = vs"
  "sent_tokens [Token_Sent v] = [v]" "acked_tokens [Token_Sent v] = []"
  "sent_tokens [Token_Acked v] = []" "acked_tokens [Token_Acked v] = [v]"
  by (simp_all add: sent_tokens_def acked_tokens_def List.map_filter_def comp_def)

lemma polled_eq [simp]:
  "polled tokens requests (events, redial, ss) = Some (out, ss') \<longleftrightarrow>
     out = \<lparr>po_tokens = tokens, po_requests = requests, po_events = events, po_redial = redial\<rparr> \<and> ss' = ss"
  by (auto simp: polled_def)

lemma stream_lost_eq:
  "stream_lost sm ss = ([Ev_Stream Str_Suspended], \<not> tq_closed (ss_queue ss),
     ss\<lparr>ss_stream := WS_Connecting sm, ss_running := (if tq_closed (ss_queue ss) then False else ss_running ss)\<rparr>)"
  by (simp add: stream_lost_def Let_def)

lemma slot_keeps:
  assumes "stream_poll B ping (In_Slot v) ss = Some (out, ss')"
    "session_of_stream (ss_stream ss) = Some sm" "session_of_stream (ss_stream ss') = Some sm'"
  shows "same_stanzas ss sm out ss' sm'"
  using assms
  by (auto simp: stream_poll_def stream_slot_def same_stanzas_def negotiation_new_def
      split: worker_stream.splits option.splits sum.splits if_splits)

lemma negotiation_write_keeps:
  assumes "stream_poll B ping (In_Negotiation_Write ready) ss = Some (out, ss')"
    "session_of_stream (ss_stream ss) = Some sm" "session_of_stream (ss_stream ss') = Some sm'"
  shows "same_stanzas ss sm out ss' sm'"
  using assms
  by (auto simp: stream_poll_def negotiation_send_def after_negotiation_def stream_connected_def Let_def same_stanzas_def
      split: worker_stream.splits connected_state.splits negotiation_state.splits option.splits prod.splits)

lemma write_failed_keeps:
  assumes "stream_poll B ping In_Write_Failed ss = Some (out, ss')"
    "session_of_stream (ss_stream ss) = Some sm" "session_of_stream (ss_stream ss') = Some sm'"
  shows "same_stanzas ss sm out ss' sm'"
  using assms
  by (auto simp: stream_poll_def stream_connected_def Let_def same_stanzas_def
      split: worker_stream.splits connected_state.splits)

lemma report_keeps:
  assumes "stream_poll B ping In_Report ss = Some (out, ss')"
    "session_of_stream (ss_stream ss) = Some sm" "session_of_stream (ss_stream ss') = Some sm'"
  shows "same_stanzas ss sm out ss' sm'"
  using assms
  by (auto simp: stream_poll_def report_def stream_connected_def stream_lost_eq Let_def same_stanzas_def
      split: worker_stream.splits connected_state.splits)

lemma watchdog_keeps:
  assumes "stream_poll B ping In_Watchdog ss = Some (out, ss')"
    "session_of_stream (ss_stream ss) = Some sm" "session_of_stream (ss_stream ss') = Some sm'"
  shows "same_stanzas ss sm out ss' sm'"
  using assms
  by (auto simp: stream_poll_def stream_force_disconnect_def connected_force_disconnect_def stream_lost_eq same_stanzas_def
      split: worker_stream.splits connected_state.splits)

text \<open>The session that an event of a connection, or else its state, hands on.\<close>

fun carried :: "'q connected_state \<Rightarrow> ('q, 'e) connected_event option \<Rightarrow> 'q sm_state option" where
  "carried state (Some (CE_Disconnect sm)) = sm"
| "carried state (Some (CE_RemoteShutdown sm)) = sm"
| "carried state _ = session_of_connected state"

lemma connected_carries:
  assumes "ss_stream ss = WS_Connected c f i" "stream_connected ping state event ss = (events, redial, ss')"
    "session_of_stream (ss_stream ss') = Some sm'"
    "event = Some (CE_Worker WE_SoftTimeout) \<Longrightarrow> \<exists>sm. state = CS_Ready sm"
  shows "\<exists>sm. carried state event = Some sm \<and> sm_unacked sm' = sm_unacked sm
    \<and> sm_outbound_base sm' = sm_outbound_base sm \<and> tq_content (ss_queue ss') = tq_content (ss_queue ss)
    \<and> (event \<noteq> Some (CE_Worker WE_SoftTimeout) \<longrightarrow> sm' = sm)
    \<and> (Ev_Stream Str_Resumed \<in> set events \<longleftrightarrow> event = Some (CE_Worker WE_Resumed))"
proof (cases event)
  case None
  then show ?thesis using assms by (auto simp: stream_connected_def Let_def)
next
  case (Some ev)
  show ?thesis
  proof (cases ev)
    case (CE_Worker w)
    then show ?thesis
      using assms Some
      by (cases w) (auto simp: stream_connected_def connected_send_stream_error_def connected_queue_sm_request_def Let_def
          split: connected_state.splits option.splits)
  qed (use assms Some in \<open>auto simp: stream_connected_def stream_lost_eq Let_def\<close>)
qed

text \<open>An established stream transmits the next stanza, or there is none.\<close>

lemma transmit_next_effect:
  assumes "transmit_next None (Some sm) q = Some r"
  shows "r = None \<or> (\<exists>v sm' q'. r = Some (Token_Sent v, Some sm', q') \<and> tq_content q = v # tq_content q'
    \<and> sm_enqueue v sm = Some sm')"
  using assms by (cases q rule: tq_poll_cases) (auto simp: transmit_next_def)

lemma transmit_effect:
  assumes poll: "stream_poll B ping (In_Transmit None) ss = Some (out, ss')"
    and session: "session_of_stream (ss_stream ss) = Some sm" "session_of_stream (ss_stream ss') = Some sm'"
  shows "same_stanzas ss sm out ss' sm'
    \<or> (\<exists>v. tq_content (ss_queue ss) = v # tq_content (ss_queue ss') \<and> po_tokens out = [Token_Sent v]
         \<and> po_events out = [] \<and> sm_enqueue v sm = Some sm')"
proof (cases "\<exists>f i. ss_stream ss = WS_Connected (CS_Ready (Some sm)) f i")
  case False
  then show ?thesis
    using assms by (auto simp: stream_poll_def same_stanzas_def split: worker_stream.splits connected_state.splits)
next
  case True
  then obtain f i where up: "ss_stream ss = WS_Connected (CS_Ready (Some sm)) f i" by blast
  then obtain r where r: "transmit_next None (Some sm) (ss_queue ss) = Some r"
    using poll by (auto simp: stream_poll_def bind_eq_Some_conv)
  then show ?thesis
    using transmit_next_effect [OF r] poll session up
    by (auto simp: stream_poll_def stream_connected_def same_stanzas_def)
qed

text \<open>An established stream reads a count, or something that leaves the stanzas alone.\<close>

lemma ready_read_effect:
  assumes "ready_read B (Some sm) r = Some (tokens, state, event)"
  shows "(\<exists>h acked sm'. r = Some (Inr (El_Ok (El_Ack h))) \<and> remote_acked h sm = (Inr acked, sm')
      \<and> tokens = map Token_Acked acked \<and> state = CS_Ready (Some sm') \<and> event = None)
    \<or> tokens = [] \<and> event \<noteq> Some (CE_Worker WE_Resumed) \<and> (event = Some (CE_Worker WE_SoftTimeout) \<longrightarrow> (\<exists>sm. state = CS_Ready sm))
      \<and> (\<forall>sm'. carried state event = Some sm' \<longrightarrow> sm_unacked sm' = sm_unacked sm \<and> sm_outbound_base sm' = sm_outbound_base sm)"
proof (cases "read_item r")
  case (Inl e)
  then show ?thesis
    using assms by (cases e) (auto simp: ready_read_def)
next
  case (Inr el)
  show ?thesis
  proof (cases el)
    case (El_Ok v)
    then show ?thesis
      using assms Inr
      by (cases v) (auto simp: ready_read_def read_item_def sm_received_def split: prod.splits sum.splits if_splits option.splits)
  qed (use assms Inr in \<open>auto simp: ready_read_def sm_received_def\<close>)
qed

lemma read_effect:
  assumes poll: "stream_poll B ping (In_Read r) ss = Some (out, ss')"
    and session: "session_of_stream (ss_stream ss) = Some sm" "session_of_stream (ss_stream ss') = Some sm'"
  shows "same_stanzas ss sm out ss' sm'
    \<or> (\<exists>h acked. r = Some (Inr (El_Ok (El_Ack h))) \<and> remote_acked h sm = (Inr acked, sm')
         \<and> po_tokens out = map Token_Acked acked \<and> po_events out = [] \<and> ss_queue ss' = ss_queue ss)"
proof (cases "\<exists>f i. ss_stream ss = WS_Connected (CS_Ready (Some sm)) f i")
  case False
  then show ?thesis
    using assms by (auto simp: stream_poll_def same_stanzas_def split: worker_stream.splits connected_state.splits)
next
  case True
  then obtain f i where up: "ss_stream ss = WS_Connected (CS_Ready (Some sm)) f i" by blast
  then obtain tokens state event where read: "ready_read B (Some sm) r = Some (tokens, state, event)"
    using poll by (auto simp: stream_poll_def bind_eq_Some_conv)
  obtain events redial ss2 where conn: "stream_connected ping state event ss = (events, redial, ss2)"
    by (metis prod_cases3)
  have out: "po_tokens out = tokens" "po_events out = events" "ss' = ss2"
    using poll up read conn by (auto simp: stream_poll_def)
  from ready_read_effect [OF read] show ?thesis
  proof (elim disjE exE conjE)
    fix h acked sm2
    assume "r = Some (Inr (El_Ok (El_Ack h)))" "remote_acked h sm = (Inr acked, sm2)"
      "tokens = map Token_Acked acked" "state = CS_Ready (Some sm2)" "event = None"
    then show ?thesis
      using conn up session out by (auto simp: stream_connected_def)
  next
    assume "tokens = []" "event \<noteq> Some (CE_Worker WE_Resumed)"
      and ready: "event = Some (CE_Worker WE_SoftTimeout) \<longrightarrow> (\<exists>sm. state = CS_Ready sm)"
      and same: "\<forall>sm'. carried state event = Some sm' \<longrightarrow> sm_unacked sm' = sm_unacked sm \<and> sm_outbound_base sm' = sm_outbound_base sm"
    moreover have "session_of_stream (ss_stream ss2) = Some sm'"
      using session(2) out by simp
    from connected_carries [OF up conn this] ready obtain sm2 where "carried state event = Some sm2"
      "sm_unacked sm' = sm_unacked sm2" "sm_outbound_base sm' = sm_outbound_base sm2"
      "tq_content (ss_queue ss2) = tq_content (ss_queue ss)"
      "Ev_Stream Str_Resumed \<in> set events \<longleftrightarrow> event = Some (CE_Worker WE_Resumed)"
      by blast
    ultimately show ?thesis
      using out by (simp add: same_stanzas_def)
  qed
qed

text \<open>A negotiation hears that the session is resumed, or leaves the stanzas alone.\<close>

lemma receive_sm_effect:
  assumes "receive_sm B (Some sm) j item q = (tokens, r, q')" "after_negotiation features r = Some (state, event)"
  shows "(\<exists>h acked again sm'. item = Inr (El_Resumed h) \<and> sm_resume h sm = (Inr (acked, again), sm')
      \<and> tokens = map Token_Acked acked \<and> state = CS_Ready (Some sm') \<and> event = Some (CE_Worker WE_Resumed)
      \<and> q' = requeue_all again q)
    \<or> event \<noteq> Some (CE_Worker WE_Resumed) \<and> event \<noteq> Some (CE_Worker WE_SoftTimeout)
      \<and> (\<forall>sm'. carried state event = Some sm' \<longrightarrow> tokens = [] \<and> q' = q \<and> sm' = sm \<or> j \<noteq> None)"
proof (cases item)
  case (Inl e)
  then show ?thesis
    using assms by (cases e) (auto simp: receive_sm_def after_negotiation_def)
next
  case (Inr v)
  then show ?thesis
    using assms
    by (cases v) (auto simp: receive_sm_def after_negotiation_def split: prod.splits sum.splits option.splits)
qed

lemma negotiation_read_effect:
  assumes poll: "stream_poll B ping (In_Negotiation_Read flushed r) ss = Some (out, ss')"
    and session: "session_of_stream (ss_stream ss) = Some sm" "session_of_stream (ss_stream ss') = Some sm'"
    and free: "unbound (ss_stream ss)"
  shows "same_stanzas ss sm out ss' sm'
    \<or> (\<exists>h acked again. r = Some (Inr (El_Ok (El_Resumed h))) \<and> sm_resume h sm = (Inr (acked, again), sm')
         \<and> po_tokens out = map Token_Acked acked \<and> Ev_Stream Str_Resumed \<in> set (po_events out)
         \<and> tq_content (ss_queue ss') = again @ tq_content (ss_queue ss))"
proof (cases "\<exists>j f i. ss_stream ss = WS_Connected (CS_Negotiating (ReceiveSmResponse (Some sm) j)) f i \<and> flushed = None")
  case False
  then show ?thesis
    using assms
    by (auto simp: stream_poll_def same_stanzas_def negotiation_receive_def after_negotiation_def stream_connected_def Let_def
        split: worker_stream.splits connected_state.splits negotiation_state.splits option.splits)
next
  case True
  then obtain f i where up: "ss_stream ss = WS_Connected (CS_Negotiating (ReceiveSmResponse (Some sm) None)) f i"
    and flushed: "flushed = None"
    using free by auto
  let ?item = "into_read_error (read_item r)"
  obtain tokens step q where receive: "receive_sm B (Some sm) None ?item (ss_queue ss) = (tokens, step, q)"
    by (metis prod_cases3)
  then obtain state event where after: "after_negotiation f step = Some (state, event)"
    using poll up flushed by (auto simp: stream_poll_def negotiation_receive_def bind_eq_Some_conv)
  obtain events redial ss2 where conn: "stream_connected ping state event (ss\<lparr>ss_queue := q\<rparr>) = (events, redial, ss2)"
    by (metis prod_cases3)
  have out: "po_tokens out = tokens" "po_events out = events" "ss' = ss2"
    using poll up flushed receive after conn by (auto simp: stream_poll_def negotiation_receive_def)
  have up': "ss_stream (ss\<lparr>ss_queue := q\<rparr>) = WS_Connected (CS_Negotiating (ReceiveSmResponse (Some sm) None)) f i"
    using up by simp
  have resumed: "r = Some (Inr (El_Ok (El_Resumed h)))" if "?item = Inr (El_Resumed h)" for h
    using that by (auto simp: into_read_error_def read_item_def split: option.splits sum.splits fallible_element.splits)
  from receive_sm_effect [OF receive after] show ?thesis
  proof (elim disjE exE conjE)
    fix h acked again sm2
    assume "?item = Inr (El_Resumed h)" "sm_resume h sm = (Inr (acked, again), sm2)" "tokens = map Token_Acked acked"
      "state = CS_Ready (Some sm2)" "event = Some (CE_Worker WE_Resumed)" "q = requeue_all again (ss_queue ss)"
    then show ?thesis
      using connected_carries [OF up' conn] session(2) out resumed by force
  next
    assume "event \<noteq> Some (CE_Worker WE_Resumed)" "event \<noteq> Some (CE_Worker WE_SoftTimeout)"
      "\<forall>sm'. carried state event = Some sm' \<longrightarrow> tokens = [] \<and> q = ss_queue ss \<and> sm' = sm \<or> None \<noteq> None"
    then show ?thesis
      using connected_carries [OF up' conn] session(2) out by (force simp: same_stanzas_def)
  qed
qed

text \<open>A resumption is only tried without a bound address, whatever is polled.\<close>

lemma connected_unbound:
  assumes "stream_connected ping state event ss = (events, redial, ss')" "ss_stream ss = WS_Connected c f i"
    "\<And>f i. unbound (WS_Connected state f i)"
  shows "unbound (ss_stream ss')"
  using assms
  by (auto simp: stream_connected_def stream_lost_eq connected_send_stream_error_def connected_queue_sm_request_def Let_def
      split: option.splits connected_event.splits worker_event.splits connected_state.splits)

lemma ready_read_unbound:
  assumes "ready_read B sm r = Some (tokens, state, event)"
  shows "unbound (WS_Connected state f i)"
  using assms
  by (auto simp: ready_read_def
      split: option.splits sum.splits fallible_element.splits stream_element.splits read_error.splits prod.splits if_splits)

lemma receive_bind_unbound:
  "after_negotiation features (receive_bind B sm_supported item) = Some (state, event) \<Longrightarrow> unbound (WS_Connected state f i)"
  by (auto simp: receive_bind_def after_negotiation_def Let_def
      split: sum.splits stream_element.splits stanza.splits iq.splits option.splits read_error.splits if_splits)

lemma negotiation_receive_unbound:
  assumes "negotiation_receive B flushed r neg q = (tokens, step, q')" "after_negotiation features step = Some (state, event)"
    "unbound (WS_Connected (CS_Negotiating neg) f i)"
  shows "unbound (WS_Connected state f i)"
proof (cases neg)
  case (ReceiveSmResponse sm j)
  then show ?thesis
    using assms
    by (cases sm; cases "into_read_error (read_item r)")
      (auto simp: negotiation_receive_def receive_sm_def after_negotiation_def Let_def
        split: option.splits stream_element.splits read_error.splits prod.splits sum.splits)
next
  case (ReceiveBindResponse sm_supported)
  then show ?thesis
    using assms receive_bind_unbound [of features B sm_supported "into_read_error (read_item r)" state event f i]
    by (auto simp: negotiation_receive_def after_negotiation_def Let_def
        split: option.splits sum.splits stream_element.splits)
qed (use assms in \<open>auto simp: negotiation_receive_def after_negotiation_def Let_def\<close>)

lemma unbound_poll:
  fixes B :: "'e stream_library" and ss :: "'q stanza_stream"
  assumes "stream_poll B ping input ss = Some (out, ss')" "unbound (ss_stream ss)"
  shows "unbound (ss_stream ss')"
proof (cases "ss_stream ss")
  case (WS_Connecting sm)
  then show ?thesis
    using assms by (cases input) (auto simp: stream_poll_def stream_slot_def negotiation_new_def stream_force_disconnect_def
        bind_eq_Some_conv split: option.splits sum.splits if_splits)
next
  case (WS_Connected state f i)
  have event: "unbound (ss_stream ss')"
    if "stream_connected ping state' event (ss\<lparr>ss_queue := q\<rparr>) = (events, redial, ss')"
      "\<And>f i. unbound (WS_Connected state' f i)" for state' event q events redial
    using connected_unbound [OF that(1) _ that(2)] WS_Connected by simp
  have up: "unbound (WS_Connected state f i)" for f i
    using assms(2) WS_Connected by (cases state) (auto elim!: unbound.elims)
  show ?thesis
  proof (cases input)
    case (In_Negotiation_Write ready)
    show ?thesis
    proof (cases state)
      case (CS_Negotiating neg)
      obtain requests and step :: "('q, 'e) negotiation_step"
        where send: "negotiation_send (sb_resource B i) ready neg = (requests, step)"
        by force
      then obtain state' event where after: "after_negotiation f step = Some (state', event)"
        using assms(1) WS_Connected CS_Negotiating In_Negotiation_Write by (auto simp: stream_poll_def bind_eq_Some_conv)
      have "unbound (WS_Connected state' f i)" for f i
        using send after up CS_Negotiating
        by (auto simp: negotiation_send_def after_negotiation_def split: negotiation_state.splits option.splits)
      then show ?thesis
        using event [of state' event "ss_queue ss"] send after assms(1) WS_Connected CS_Negotiating In_Negotiation_Write
        by (cases "stream_connected ping state' event ss") (auto simp: stream_poll_def)
    qed (use assms WS_Connected In_Negotiation_Write in \<open>auto simp: stream_poll_def\<close>)
  next
    case (In_Negotiation_Read flushed r)
    show ?thesis
    proof (cases state)
      case (CS_Negotiating neg)
      obtain tokens step q where receive: "negotiation_receive B flushed r neg (ss_queue ss) = (tokens, step, q)"
        by (metis prod_cases3)
      then obtain state' event where after: "after_negotiation f step = Some (state', event)"
        using assms(1) WS_Connected CS_Negotiating In_Negotiation_Read by (auto simp: stream_poll_def bind_eq_Some_conv)
      have "unbound (WS_Connected state' f i)" for f i
        using negotiation_receive_unbound [OF receive after] up CS_Negotiating by simp
      then show ?thesis
        using event [of state' event q] receive after assms(1) WS_Connected CS_Negotiating In_Negotiation_Read
        by (cases "stream_connected ping state' event (ss\<lparr>ss_queue := q\<rparr>)") (auto simp: stream_poll_def)
    qed (use assms WS_Connected In_Negotiation_Read in \<open>auto simp: stream_poll_def\<close>)
  next
    case (In_Read r)
    show ?thesis
    proof (cases state)
      case (CS_Ready sm)
      then obtain tokens state' event where read: "ready_read B sm r = Some (tokens, state', event)"
        using assms(1) WS_Connected In_Read by (auto simp: stream_poll_def bind_eq_Some_conv)
      then show ?thesis
        using event [of state' event "ss_queue ss"] ready_read_unbound [OF read] assms(1) WS_Connected CS_Ready In_Read
        by (cases "stream_connected ping state' event ss") (auto simp: stream_poll_def)
    qed (use assms WS_Connected In_Read in \<open>auto simp: stream_poll_def\<close>)
  next
    case (In_Transmit failure)
    then show ?thesis
      using assms WS_Connected
      by (auto simp: stream_poll_def stream_connected_def bind_eq_Some_conv split: connected_state.splits option.splits prod.splits)
  qed (use assms WS_Connected in \<open>auto simp: stream_poll_def stream_connected_def report_def stream_lost_eq
      stream_force_disconnect_def connected_force_disconnect_def split: connected_state.splits\<close>)
next
  case WS_Terminated
  then show ?thesis
    using assms by (cases input) (auto simp: stream_poll_def stream_force_disconnect_def)
qed

section \<open>The runs\<close>

lemma delivery_kept:
  assumes "delivery_ok d sm" "same_stanzas (de_stream d) sm out ss sm'" "unbound (ss_stream ss)"
  shows "delivery_ok (after_poll out ss d) sm'"
  using assms by (simp add: delivery_ok_def same_stanzas_def after_poll_def counts_def)

lemma delivery_transmitted:
  assumes "delivery_ok d sm" "unbound (ss_stream ss)" "sm_enqueue v sm = Some sm'"
    "tq_content (ss_queue (de_stream d)) = v # tq_content (ss_queue ss)" "po_tokens out = [Token_Sent v]" "po_events out = []"
  shows "delivery_ok (after_poll out ss d) sm'"
  using assms by (auto simp: delivery_ok_def after_poll_def counts_def sm_enqueue_def MAX_QUEUE_SIZE_def split: if_splits)

text \<open>What an acknowledgement of \<open>m\<close> handled stanzas leaves.\<close>

lemma delivery_acked:
  assumes ok: "delivery_ok d sm" and m: "length (de_acked d) \<le> m" "m \<le> length (de_handled d)"
  obtains sm' where
    "remote_acked (of_nat m) sm = (Inr (take (m - length (de_acked d)) (sm_unacked sm)), sm')"
    "de_acked d @ take (m - length (de_acked d)) (sm_unacked sm) = take m (de_handled d)"
    "counts m sm'" "take m (de_handled d) @ sm_unacked sm' = de_handled d @ de_flight d"
proof -
  let ?n = "length (de_acked d)"
  have split: "de_acked d @ sm_unacked sm = de_handled d @ de_flight d" and counts: "counts ?n sm"
    using ok by (simp_all add: delivery_ok_def)
  then have "?n + length (sm_unacked sm) = length (de_handled d) + length (de_flight d)"
    by (metis length_append)
  then have le: "m \<le> ?n + length (sm_unacked sm)"
    using m(2) by simp
  have taken: "de_acked d @ take (m - ?n) (sm_unacked sm) = take m (de_handled d)"
    using arg_cong [OF split, of "take m"] m by simp
  moreover have "take m (de_handled d) @ drop (m - ?n) (sm_unacked sm) = de_handled d @ de_flight d"
    by (metis append.assoc append_take_drop_id split taken)
  moreover have "length (drop (m - ?n) (sm_unacked sm)) \<le> MAX_QUEUE_SIZE"
    using counts by (auto simp: counts_def)
  ultimately show thesis
    using that remote_acked_truthful [OF counts m(1) le] by (simp add: counts_def)
qed

lemma delivery_ack:
  assumes ok: "delivery_ok d sm" and m: "length (de_acked d) \<le> m" "m \<le> length (de_handled d)"
    and ack: "remote_acked (of_nat m) sm = (Inr acked, sm')" "po_tokens out = map Token_Acked acked" "po_events out = []"
    and "ss_queue ss = ss_queue (de_stream d)" "unbound (ss_stream ss)"
  shows "delivery_ok (after_poll out ss d) sm'"
proof -
  from delivery_acked [OF ok m] ack(1) have
    "de_acked d @ acked = take m (de_handled d)" "counts m sm'"
    "take m (de_handled d) @ sm_unacked sm' = de_handled d @ de_flight d"
    by auto
  then show ?thesis
    using ok m(2) ack(2,3) assms(7,8) by (simp add: delivery_ok_def after_poll_def)
qed

lemma delivery_resumed:
  assumes ok: "delivery_ok d sm"
    and ack: "sm_resume (of_nat (length (de_handled d))) sm = (Inr (acked, again), sm')"
      "po_tokens out = map Token_Acked acked" "Ev_Stream Str_Resumed \<in> set (po_events out)"
    and queue: "tq_content (ss_queue ss) = again @ tq_content (ss_queue (de_stream d))" "unbound (ss_stream ss)"
  shows "delivery_ok (after_poll out ss d) sm'"
proof -
  have "length (de_acked d) \<le> length (de_handled d)"
    using ok by (simp add: delivery_ok_def)
  from delivery_acked [OF ok this order.refl] obtain sm2 where sm2:
    "remote_acked (of_nat (length (de_handled d))) sm
      = (Inr (take (length (de_handled d) - length (de_acked d)) (sm_unacked sm)), sm2)"
    "de_acked d @ take (length (de_handled d) - length (de_acked d)) (sm_unacked sm) = de_handled d"
    "counts (length (de_handled d)) sm2" "sm_unacked sm2 = de_flight d"
    by auto
  have "acked = take (length (de_handled d) - length (de_acked d)) (sm_unacked sm)" "again = de_flight d"
    "sm' = sm2\<lparr>sm_unacked := []\<rparr>"
    using ack(1) sm2(1,4) by (simp_all add: sm_resume_def)
  then show ?thesis
    using ok ack(2,3) queue sm2(2,3) by (simp add: delivery_ok_def after_poll_def counts_def)
qed

lemma delivery_run_ok:
  assumes "delivery_run B ping (delivery_start ss0) d" "session_enabled enabled ss0"
  shows "\<exists>sm. session_of_stream (ss_stream (de_stream d)) = Some sm \<and> delivery_ok d sm"
  using assms
proof (induction rule: delivery_run.induct)
  case de_start
  then show ?case
    by (auto simp: session_enabled_def delivery_start_def delivery_ok_def counts_def sm_from_enabled_def)
next
  case (de_submit d x)
  then show ?case
    by (auto simp: submit_def Let_def delivery_ok_def tq_content_def)
next
  case (de_handle d x rest)
  then show ?case
    by (auto simp: delivery_ok_def)
next
  case (de_poll d input out ss)
  then obtain sm sm' where session: "session_of_stream (ss_stream (de_stream d)) = Some sm"
      "session_of_stream (ss_stream ss) = Some sm'" and ok: "delivery_ok d sm"
    by auto
  then have bound: "unbound (ss_stream (de_stream d))"
    by (simp add: delivery_ok_def)
  note free = unbound_poll [OF de_poll.hyps(3) this]
  have kept: "delivery_ok (after_poll out ss d) sm'" if "same_stanzas (de_stream d) sm out ss sm'"
    using delivery_kept [OF ok that free] .
  have "delivery_ok (after_poll out ss d) sm'"
  proof (cases input)
    case (In_Transmit failure)
    then have "stream_poll B ping (In_Transmit None) (de_stream d) = Some (out, ss)"
      using de_poll.hyps(2,3) by simp
    then show ?thesis
      using transmit_effect [OF _ session] kept delivery_transmitted [OF ok free] by blast
  next
    case (In_Read r)
    then show ?thesis
      using read_effect [OF de_poll.hyps(3) [unfolded In_Read] session] kept delivery_ack [OF ok _ _ _ _ _ _ free]
        de_poll.hyps(2) by auto
  next
    case (In_Negotiation_Read flushed r)
    from negotiation_read_effect [OF de_poll.hyps(3) [unfolded this] session bound] show ?thesis
    proof (elim disjE exE conjE)
      fix h acked again
      assume r: "r = Some (Inr (El_Ok (El_Resumed h)))" and resume: "sm_resume h sm = (Inr (acked, again), sm')"
        and effect: "po_tokens out = map Token_Acked acked" "Ev_Stream Str_Resumed \<in> set (po_events out)"
          "tq_content (ss_queue ss) = again @ tq_content (ss_queue (de_stream d))"
      have "h = of_nat (length (de_handled d))"
        using de_poll.hyps(2) In_Negotiation_Read r by simp
      with resume show ?thesis
        using delivery_resumed [OF ok _ effect free] by simp
    qed (fact kept)
  qed (use de_poll.hyps(3) session kept slot_keeps negotiation_write_keeps write_failed_keeps report_keeps watchdog_keeps
      in \<open>metis\<close>)+
  then show ?case
    using session(2) by (auto simp: after_poll_def)
qed

text \<open>C28: Resuming a session delivers exactly once. In every run of the stream with a truthful peer in
  which the session lives on, over any number of lost connections and reconnects and also where the counters of
  stream management have wrapped around, the stanzas handed in are, in order and without loss or repetition,
  those the peer has handled, those on their way or lost with their connection, and those still queued. The
  stanzas reported as acknowledged are among the first the peer has handled; a true count of the peer is never
  taken for an error, and it acknowledges just what it counts; at a resumption exactly the stanzas the peer has
  not handled are queued again. \<close>

theorem resumption_exactly_once:
  assumes "session_enabled enabled ss0" "delivery_run B ping (delivery_start ss0) d"
  shows "de_submitted d = de_handled d @ de_flight d @ tq_content (ss_queue (de_stream d))
    \<and> take (length (de_acked d)) (de_handled d) = de_acked d
    \<and> (\<exists>sm. session_of_stream (ss_stream (de_stream d)) = Some sm
        \<and> (\<forall>m. length (de_acked d) \<le> m \<and> m \<le> length (de_handled d) \<longrightarrow>
             fst (remote_acked (of_nat m) sm) = Inr (drop (length (de_acked d)) (take m (de_handled d))))
        \<and> fst (sm_resume (of_nat (length (de_handled d))) sm)
             = Inr (drop (length (de_acked d)) (de_handled d), de_flight d))"
proof -
  obtain sm where sm: "session_of_stream (ss_stream (de_stream d)) = Some sm" and ok: "delivery_ok d sm"
    using delivery_run_ok [OF assms(2,1)] by blast
  have le: "length (de_acked d) \<le> length (de_handled d)"
    and split: "de_acked d @ sm_unacked sm = de_handled d @ de_flight d"
    and submitted: "de_submitted d = de_handled d @ de_flight d @ tq_content (ss_queue (de_stream d))"
    using ok by (simp_all add: delivery_ok_def)
  have acked: "take (length (de_acked d)) (de_handled d) = de_acked d"
    using arg_cong [OF split, of "take (length (de_acked d))"] le by simp
  have count: "\<exists>sm'. remote_acked (of_nat m) sm = (Inr (drop (length (de_acked d)) (take m (de_handled d))), sm')
      \<and> take m (de_handled d) @ sm_unacked sm' = de_handled d @ de_flight d"
    if "length (de_acked d) \<le> m" "m \<le> length (de_handled d)" for m
    using delivery_acked [OF ok that] by (metis append_eq_conv_conj)
  have "fst (sm_resume (of_nat (length (de_handled d))) sm) = Inr (drop (length (de_acked d)) (de_handled d), de_flight d)"
    using count [OF le order.refl] by (auto simp: sm_resume_def)
  then show ?thesis
    using submitted acked sm count by (metis fst_conv)
qed

text \<open>
  Two of three stanzas are sent and one of them is handled when the watchdog breaks the connection; the next connection
  resumes the session.\<close>

definition demo_library :: "unit stream_library" where
  "demo_library = \<lparr>sb_bind_response = (\<lambda>_. Inl []), sb_debug = (\<lambda>_. []), sb_resource = (\<lambda>_. None)\<rparr>"

definition demo_enabled :: sm_enabled where
  "demo_enabled = \<lparr>en_resume = True, en_id = Some ''s1'', en_location = None\<rparr>"

definition demo_features :: stream_features where
  "demo_features = \<lparr>sf_stream_management = True, sf_in_band_registration = False\<rparr>"

definition demo_connection :: connection where
  "demo_connection = \<lparr>co_features = demo_features, co_can_bind = True, co_identity = []\<rparr>"

definition demo_session :: "nat list \<Rightarrow> nat stanza_stream" where
  "demo_session queued = \<lparr>ss_stream = WS_Connected (CS_Ready (Some (sm_from_enabled demo_enabled))) demo_features [],
     ss_queue = tq_wrap\<lparr>tq_inner := queued\<rparr>, ss_ping_probe_ctr = 0, ss_running = True\<rparr>"

definition demo_inputs :: "unit stream_input list" where
  "demo_inputs = [In_Watchdog, In_Slot (Some (Inr demo_connection)), In_Negotiation_Write None,
     In_Negotiation_Read None (Some (Inr (El_Ok (El_Resumed 1))))]"

fun polls :: "'e stream_library \<Rightarrow> (u64 \<Rightarrow> 'q) \<Rightarrow> 'e stream_input list \<Rightarrow> 'q delivery \<Rightarrow> 'q delivery option" where
  "polls B ping [] d = Some d"
| "polls B ping (input # inputs) d =
     (case stream_poll B ping input (de_stream d) of
        None \<Rightarrow> None
      | Some (out, ss) \<Rightarrow>
          if truthful_input d input \<and> session_of_stream (ss_stream ss) \<noteq> None
          then polls B ping inputs (after_poll out ss d) else None)"

lemma polls_run: "polls B ping inputs d = Some d' \<Longrightarrow> delivery_run B ping d0 d \<Longrightarrow> delivery_run B ping d0 d'"
proof (induction inputs arbitrary: d)
  case (Cons input inputs)
  from Cons.prems(1) obtain out ss where poll: "truthful_input d input"
    "stream_poll B ping input (de_stream d) = Some (out, ss)" "session_of_stream (ss_stream ss) \<noteq> None"
    "polls B ping inputs (after_poll out ss d) = Some d'"
    by (auto split: option.splits if_splits)
  then show ?case
    using Cons.IH de_poll [OF Cons.prems(2) poll(1-3)] by blast
qed simp

lemmas poll_defs = stream_poll_def transmit_next_def tq_poll_next_def tq_take_def sm_enqueue_def MAX_QUEUE_SIZE_def
  stream_connected_def stream_force_disconnect_def connected_force_disconnect_def stream_lost_def stream_slot_def
  negotiation_new_def negotiation_send_def after_negotiation_def negotiation_receive_def receive_sm_def
  into_read_error_def read_item_def sm_resume_def remote_acked_def requeue_all_eq after_poll_def polled_def
  sm_from_enabled_def Let_def

lemma demo_delivery:
  obtains d where "delivery_run demo_library unat (delivery_start (demo_session [10, 20, 30])) d"
    "de_handled d = [10]" "de_flight d = []" "de_acked d = [10]" "tq_content (ss_queue (de_stream d)) = [20, 30]"
proof -
  let ?start = "delivery_start (demo_session [10, 20, 30])"
  obtain d1 where d1: "polls demo_library unat [In_Transmit None, In_Transmit None] ?start = Some d1" "de_flight d1 = [10, 20]"
    by (simp add: poll_defs delivery_start_def demo_session_def demo_enabled_def tq_wrap_def)
  let ?d2 = "d1\<lparr>de_handled := de_handled d1 @ [10], de_flight := [20]\<rparr>"
  have d2: "delivery_run demo_library unat ?start ?d2"
    using polls_run [OF d1(1) de_start] d1(2) by (intro de_handle) simp_all
  obtain d3 where "polls demo_library unat demo_inputs ?d2 = Some d3"
    "de_handled d3 = [10]" "de_flight d3 = []" "de_acked d3 = [10]" "tq_content (ss_queue (de_stream d3)) = [20, 30]"
    using d1 by (auto simp: poll_defs delivery_start_def demo_session_def demo_enabled_def tq_wrap_def demo_inputs_def
        demo_connection_def demo_features_def demo_library_def resume_info_def tq_content_def)
  then show thesis
    using that polls_run [OF _ d2] by blast
qed

theorem resumption_exactly_once_witness:
  "\<exists>d. delivery_run demo_library unat (delivery_start (demo_session [10, 20, 30])) d \<and> de_acked d = [10]
    \<and> de_submitted d = [10, 20, 30]"
proof -
  have "session_enabled demo_enabled (demo_session [10, 20, 30])"
    by (simp add: session_enabled_def demo_session_def)
  then show ?thesis
    using demo_delivery resumption_exactly_once by (metis append_Cons append_Nil)
qed

end
