(* ===== verification/Client_Backoff.thy ===== *)
theory Client_Backoff
  imports Xmpp_Stanza
begin

unbundle bit_operations_syntax

text \<open>
  How the client of a worker dials again after a lost connection: the jittered backoff with its
  retry budget (\<^verbatim>\<open>stanzastream/backoff.rs\<close>) and the reconnector of \<^verbatim>\<open>StanzaStream::new_c2s\<close>
  (\<^verbatim>\<open>stanzastream/mod.rs\<close>), both patches of MindChat on the vendored \<^verbatim>\<open>tokio-xmpp\<close>.
  A \<^verbatim>\<open>Duration\<close> is a number of milliseconds: every duration in this code is a whole number of them.
\<close>

section \<open>The generator\<close>

record split_mix64 = sx_state :: u64

definition next_u64 :: "split_mix64 \<Rightarrow> u64 \<times> split_mix64" where
  "next_u64 rng =
     (let state = sx_state rng + 0x9E3779B97F4A7C15;
          z1 = (state XOR drop_bit 30 state) * 0xBF58476D1CE4E5B9;
          z2 = (z1 XOR drop_bit 27 z1) * 0x94D049BB133111EB
      in (z2 XOR drop_bit 31 z2, rng\<lparr>sx_state := state\<rparr>))"

definition next_below :: "u64 \<Rightarrow> split_mix64 \<Rightarrow> u64 \<times> split_mix64" where
  "next_below bound rng = (let (v, rng') = next_u64 rng in (v mod bound, rng'))"

lemma next_below_less: "0 < bound \<Longrightarrow> fst (next_below bound rng) < bound"
  by (simp add: next_below_def word_mod_less_divisor split_beta)

section \<open>The backoff\<close>

definition INITIAL_BACKOFF_BASE :: nat where "INITIAL_BACKOFF_BASE = 1000"
definition MAX_BACKOFF_BASE :: nat where "MAX_BACKOFF_BASE = 30000"
definition RECONNECT_BUDGET :: nat where "RECONNECT_BUDGET = 300000"

record backoff =
  bo_base :: nat
  bo_budget :: nat
  bo_rng :: split_mix64

definition backoff_new :: "u64 \<Rightarrow> nat \<Rightarrow> backoff" where
  "backoff_new seed budget = \<lparr>bo_base = INITIAL_BACKOFF_BASE, bo_budget = budget, bo_rng = \<lparr>sx_state = seed\<rparr>\<rparr>"

definition new_with_default_budget :: "u64 \<Rightarrow> backoff" where
  "new_with_default_budget seed = backoff_new seed RECONNECT_BUDGET"

definition next_sleep :: "backoff \<Rightarrow> nat option \<times> backoff" where
  "next_sleep b =
     (let half = bo_base b div 2;
          (jitter, rng) = (if half = 0 then (0, bo_rng b)
             else let (v, rng) = next_below (of_nat half + 1) (bo_rng b) in (unat v, rng));
          sleep = half + jitter
      in if bo_budget b < sleep then (None, b\<lparr>bo_rng := rng\<rparr>)
         else (Some sleep,
           let doubled = bo_base b * 2
           in b\<lparr>bo_base := if MAX_BACKOFF_BASE < doubled then MAX_BACKOFF_BASE else doubled,
                bo_budget := bo_budget b - sleep, bo_rng := rng\<rparr>))"

text \<open>The base of the \<open>i\<close>th sleep of a cycle.\<close>

definition base_at :: "nat \<Rightarrow> nat" where
  "base_at i = min MAX_BACKOFF_BASE (INITIAL_BACKOFF_BASE * 2 ^ i)"

lemmas backoff_constants = INITIAL_BACKOFF_BASE_def MAX_BACKOFF_BASE_def RECONNECT_BUDGET_def

lemma base_at_0 [simp]: "base_at 0 = INITIAL_BACKOFF_BASE"
  by (simp add: base_at_def backoff_constants)

lemma base_at_Suc: "base_at (Suc i) = min MAX_BACKOFF_BASE (base_at i * 2)"
  by (auto simp: base_at_def backoff_constants min_def)

lemma base_at_le: "base_at i \<le> MAX_BACKOFF_BASE"
  by (simp add: base_at_def)

lemma base_at_ge: "INITIAL_BACKOFF_BASE \<le> base_at i"
  by (simp add: base_at_def backoff_constants)

text \<open>Every base is an even number of milliseconds, so the halves are exact.\<close>

lemma base_at_even: "even (base_at i)"
  by (induction i) (auto simp: base_at_Suc backoff_constants min_def)

lemma next_sleep_cases:
  assumes "bo_base b = base_at i"
  obtains (exhausted) rng where "next_sleep b = (None, b\<lparr>bo_rng := rng\<rparr>)" "bo_budget b < base_at i"
  | (sleeps) d rng where
      "next_sleep b = (Some d, \<lparr>bo_base = base_at (Suc i), bo_budget = bo_budget b - d, bo_rng = rng\<rparr>)"
      "base_at i div 2 \<le> d" "d \<le> base_at i" "d \<le> bo_budget b"
proof -
  let ?half = "base_at i div 2"
  obtain v rng where v: "next_below (of_nat ?half + 1) (bo_rng b) = (v, rng)" by force
  have half: "0 < ?half" "?half \<le> 15000"
    using base_at_ge [of i] base_at_le [of i] by (simp_all add: backoff_constants)
  then have bound: "unat (of_nat ?half + 1 :: u64) = ?half + 1"
    by (simp add: unat_word_ariths unat_of_nat)
  then have "(0 :: u64) < of_nat ?half + 1"
    by (simp add: word_less_nat_alt)
  then have "unat v \<le> ?half"
    using next_below_less [of "of_nat ?half + 1" "bo_rng b"] bound v by (simp add: word_less_nat_alt)
  moreover have "base_at i = ?half + ?half"
    using base_at_even [of i] by presburger
  moreover have step: "next_sleep b =
      (if bo_budget b < ?half + unat v then (None, b\<lparr>bo_rng := rng\<rparr>)
       else (Some (?half + unat v),
         \<lparr>bo_base = base_at (Suc i), bo_budget = bo_budget b - (?half + unat v), bo_rng = rng\<rparr>))"
    using assms half v by (simp add: next_sleep_def Let_def base_at_Suc min_def)
  ultimately show thesis
    by (cases "bo_budget b < ?half + unat v") (auto intro: exhausted sleeps)
qed

text \<open>
  A refused sleep uses up a random number all the same, so the generator can offer a sleep again after
  it has said that the budget is exhausted.
\<close>

lemma exhausted_not_final:
  "let b = backoff_new 47 600; (first, b') = next_sleep b; (second, _) = next_sleep b'
   in first = None \<and> second = Some 556"
  by (simp add: next_sleep_def next_below_def next_u64_def backoff_new_def backoff_constants)

section \<open>The reconnector\<close>

text \<open>
  What a cycle meets, by the number of the attempt: whether the stream worker has dropped its end of
  the slot before the attempt starts, how the attempt ends (\<^verbatim>\<open>client_auth\<close>), and whether the
  worker has dropped its end by the time the outcome is sent.
\<close>

record 'c dialing =
  dl_closed :: "nat \<Rightarrow> bool"
  dl_auth :: "nat \<Rightarrow> xmpp_error + 'c"
  dl_dropped :: "nat \<Rightarrow> bool"

text \<open>A cycle ends without a word, with a value in the slot, or with a connection it has to close again.\<close>

datatype 'c cycle_end = Slot_Abandoned | Slot_Filled "xmpp_error + 'c" | Slot_Refused xmpp_error | Stream_Closed 'c

definition send_slot :: "'c dialing \<Rightarrow> nat \<Rightarrow> xmpp_error + 'c \<Rightarrow> 'c cycle_end" where
  "send_slot env k v =
     (if \<not> dl_dropped env k then Slot_Filled v
      else case v of Inl e \<Rightarrow> Slot_Refused e | Inr conn \<Rightarrow> Stream_Closed conn)"

fun is_auth_variant :: "xmpp_error \<Rightarrow> bool" where
  "is_auth_variant (XE_Auth _) = True"
| "is_auth_variant _ = False"

text \<open>
  The loop of the reconnector from attempt \<open>k\<close> on: how it ends and the sleeps it made. It is a loop
  that need not end, so a cycle that never ends would be \<^const>\<open>None\<close>.
\<close>

partial_function (option) reconnect_loop ::
  "'c dialing \<Rightarrow> nat \<Rightarrow> backoff \<Rightarrow> ('c cycle_end \<times> nat list) option" where
  "reconnect_loop env k b =
     (if dl_closed env k then Some (Slot_Abandoned, [])
      else case dl_auth env k of
        Inr conn \<Rightarrow> Some (send_slot env k (Inr conn), [])
      | Inl e \<Rightarrow>
          if is_auth_variant e then Some (send_slot env k (Inl e), [])
          else case next_sleep b of
            (None, _) \<Rightarrow> Some (send_slot env k (Inl XE_ReconnectBudgetExhausted), [])
          | (Some delay, b') \<Rightarrow>
              Option.bind (reconnect_loop env (Suc k) b') (\<lambda>(r, delays). Some (r, delay # delays)))"

definition reconnect_cycle :: "'c dialing \<Rightarrow> u64 \<Rightarrow> ('c cycle_end \<times> nat list) option" where
  "reconnect_cycle env seed = reconnect_loop env 0 (new_with_default_budget seed)"

text \<open>How attempt \<open>k\<close> may end a cycle: \<open>left\<close> is the budget that is left for the sleep after it.\<close>

definition ends_at :: "'c dialing \<Rightarrow> nat \<Rightarrow> nat \<Rightarrow> 'c cycle_end \<Rightarrow> bool" where
  "ends_at env k left r \<longleftrightarrow>
     dl_closed env k \<and> r = Slot_Abandoned
   \<or> \<not> dl_closed env k \<and>
       (case dl_auth env k of
          Inr conn \<Rightarrow> r = send_slot env k (Inr conn)
        | Inl e \<Rightarrow> if is_auth_variant e then r = send_slot env k (Inl e)
            else left < base_at k \<and> r = send_slot env k (Inl XE_ReconnectBudgetExhausted))"

definition retried :: "'c dialing \<Rightarrow> nat \<Rightarrow> bool" where
  "retried env k \<longleftrightarrow> \<not> dl_closed env k \<and> (\<exists>e. dl_auth env k = Inl e \<and> \<not> is_auth_variant e)"

definition jittered :: "nat \<Rightarrow> nat \<Rightarrow> bool" where
  "jittered i d \<longleftrightarrow> base_at i div 2 \<le> d \<and> d \<le> base_at i"

lemma reconnect_loop_ends:
  assumes "bo_base b = base_at k"
  shows "\<exists>r delays. reconnect_loop env k b = Some (r, delays)
    \<and> sum_list delays \<le> bo_budget b
    \<and> (\<forall>i < length delays. retried env (k + i) \<and> jittered (k + i) (delays ! i))
    \<and> ends_at env (k + length delays) (bo_budget b - sum_list delays) r"
  using assms
proof (induction "bo_budget b" arbitrary: k b rule: less_induct)
  case less
  show ?case
  proof (cases "retried env k")
    case False
    then show ?thesis
      by (subst reconnect_loop.simps) (auto simp: retried_def ends_at_def split: sum.splits)
  next
    case True
    then obtain e where e: "\<not> dl_closed env k" "dl_auth env k = Inl e" "\<not> is_auth_variant e"
      by (auto simp: retried_def)
    from less.prems show ?thesis
    proof (cases rule: next_sleep_cases)
      case (exhausted rng)
      then show ?thesis
        using e by (subst reconnect_loop.simps) (auto simp: ends_at_def)
    next
      case (sleeps d rng)
      let ?b = "\<lparr>bo_base = base_at (Suc k), bo_budget = bo_budget b - d, bo_rng = rng\<rparr>"
      have "0 < d"
        using sleeps(2) base_at_ge [of k] by (simp add: backoff_constants)
      then have "bo_budget ?b < bo_budget b"
        using sleeps(4) by simp
      from less.hyps [OF this, of "Suc k"] obtain r delays where
        IH: "reconnect_loop env (Suc k) ?b = Some (r, delays)" "sum_list delays \<le> bo_budget b - d"
          "\<And>i. i < length delays \<Longrightarrow> retried env (Suc k + i) \<and> jittered (Suc k + i) (delays ! i)"
          "ends_at env (Suc k + length delays) (bo_budget b - d - sum_list delays) r"
        by auto
      have "reconnect_loop env k b = Some (r, d # delays)"
        using e sleeps(1) IH(1) by (subst reconnect_loop.simps) simp
      moreover have "retried env (k + i) \<and> jittered (k + i) ((d # delays) ! i)" if "i < length (d # delays)" for i
        using that True sleeps(2,3) IH(3) [of "i - 1"] by (cases i) (auto simp: jittered_def)
      ultimately show ?thesis
        using sleeps(4) IH(2,4) by (intro exI [of _ r] exI [of _ "d # delays"]) auto
    qed
  qed
qed

lemma ends_at_cases:
  assumes "ends_at env k left r" and "left < base_at k \<Longrightarrow> P"
  shows "if dl_closed env k then r = Slot_Abandoned
    else case dl_auth env k of
      Inr conn \<Rightarrow> r = send_slot env k (Inr conn)
    | Inl e \<Rightarrow>
        if is_auth_variant e then r = send_slot env k (Inl e)
        else r = send_slot env k (Inl XE_ReconnectBudgetExhausted) \<and> P"
  using assms by (cases "dl_auth env k") (auto simp: ends_at_def split: if_splits)

text \<open>The only errors a cycle delivers: a rejected sign-in, and the spent budget.\<close>

lemma cycle_error:
  assumes "reconnect_cycle env seed = Some (Slot_Filled (Inl e), delays)"
  shows "e = XE_ReconnectBudgetExhausted \<or> is_auth_variant e"
proof -
  have "bo_base (new_with_default_budget seed) = base_at 0"
    by (simp add: new_with_default_budget_def backoff_new_def)
  from reconnect_loop_ends [OF this, of env] assms obtain left where
    "ends_at env (length delays) left (Slot_Filled (Inl e))"
    by (auto simp: reconnect_cycle_def)
  then show ?thesis
    by (auto simp: ends_at_def send_slot_def split: sum.splits if_splits)
qed

section \<open>The length of a cycle\<close>

lemma sum_list_jittered:
  assumes "\<forall>i < length delays. jittered i (delays ! i)"
  shows "(\<Sum>i < length delays. base_at i div 2) \<le> sum_list delays"
    and "sum_list delays \<le> (\<Sum>i < length delays. base_at i)"
  using assms unfolding jittered_def sum_list_sum_nth atLeast0LessThan by (auto intro!: sum_mono)

lemma base_at_late: "5 \<le> i \<Longrightarrow> base_at i = 30000"
  using power_increasing [of 5 i "2 :: nat"] by (simp add: base_at_def backoff_constants)

lemma base_at_early: "base_at 1 = 2000" "base_at 2 = 4000" "base_at 3 = 8000" "base_at 4 = 16000"
  by (simp_all add: base_at_def backoff_constants)

lemma sum_five: "(\<Sum>i < 5. f i) = f 0 + f 1 + f 2 + f 3 + f (4 :: nat)" for f :: "nat \<Rightarrow> nat"
  by (simp add: eval_nat_numeral)

lemma base_sums:
  "(\<Sum>i < n + 5. base_at i) = 31000 + 30000 * n"
  "(\<Sum>i < n + 5. base_at i div 2) = 15500 + 15000 * n"
proof (induction n)
  case 0
  show "(\<Sum>i < 0 + 5. base_at i) = 31000 + 30000 * 0" "(\<Sum>i < 0 + 5. base_at i div 2) = 15500 + 15000 * 0"
    using base_at_early by (simp_all add: sum_five INITIAL_BACKOFF_BASE_def)
next
  case (Suc n)
  have "Suc n + 5 = Suc (n + 5)"
    by simp
  then show "(\<Sum>i < Suc n + 5. base_at i) = 31000 + 30000 * Suc n"
    "(\<Sum>i < Suc n + 5. base_at i div 2) = 15500 + 15000 * Suc n"
    using Suc base_at_late [of "n + 5"] by (simp_all only: sum.lessThan_Suc) simp_all
qed

text \<open>C29: Reconnecting ends. Whatever the network does, a reconnect cycle returns after at most 24
  attempts: it sleeps between two attempts for a random time between half the base of the
  attempt and the base, which doubles from one second up to thirty, and for five minutes
  altogether at most. It tries again only after an attempt that failed for another reason than a rejected
  sign-in, while the stream worker still waits; it delivers the first connection that succeeds, stops at
  the first rejected sign-in with that error, and gives up for its budget only after more than 270 seconds
  of sleep in at least 13 sleeps.\<close>

theorem reconnect_cycle_ends:
  "\<exists>r delays. reconnect_cycle env seed = Some (r, delays)
    \<and> length delays \<le> 23 \<and> sum_list delays \<le> 300000
    \<and> (\<forall>i < length delays. retried env i \<and> jittered i (delays ! i))
    \<and> (let k = length delays in
       if dl_closed env k then r = Slot_Abandoned
       else case dl_auth env k of
         Inr conn \<Rightarrow> r = send_slot env k (Inr conn)
       | Inl e \<Rightarrow>
           if is_auth_variant e then r = send_slot env k (Inl e)
           else r = send_slot env k (Inl XE_ReconnectBudgetExhausted)
             \<and> 270000 < sum_list delays \<and> 13 \<le> length delays)"
proof -
  let ?b = "new_with_default_budget seed"
  have "bo_base ?b = base_at 0" and budget: "bo_budget ?b = 300000"
    by (simp_all add: new_with_default_budget_def backoff_new_def RECONNECT_BUDGET_def)
  from reconnect_loop_ends [OF this(1), of env] obtain r delays where
    loop: "reconnect_cycle env seed = Some (r, delays)" and total: "sum_list delays \<le> 300000"
    and each: "\<forall>i < length delays. retried env i \<and> jittered i (delays ! i)"
    and final: "ends_at env (length delays) (300000 - sum_list delays) r"
    by (auto simp: reconnect_cycle_def budget)
  have "length delays \<le> 23"
  proof (rule ccontr)
    assume "\<not> length delays \<le> 23"
    then obtain n where "length delays = n + 5" "19 \<le> n"
      using that [of "length delays - 5"] by simp
    then show False
      using sum_list_jittered(1) [of delays] each total base_sums(2) [of n] by simp
  qed
  moreover have "13 \<le> length delays" if "270000 < sum_list delays"
  proof (rule ccontr)
    assume short: "\<not> 13 \<le> length delays"
    have "(\<Sum>i < length delays. base_at i) \<le> (\<Sum>i < 7 + 5. base_at i)"
      using short by (intro sum_mono2) auto
    then show False
      using that sum_list_jittered(2) [of delays] each base_sums(1) [of 7] by simp
  qed
  moreover have "270000 < sum_list delays" if "300000 - sum_list delays < base_at (length delays)"
    using that base_at_le [of "length delays"] by (simp add: MAX_BACKOFF_BASE_def)
  ultimately have "270000 < sum_list delays \<and> 13 \<le> length delays"
    if "300000 - sum_list delays < base_at (length delays)"
    using that by simp
  note ending = ends_at_cases [OF final this]
  show ?thesis
    unfolding Let_def
    by (rule exI [of _ r], rule exI [of _ delays], intro conjI loop each total ending)
      (fact \<open>length delays \<le> 23\<close>)
qed

text \<open>The first attempt loses its connection, the second one succeeds.\<close>

definition demo_outage :: "unit dialing" where
  "demo_outage = \<lparr>dl_closed = (\<lambda>_. False),
     dl_auth = (\<lambda>k. if k = 0 then Inl XE_Disconnected else Inr ()), dl_dropped = (\<lambda>_. False)\<rparr>"

theorem reconnect_cycle_ends_witness:
  "\<exists>delay. reconnect_cycle demo_outage 7 = Some (Slot_Filled (Inr ()), [delay]) \<and> 500 \<le> delay \<and> delay \<le> 1000"
proof -
  have outage: "\<not> dl_closed demo_outage k" "\<not> dl_dropped demo_outage k"
      "dl_auth demo_outage k = (if k = 0 then Inl XE_Disconnected else Inr ())" for k
    by (simp_all add: demo_outage_def)
  from reconnect_cycle_ends [of demo_outage 7] obtain r delays where
    run: "reconnect_cycle demo_outage 7 = Some (r, delays)"
    and each: "\<forall>i < length delays. retried demo_outage i \<and> jittered i (delays ! i)"
    and final: "if delays = [] then 270000 < sum_list delays else r = Slot_Filled (Inr ())"
    by (auto simp: Let_def outage send_slot_def split: if_splits)
  have "i = 0" if "i < length delays" for i
    using each that by (auto simp: retried_def outage split: if_splits)
  from this [of 1] have "length delays = 1"
    using final by (cases delays) auto
  then obtain delay where "delays = [delay]"
    by (auto simp: length_Suc_conv)
  then show ?thesis
    using run each final by (simp add: jittered_def INITIAL_BACKOFF_BASE_def)
qed

end
