(* ===== verification/Client_Events.thy ===== *)
theory Client_Events
  imports Client_Backoff Client_Stream Xmpp_Worker
begin

text \<open>
  From the stanza stream to the worker of an account: the worker of the client that turns stream events into client
  events (\<^verbatim>\<open>client/worker.rs\<close> of the vendored \<^verbatim>\<open>tokio-xmpp\<close>, with MindChat's patches), its tracker of
  IQ responses (\<^verbatim>\<open>client/iq.rs\<close>), and what becomes of an account whose connection is lost.
\<close>

section \<open>The client's worker\<close>

text \<open>The tracker's map from a peer and an identifier to a waiting request, and the account it stands for.\<close>

record iq_tracker =
  it_map :: "(jid option \<times> ustr) set"
  it_account_jid :: "jid option"

definition tracker_new :: iq_tracker where
  "tracker_new = \<lparr>it_map = {}, it_account_jid = None\<rparr>"

text \<open>\<^const>\<open>None\<close> is a response that a request was waiting for; any other IQ goes on, a response with its sender filled in.\<close>

definition tracker_handle_iq :: "'e iq \<Rightarrow> iq_tracker \<Rightarrow> 'e iq option \<times> iq_tracker" where
  "tracker_handle_iq iq tracker =
     (let look = (\<lambda>from i rebuild.
            let key = (if from = None then it_account_jid tracker else from, i)
            in if key \<in> it_map tracker then (None, tracker\<lparr>it_map := it_map tracker - {key}\<rparr>)
               else (Some (rebuild (fst key)), tracker))
      in case iq of
           Iq_Error from to i err \<Rightarrow> look from i (\<lambda>from. Iq_Error from to i err)
         | Iq_Result from to i payload \<Rightarrow> look from i (\<lambda>from. Iq_Result from to i payload)
         | _ \<Rightarrow> (Some iq, tracker))"

record client_worker =
  cw_bound_jid :: "jid option"
  cw_features :: "stream_features option"
  cw_tracker :: iq_tracker

definition client_worker_new :: client_worker where
  "client_worker_new = \<lparr>cw_bound_jid = None, cw_features = None, cw_tracker = tracker_new\<rparr>"

text \<open>
  \<^verbatim>\<open>handle_event\<close>: the outer \<^const>\<open>None\<close> is a panic (an \<^verbatim>\<open>unwrap\<close> of a bound address that is not full, or of
  one that was never bound), the inner one an event that is not passed on. \<open>is_full\<close> says whether an address has a resource.
\<close>

definition client_handle_event ::
  "'e parsers \<Rightarrow> (jid \<Rightarrow> bool) \<Rightarrow> 'e stanza_stream_event \<Rightarrow> client_worker
    \<Rightarrow> ('e client_event option \<times> client_worker) option" where
  "client_handle_event L is_full event cw =
     (case event of
        Ev_Received (St_Iq iq) \<Rightarrow>
          (let (rest, tracker) = tracker_handle_iq iq (cw_tracker cw)
           in Some (map_option (\<lambda>iq. Ev_Stanza (St_Iq iq)) rest, cw\<lparr>cw_tracker := tracker\<rparr>))
      | Ev_Received other \<Rightarrow> Some (Some (Ev_Stanza other), cw)
      | Ev_Stream (Str_Reset bound_jid features) \<Rightarrow>
          if is_full bound_jid
          then Some (Some (Ev_Online bound_jid features False),
            cw\<lparr>cw_bound_jid := Some bound_jid, cw_features := Some features,
               cw_tracker := (cw_tracker cw)\<lparr>it_account_jid := Some (pr_to_bare L bound_jid)\<rparr>\<rparr>)
          else None
      | Ev_Stream Str_Resumed \<Rightarrow>
          (case (cw_bound_jid cw, cw_features cw) of
             (Some bound_jid, Some features) \<Rightarrow> Some (Some (Ev_Online bound_jid features True), cw)
           | _ \<Rightarrow> None)
      | Ev_Stream Str_Suspended \<Rightarrow> Some (Some (Ev_Disconnected (XE_Io (lit ''XMPP connection suspended''))), cw)
      | Ev_Stream (Str_Fatal error) \<Rightarrow> Some (Some (Ev_Disconnected error), cw))"

fun client_handle_events ::
  "'e parsers \<Rightarrow> (jid \<Rightarrow> bool) \<Rightarrow> 'e stanza_stream_event list \<Rightarrow> client_worker
    \<Rightarrow> ('e client_event list \<times> client_worker) option" where
  "client_handle_events L is_full [] cw = Some ([], cw)"
| "client_handle_events L is_full (ev # evs) cw =
     Option.bind (client_handle_event L is_full ev cw) (\<lambda>(out, cw).
     Option.bind (client_handle_events L is_full evs cw) (\<lambda>(outs, cw). Some (List.map_filter id [out] @ outs, cw)))"

text \<open>A stream and its client's worker: what the polls of the stream yield is handled in order.\<close>

definition client_poll ::
  "'e parsers \<Rightarrow> (jid \<Rightarrow> bool) \<Rightarrow> 'e stream_library \<Rightarrow> (u64 \<Rightarrow> 'q) \<Rightarrow> 'e stream_input
    \<Rightarrow> 'q stanza_stream \<times> client_worker \<Rightarrow> ('e client_event list \<times> ('q stanza_stream \<times> client_worker)) option" where
  "client_poll L is_full B ping input s =
     Option.bind (stream_poll B ping input (fst s)) (\<lambda>(out, ss).
     Option.bind (client_handle_events L is_full (po_events out) (snd s)) (\<lambda>(events, cw). Some (events, (ss, cw))))"

section \<open>The end of a lost connection\<close>

text \<open>C32: A lost connection of an account that reconnects is settled. However the reconnect cycle ends
  that was started for it, a value it leaves in the slot is either a new connection or one fatal error: a
  rejected sign-in or the spent retry budget. With a connection the stream starts to negotiate: to resume the
  session if there is one and the server offers stream management, or else to bind anew, without the old
  session. A connection that offers neither a way to resume nor to bind is a panic of the stream's worker. The
  error ends the stream for good, reaches the worker of the account as one
  \<^verbatim>\<open>Disconnected\<close> event with its text and kind, and ends that worker too, with one
  exception: after a temporary failure of the server's sign-in the worker stays, with its session down, for a
  client that will not report anything again.\<close>

theorem lost_link_settles:
  fixes ss :: "'q stanza_stream" and L :: "'e parsers"
  assumes "reconnect_cycle env seed = Some (Slot_Filled v, delays)"
    and "ss_stream ss = WS_Connecting sm"
    and "wk_auto_reconnect w"
  shows "case v of
      Inr conn \<Rightarrow> (stream_slot (Some v) ss :: ('e stanza_stream_event list \<times> 'q stanza_stream) option)
        = (let negotiate = (\<lambda>neg. Some ([],
               ss\<lparr>ss_stream := WS_Connected (CS_Negotiating neg) (co_features conn) (co_identity conn)\<rparr>))
           in if sm \<noteq> None \<and> sf_stream_management (co_features conn) then negotiate (SendSmRequest sm None)
              else if co_can_bind conn then negotiate (SendBindRequest (sf_stream_management (co_features conn)))
              else None)
    | Inl e \<Rightarrow> (e = XE_ReconnectBudgetExhausted \<or> is_auth_variant e)
        \<and> stream_slot (Some v) ss
            = Some ([Ev_Stream (Str_Fatal e) :: 'e stanza_stream_event], ss\<lparr>ss_stream := WS_Terminated, ss_running := False\<rparr>)
        \<and> client_handle_event L is_full (Ev_Stream (Str_Fatal e)) cw = Some (Some (Ev_Disconnected e), cw)
        \<and> (\<exists>outs w' action. handle_client_event L n m (Ev_Disconnected e) w = (outs, w', action)
            \<and> emitted outs = [Disconnected (wk_account_id w) (disconnected_is_recoverable e)
                (Some (xmpp_error_display e)) (classify_disconnect e)]
            \<and> \<not> wk_session_live w'
            \<and> (action = Stop \<longleftrightarrow> e \<noteq> XE_Auth (AE_Fail Sasl_TemporaryAuthFailure)))"
proof (cases v)
  case (Inr conn)
  then show ?thesis
    using assms(2) by (auto simp: stream_slot_def negotiation_new_def Let_def)
next
  case (Inl e)
  have e: "e = XE_ReconnectBudgetExhausted \<or> is_auth_variant e"
    using cycle_error [OF assms(1) [unfolded Inl]] .
  then have "reconnect_decision (Ev_Disconnected e) True = Stop
      \<longleftrightarrow> e \<noteq> XE_Auth (AE_Fail Sasl_TemporaryAuthFailure)"
    by (cases e) (auto simp: reconnect_decision_def disconnected_is_recoverable_def)
  then show ?thesis
    using Inl e assms(2,3) by (simp add: stream_slot_def client_handle_event_def handle_client_event_def)
qed

text \<open>A server that answers the sign-in of the new connection with a temporary failure.\<close>

definition demo_refusal :: "connection dialing" where
  "demo_refusal = \<lparr>dl_closed = (\<lambda>_. False),
     dl_auth = (\<lambda>_. Inl (XE_Auth (AE_Fail Sasl_TemporaryAuthFailure))), dl_dropped = (\<lambda>_. False)\<rparr>"

definition demo_worker :: worker where
  "demo_worker = \<lparr>wk_account_id = 1, wk_auto_reconnect = True, wk_phase = Phase_Running, wk_capabilities = {},
     wk_session_live = False, wk_last_inbound = 0, wk_ping_counter = 0\<rparr>"

theorem lost_link_settles_witness:
  "\<exists>outs w' action. handle_client_event demo_parsers 0 0
       (Ev_Disconnected (XE_Auth (AE_Fail Sasl_TemporaryAuthFailure))) demo_worker = (outs, w', action)
     \<and> action \<noteq> Stop \<and> \<not> wk_session_live w'"
proof -
  let ?e = "XE_Auth (AE_Fail Sasl_TemporaryAuthFailure)"
  have "reconnect_cycle demo_refusal 7 = Some (Slot_Filled (Inl ?e), [])"
    unfolding reconnect_cycle_def by (subst reconnect_loop.simps) (simp add: demo_refusal_def send_slot_def)
  moreover have "ss_stream (stream_spawn 0 :: nat stanza_stream) = WS_Connecting None"
    by (simp add: stream_spawn_def)
  moreover have "wk_auto_reconnect demo_worker"
    by (simp add: demo_worker_def)
  ultimately show ?thesis
    using lost_link_settles [where L = demo_parsers and n = 0 and m = 0 and v = "Inl ?e"] by fastforce
qed

end
