(* ===== verification/Client_Joint.thy ===== *)
theory Client_Joint
  imports Client_Delivery Client_Events
begin

text \<open>
  The joint run of a stream, the worker of its client and the worker of the account: what the stream
  polls is handled by the one and taken by the other. Over such runs no \<^verbatim>\<open>unwrap\<close> of the client's
  worker fails, and an account whose session is live has a stream that transmits and reads, or one whose end
  it is about to hear of.
\<close>

section \<open>What a poll tells\<close>

fun negotiating :: "'q connected_state \<Rightarrow> bool" where
  "negotiating (CS_Negotiating _) = True"
| "negotiating _ = False"

text \<open>
  An established stream transmits and reads (\<^const>\<open>CS_Ready\<close>), or it is ending: it failed, its server has shut it
  down, or a stream error is on its way. An ending stream only has this to report.
\<close>

fun transmitting :: "'q worker_stream \<Rightarrow> bool" where
  "transmitting (WS_Connected (CS_Ready _) _ _) = True"
| "transmitting _ = False"

fun ending :: "'q worker_stream \<Rightarrow> bool" where
  "ending (WS_Connected (CS_SendStreamError _) _ _) = True"
| "ending (WS_Connected (CS_Failed _) _ _) = True"
| "ending (WS_Connected (CS_RemoteShutdown _) _ _) = True"
| "ending _ = False"

fun established :: "'q worker_stream \<Rightarrow> bool" where
  "established (WS_Connected state _ _) = (\<not> negotiating state)"
| "established _ = False"

lemma established_iff: "established ws \<longleftrightarrow> transmitting ws \<or> ending ws"
  by (cases ws rule: ending.cases) auto

text \<open>The addresses that are bound during a negotiation are full.\<close>

fun bound_full :: "(jid \<Rightarrow> bool) \<Rightarrow> 'q worker_stream \<Rightarrow> bool" where
  "bound_full is_full (WS_Connected (CS_Negotiating (SendSmRequest _ (Some j))) _ _) = is_full j"
| "bound_full is_full (WS_Connected (CS_Negotiating (ReceiveSmResponse _ (Some j))) _ _) = is_full j"
| "bound_full is_full _ = True"

definition binds_full :: "(jid \<Rightarrow> bool) \<Rightarrow> 'e stream_library \<Rightarrow> bool" where
  "binds_full is_full B \<longleftrightarrow> (\<forall>payload j. sb_bind_response B payload = Inr j \<longrightarrow> is_full j)"

text \<open>
  A poll yields at most one event. A stream that was established stays so unless the poll says that it is
  suspended or failed; a reset or a resumption says that it is established now, a resumption that there was a session.
\<close>

definition tells ::
  "(jid \<Rightarrow> bool) \<Rightarrow> 'q worker_stream \<Rightarrow> 'e stanza_stream_event list \<Rightarrow> 'q worker_stream \<Rightarrow> bool" where
  "tells is_full ws events ws' \<longleftrightarrow>
     bound_full is_full ws'
   \<and> (case events of
        [] \<Rightarrow> (established ws \<longrightarrow> established ws') \<and> (session_of_stream ws' \<noteq> None \<longrightarrow> session_of_stream ws \<noteq> None)
      | [Ev_Received _] \<Rightarrow>
          (established ws \<longrightarrow> established ws') \<and> (session_of_stream ws' \<noteq> None \<longrightarrow> session_of_stream ws \<noteq> None)
      | [Ev_Stream (Str_Reset j _)] \<Rightarrow> established ws' \<and> is_full j
      | [Ev_Stream Str_Resumed] \<Rightarrow> established ws' \<and> session_of_stream ws \<noteq> None
      | [Ev_Stream _] \<Rightarrow> session_of_stream ws' \<noteq> None \<longrightarrow> session_of_stream ws \<noteq> None
      | _ \<Rightarrow> False)"

lemma tells_same: "bound_full is_full ws \<Longrightarrow> tells is_full ws [] ws"
  by (simp add: tells_def)

lemma tells_connected:
  assumes up: "ss_stream ss = WS_Connected c f i"
    and conn: "stream_connected ping state event ss = (events, redial, ss')"
    and "\<not> negotiating c \<Longrightarrow> \<not> negotiating state" "\<And>f i. bound_full is_full (WS_Connected state f i)"
    and "case event of
        Some (CE_Worker (WE_Reset j _)) \<Rightarrow> is_full j \<and> \<not> negotiating state
      | Some (CE_Worker WE_Resumed) \<Rightarrow> session_of_connected c \<noteq> None \<and> \<not> negotiating state
      | Some (CE_Worker WE_SoftTimeout) \<Rightarrow> (\<exists>sm. state = CS_Ready sm) \<and> (carried state event \<noteq> None \<longrightarrow> session_of_connected c \<noteq> None)
      | _ \<Rightarrow> carried state event \<noteq> None \<longrightarrow> session_of_connected c \<noteq> None"
  shows "tells is_full (WS_Connected c f i) events (ss_stream ss')"
proof (cases event)
  case None
  then show ?thesis
    using assms by (auto simp: stream_connected_def tells_def)
next
  case (Some ev)
  show ?thesis
  proof (cases ev)
    case (CE_Worker w)
    then show ?thesis
      using assms Some
      by (cases w) (auto simp: stream_connected_def connected_send_stream_error_def connected_queue_sm_request_def Let_def
          tells_def split: connected_state.splits option.splits)
  qed (use assms Some in \<open>auto simp: stream_connected_def stream_lost_eq tells_def\<close>)
qed

lemma ready_read_tells:
  assumes "ready_read B sm r = Some (tokens, state, event)"
  shows "\<not> negotiating state"
    and "event \<noteq> Some (CE_Worker (WE_Reset j f))" and "event \<noteq> Some (CE_Worker WE_Resumed)"
    and "event = Some (CE_Worker WE_SoftTimeout) \<Longrightarrow> \<exists>sm. state = CS_Ready sm"
    and "carried state event \<noteq> None \<Longrightarrow> sm \<noteq> None"
  using assms
  by (auto simp: ready_read_def
      split: option.splits sum.splits fallible_element.splits stream_element.splits read_error.splits prod.splits if_splits)

lemma not_negotiating_full: "\<not> negotiating state \<Longrightarrow> bound_full is_full (WS_Connected state f i)"
  by (cases state) auto

text \<open>What a step of a negotiation may be, from the state it starts in.\<close>

definition step_full :: "(jid \<Rightarrow> bool) \<Rightarrow> 'q sm_state option \<Rightarrow> ('q, 'e) negotiation_step \<Rightarrow> bool" where
  "step_full is_full sm step \<longleftrightarrow>
     (case step of
        Neg_Panic \<Rightarrow> True
      | Neg_Continue neg _ \<Rightarrow> (session_of_negotiation neg \<noteq> None \<longrightarrow> sm \<noteq> None)
          \<and> (\<forall>f i. bound_full is_full (WS_Connected (CS_Negotiating neg) f i))
      | Neg_Break (NR_Disconnect sm' _) \<Rightarrow> sm' \<noteq> None \<longrightarrow> sm \<noteq> None
      | Neg_Break (NR_StreamReset _ j) \<Rightarrow> is_full j
      | Neg_Break (NR_StreamResumed _) \<Rightarrow> sm \<noteq> None
      | Neg_Break (NR_StreamError _) \<Rightarrow> True)"

lemma negotiation_tells:
  assumes up: "ss_stream ss = WS_Connected (CS_Negotiating neg) f i"
    and step: "step_full is_full (session_of_negotiation neg) step" "after_negotiation features step = Some (state, event)"
    and conn: "stream_connected ping state event ss = (events, redial, ss')"
  shows "tells is_full (WS_Connected (CS_Negotiating neg) f i) events (ss_stream ss')"
  using step
  by (intro tells_connected [OF up conn])
    (auto simp: step_full_def after_negotiation_def split: negotiation_step.splits negotiation_result.splits option.splits)

lemma send_full:
  assumes "negotiation_send resource ready neg = (requests, step)" "bound_full is_full (WS_Connected (CS_Negotiating neg) f i)"
  shows "step_full is_full (session_of_negotiation neg) step"
proof (cases neg)
  case (SendSmRequest sm j)
  then show ?thesis
    using assms by (cases j) (auto simp: negotiation_send_def step_full_def split: option.splits)
next
  case (ReceiveSmResponse sm j)
  then show ?thesis
    using assms by (cases j) (auto simp: negotiation_send_def step_full_def)
qed (use assms in \<open>auto simp: negotiation_send_def step_full_def split: option.splits\<close>)

lemma receive_bind_full:
  "binds_full is_full B \<Longrightarrow> step_full is_full sm (receive_bind B sm_supported item)"
  by (auto simp: receive_bind_def step_full_def binds_full_def Let_def
      split: sum.splits stream_element.splits stanza.splits iq.splits option.splits read_error.splits)

lemma receive_sm_full:
  assumes "bound_full is_full (WS_Connected (CS_Negotiating (ReceiveSmResponse sm j)) f i)"
    and "receive_sm B sm j item q = (tokens, step, q')"
  shows "step_full is_full sm step"
proof -
  have "j = Some b \<Longrightarrow> is_full b" for b
    using assms(1) by simp
  moreover then have "bound_full is_full (WS_Connected (CS_Negotiating (ReceiveSmResponse sm j)) f i)" for f i
    by (cases j) simp_all
  ultimately show ?thesis
    using assms(2)
    by (auto simp: receive_sm_def step_full_def Let_def
        split: sum.splits stream_element.splits option.splits read_error.splits prod.splits)
qed

lemma receive_full:
  assumes "negotiation_receive B flushed r neg q = (tokens, step, q')" "binds_full is_full B"
    "bound_full is_full (WS_Connected (CS_Negotiating neg) f i)"
  shows "step_full is_full (session_of_negotiation neg) step"
proof (cases neg)
  case (ReceiveSmResponse sm j)
  then show ?thesis
    using assms receive_sm_full [of is_full sm j f i B "into_read_error (read_item r)" q]
    by (auto simp: negotiation_receive_def Let_def step_full_def split: option.splits)
next
  case (ReceiveBindResponse sm_supported)
  then show ?thesis
    using assms receive_bind_full [OF assms(2)]
    by (auto simp: negotiation_receive_def Let_def step_full_def split: option.splits sum.splits stream_element.splits)
next
  case (SendSmRequest sm j)
  then show ?thesis
    using assms by (cases j) (auto simp: negotiation_receive_def step_full_def)
qed (use assms in \<open>auto simp: negotiation_receive_def step_full_def\<close>)

lemma slot_tells:
  assumes "stream_slot v ss = Some (events, ss')" "bound_full is_full (ss_stream ss)"
  shows "tells is_full (ss_stream ss) events (ss_stream ss')"
  using assms
  by (auto simp: stream_slot_def negotiation_new_def tells_def
      split: worker_stream.splits option.splits sum.splits if_splits)

lemma poll_tells:
  fixes B :: "'e stream_library" and ss :: "'q stanza_stream"
  assumes poll: "stream_poll B ping input ss = Some (out, ss')"
    and full: "bound_full is_full (ss_stream ss)" "binds_full is_full B"
  shows "tells is_full (ss_stream ss) (po_events out) (ss_stream ss')"
proof (cases "ss_stream ss")
  case (WS_Connecting sm)
  then show ?thesis
    using assms slot_tells [of _ ss _ _ is_full] tells_same [of is_full "WS_Connecting sm"]
    by (cases input) (auto simp: stream_poll_def stream_force_disconnect_def bind_eq_Some_conv)
next
  case WS_Terminated
  then show ?thesis
    using poll tells_same [of is_full WS_Terminated]
    by (cases input) (auto simp: stream_poll_def stream_force_disconnect_def)
next
  case up: (WS_Connected state f i)
  have idle: ?thesis if "out = \<lparr>po_tokens = [], po_requests = [], po_events = [], po_redial = False\<rparr>" "ss' = ss"
    using that full(1) tells_same by simp
  have conn: ?thesis
    if "polled tokens requests (stream_connected ping state' event (ss\<lparr>ss_queue := q\<rparr>)) = Some (out, ss')"
      "\<And>events redial ss'. stream_connected ping state' event (ss\<lparr>ss_queue := q\<rparr>) = (events, redial, ss')
        \<Longrightarrow> tells is_full (WS_Connected state f i) events (ss_stream ss')"
    for tokens requests state' event q
    using that up by (cases "stream_connected ping state' event (ss\<lparr>ss_queue := q\<rparr>)") auto
  have up': "ss_stream (ss\<lparr>ss_queue := q\<rparr>) = WS_Connected state f i" for q
    using up by simp
  show ?thesis
  proof (cases input)
    case (In_Slot v)
    then show ?thesis using poll up idle by (simp add: stream_poll_def)
  next
    case (In_Negotiation_Write ready)
    show ?thesis
    proof (cases state)
      case (CS_Negotiating neg)
      obtain requests and step :: "('q, 'e) negotiation_step"
        where send: "negotiation_send (sb_resource B i) ready neg = (requests, step)"
        by force
      then obtain state' event where after: "after_negotiation f step = Some (state', event)"
        and run: "polled [] requests (stream_connected ping state' event ss) = Some (out, ss')"
        using poll up CS_Negotiating In_Negotiation_Write by (auto simp: stream_poll_def bind_eq_Some_conv)
      have "step_full is_full (session_of_negotiation neg) step"
        using send_full [OF send] full(1) up CS_Negotiating by simp
      from negotiation_tells [OF up [unfolded CS_Negotiating] this after] show ?thesis
        using conn [of "[]" requests state' event "ss_queue ss"] run CS_Negotiating by auto
    qed (use poll up idle In_Negotiation_Write in \<open>simp_all add: stream_poll_def\<close>)
  next
    case (In_Negotiation_Read flushed r)
    show ?thesis
    proof (cases state)
      case (CS_Negotiating neg)
      obtain tokens step q where receive: "negotiation_receive B flushed r neg (ss_queue ss) = (tokens, step, q)"
        by (metis prod_cases3)
      then obtain state' event where after: "after_negotiation f step = Some (state', event)"
        and run: "polled tokens [] (stream_connected ping state' event (ss\<lparr>ss_queue := q\<rparr>)) = Some (out, ss')"
        using poll up CS_Negotiating In_Negotiation_Read by (auto simp: stream_poll_def bind_eq_Some_conv)
      have "step_full is_full (session_of_negotiation neg) step"
        using receive_full [OF receive full(2)] full(1) up CS_Negotiating by simp
      from negotiation_tells [OF up' [unfolded CS_Negotiating] this after] show ?thesis
        using conn [of tokens "[]" state' event q] run CS_Negotiating by auto
    qed (use poll up idle In_Negotiation_Read in \<open>simp_all add: stream_poll_def\<close>)
  next
    case (In_Transmit failure)
    show ?thesis
    proof (cases state)
      case (CS_Ready sm)
      then obtain r where r: "transmit_next failure sm (ss_queue ss) = Some r"
        using poll up In_Transmit by (auto simp: stream_poll_def bind_eq_Some_conv)
      then have "sm' \<noteq> None \<Longrightarrow> sm \<noteq> None" if "r = Some (token, sm', q)" for token sm' q
        using that by (auto simp: transmit_next_def split: prod.splits poll.splits option.splits)
      then show ?thesis
        using poll up In_Transmit CS_Ready r idle
        by (auto simp: stream_poll_def stream_connected_def tells_def split: option.splits prod.splits)
    qed (use poll up idle In_Transmit in \<open>simp_all add: stream_poll_def\<close>)
  next
    case In_Write_Failed
    then show ?thesis
      using poll up idle by (cases state) (auto simp: stream_poll_def stream_connected_def tells_def)
  next
    case (In_Read r)
    show ?thesis
    proof (cases state)
      case (CS_Ready sm)
      then obtain tokens state' event where read: "ready_read B sm r = Some (tokens, state', event)"
        and run: "polled tokens [] (stream_connected ping state' event ss) = Some (out, ss')"
        using poll up In_Read by (auto simp: stream_poll_def bind_eq_Some_conv)
      note tells = ready_read_tells [OF read]
      have "tells is_full (WS_Connected state f i) events (ss_stream ss')"
        if "stream_connected ping state' event (ss\<lparr>ss_queue := ss_queue ss\<rparr>) = (events, redial, ss')" for events redial ss'
        using tells not_negotiating_full [OF tells(1)] CS_Ready
        by (intro tells_connected [OF up' that]) (auto split: option.splits connected_event.splits worker_event.splits)
      then show ?thesis
        using conn [of tokens "[]" state' event "ss_queue ss"] run by simp
    qed (use poll up idle In_Read in \<open>simp_all add: stream_poll_def\<close>)
  next
    case In_Report
    then show ?thesis
      using poll up full(1)
      by (cases state) (auto simp: stream_poll_def report_def stream_connected_def stream_lost_eq tells_def)
  next
    case In_Watchdog
    then show ?thesis
      using poll up full(1)
      by (cases state) (auto simp: stream_poll_def stream_force_disconnect_def connected_force_disconnect_def
          stream_lost_eq tells_def)
  qed
qed

section \<open>The joint run\<close>

text \<open>
  A stream, the worker of its client and the worker of the account that owns the client. The loop of the
  account takes the client's events in order and as they come, as long as it runs, each at some reading of its clocks.
  The two channels in between, which only delay this, are left out.
\<close>

record 'q joint =
  jo_stream :: "'q stanza_stream"
  jo_client :: client_worker
  jo_worker :: worker

fun take_events :: "'e parsers \<Rightarrow> ('e client_event \<Rightarrow> nat \<times> nat \<times> nat) \<Rightarrow> 'e client_event list \<Rightarrow> worker \<Rightarrow> worker" where
  "take_events L clock [] w = w"
| "take_events L clock (ev # evs) w =
     (if wk_phase w = Phase_Running
      then let (n, m, k) = clock ev in take_events L clock evs (snd (worker_step L w (W_Event (Some ev) n m k)))
      else w)"

definition joint_start :: "u64 \<Rightarrow> worker_connection \<Rightarrow> 'q joint" where
  "joint_start ctr conn =
     \<lparr>jo_stream = stream_spawn ctr, jo_client = client_worker_new,
      jo_worker = (worker_start conn)\<lparr>wk_phase := Phase_Running\<rparr>\<rparr>"

text \<open>A stanza is handed in, the stream polls and what it yields is taken, or the account's worker takes something else.\<close>

inductive joint_run ::
  "'e parsers \<Rightarrow> (jid \<Rightarrow> bool) \<Rightarrow> 'e stream_library \<Rightarrow> (u64 \<Rightarrow> 'q) \<Rightarrow> 'q joint \<Rightarrow> 'q joint \<Rightarrow> bool"
  for L is_full B ping s0 where
  jo_start: "joint_run L is_full B ping s0 s0"
| jo_submit: "joint_run L is_full B ping s0 s
    \<Longrightarrow> joint_run L is_full B ping s0 (s\<lparr>jo_stream := (jo_stream s)\<lparr>ss_queue := q\<rparr>\<rparr>)"
| jo_poll: "joint_run L is_full B ping s0 s
    \<Longrightarrow> client_poll L is_full B ping input (jo_stream s, jo_client s) = Some (events, (ss, cw))
    \<Longrightarrow> joint_run L is_full B ping s0 \<lparr>jo_stream = ss, jo_client = cw, jo_worker = take_events L clock events (jo_worker s)\<rparr>"
| jo_other: "joint_run L is_full B ping s0 s \<Longrightarrow> takes (jo_worker s) i \<Longrightarrow> \<forall>ev n m k. i \<noteq> W_Event (Some ev) n m k
    \<Longrightarrow> joint_run L is_full B ping s0 (s\<lparr>jo_worker := snd (worker_step L (jo_worker s) i)\<rparr>)"

definition joint_ok :: "(jid \<Rightarrow> bool) \<Rightarrow> 'q joint \<Rightarrow> bool" where
  "joint_ok is_full s \<longleftrightarrow>
     bound_full is_full (ss_stream (jo_stream s))
   \<and> wk_phase (jo_worker s) \<noteq> Phase_Connecting
   \<and> (wk_phase (jo_worker s) = Phase_Running \<and> wk_session_live (jo_worker s) \<longrightarrow> established (ss_stream (jo_stream s)))
   \<and> (session_of_stream (ss_stream (jo_stream s)) \<noteq> None \<longrightarrow>
        cw_bound_jid (jo_client s) \<noteq> None \<and> cw_features (jo_client s) \<noteq> None)"

text \<open>What taking a client event makes of a running worker.\<close>

lemma event_taken:
  assumes "wk_phase w = Phase_Running"
  shows "wk_phase (snd (worker_step L w (W_Event (Some ev) n m k))) \<noteq> Phase_Connecting"
    and "wk_session_live (snd (worker_step L w (W_Event (Some ev) n m k)))
      = (case ev of Ev_Online _ _ _ \<Rightarrow> True | Ev_Disconnected _ \<Rightarrow> False | Ev_Stanza _ \<Rightarrow> wk_session_live w)"
proof -
  let ?w = "w\<lparr>wk_last_inbound := k\<rparr>"
  obtain outs w1 action where h: "handle_client_event L n m ev ?w = (outs, w1, action)"
    by (metis prod_cases3)
  have w': "snd (worker_step L w (W_Event (Some ev) n m k)) = after_action action w1"
    using assms h by (simp add: worker_step_def running_step_def)
  note effect = handle_event_effect [OF h]
  show "wk_phase (snd (worker_step L w (W_Event (Some ev) n m k))) \<noteq> Phase_Connecting"
    using effect assms(1) by (auto simp: w' after_action_def exited_def split: loop_action.splits)
  show "wk_session_live (snd (worker_step L w (W_Event (Some ev) n m k)))
      = (case ev of Ev_Online _ _ _ \<Rightarrow> True | Ev_Disconnected _ \<Rightarrow> False | Ev_Stanza _ \<Rightarrow> wk_session_live w)"
    using effect by (auto simp: w' after_action_def exited_def split: loop_action.splits client_event.splits)
qed

lemma take_events_phase: "wk_phase w \<noteq> Phase_Connecting \<Longrightarrow> wk_phase (take_events L clock evs w) \<noteq> Phase_Connecting"
  by (induction evs arbitrary: w) (auto simp: event_taken(1) split: prod.splits)

lemma take_events_ended: "wk_phase w \<noteq> Phase_Running \<Longrightarrow> take_events L clock evs w = w"
  by (cases evs) auto

lemma take_event_live:
  "wk_phase w = Phase_Running \<Longrightarrow> wk_session_live (take_events L clock [ev] w)
    = (case ev of Ev_Online _ _ _ \<Rightarrow> True | Ev_Disconnected _ \<Rightarrow> False | Ev_Stanza _ \<Rightarrow> wk_session_live w)"
  by (simp add: event_taken(2) split: prod.splits)

text \<open>Commands and timers never put a session up.\<close>

lemma other_taken:
  assumes "wk_phase w = Phase_Running" "\<forall>ev n m k. i \<noteq> W_Event (Some ev) n m k"
  shows "wk_phase (snd (worker_step L w i)) \<noteq> Phase_Connecting"
    and "wk_session_live (snd (worker_step L w i)) \<Longrightarrow> wk_session_live w"
  using assms
  by (auto simp: worker_step_def running_step_def exited_def Let_def
      split: worker_input.splits option.splits prod.splits if_splits)

lemma client_event_handled:
  assumes "tells is_full ws events ws'"
    and "session_of_stream ws \<noteq> None \<longrightarrow> cw_bound_jid cw \<noteq> None \<and> cw_features cw \<noteq> None"
  shows "\<exists>outs cw'. client_handle_events L is_full events cw = Some (outs, cw')
    \<and> (session_of_stream ws' \<noteq> None \<longrightarrow> cw_bound_jid cw' \<noteq> None \<and> cw_features cw' \<noteq> None)
    \<and> (outs = [] \<and> (established ws \<longrightarrow> established ws')
       \<or> (\<exists>st. outs = [Ev_Stanza st]) \<and> (established ws \<longrightarrow> established ws')
       \<or> (\<exists>e. outs = [Ev_Disconnected e])
       \<or> (\<exists>j f r. outs = [Ev_Online j f r]) \<and> established ws')"
proof -
  have ?thesis if "events = []"
    using that assms by (auto simp: tells_def)
  moreover have ?thesis if "events = [ev]" for ev
  proof (cases ev)
    case (Ev_Stream e)
    then show ?thesis
      using that assms by (cases e) (auto simp: tells_def client_handle_event_def List.map_filter_simps)
  next
    case (Ev_Received st)
    show ?thesis
    proof (cases st)
      case (St_Iq iq)
      then show ?thesis
        using that assms Ev_Received
        by (cases "fst (tracker_handle_iq iq (cw_tracker cw))")
          (auto simp: tells_def client_handle_event_def List.map_filter_simps split: prod.splits)
    qed (use that assms Ev_Received in \<open>auto simp: tells_def client_handle_event_def List.map_filter_simps\<close>)
  qed
  moreover have "events = [] \<or> (\<exists>ev. events = [ev])"
    using assms(1) by (auto simp: tells_def split: list.splits stanza_stream_event.splits stream_event.splits)
  ultimately show ?thesis by blast
qed

lemma joint_poll:
  assumes ok: "joint_ok is_full s" and full: "binds_full is_full B"
    and poll: "stream_poll B ping input (jo_stream s) = Some (out, ss)"
  shows "\<exists>events cw. client_handle_events L is_full (po_events out) (jo_client s) = Some (events, cw)
    \<and> joint_ok is_full \<lparr>jo_stream = ss, jo_client = cw, jo_worker = take_events L clock events (jo_worker s)\<rparr>"
proof -
  have tells: "tells is_full (ss_stream (jo_stream s)) (po_events out) (ss_stream ss)"
    using poll_tells [OF poll _ full] ok by (simp add: joint_ok_def)
  have "session_of_stream (ss_stream (jo_stream s)) \<noteq> None
      \<longrightarrow> cw_bound_jid (jo_client s) \<noteq> None \<and> cw_features (jo_client s) \<noteq> None"
    using ok by (simp add: joint_ok_def)
  note found = client_event_handled [OF tells this, of L]
  obtain events cw where all:
    "client_handle_events L is_full (po_events out) (jo_client s) = Some (events, cw)
    \<and> (session_of_stream (ss_stream ss) \<noteq> None \<longrightarrow> cw_bound_jid cw \<noteq> None \<and> cw_features cw \<noteq> None)
    \<and> (events = [] \<and> (established (ss_stream (jo_stream s)) \<longrightarrow> established (ss_stream ss))
       \<or> (\<exists>st. events = [Ev_Stanza st]) \<and> (established (ss_stream (jo_stream s)) \<longrightarrow> established (ss_stream ss))
       \<or> (\<exists>e. events = [Ev_Disconnected e])
       \<or> (\<exists>j f r. events = [Ev_Online j f r]) \<and> established (ss_stream ss))"
    using found by (elim exE) (rule that)
  note handled = all [THEN conjunct1] and session = all [THEN conjunct2, THEN conjunct1]
    and which = all [THEN conjunct2, THEN conjunct2]
  let ?w = "take_events L clock events (jo_worker s)"
  have "established (ss_stream ss)" if "wk_phase ?w = Phase_Running" "wk_session_live ?w"
  proof -
    have running: "wk_phase (jo_worker s) = Phase_Running"
      using that(1) take_events_ended [of "jo_worker s" L clock events] by (cases "wk_phase (jo_worker s) = Phase_Running") auto
    from which that(2) ok show ?thesis
      by (elim disjE exE conjE) (simp_all add: take_event_live [OF running] joint_ok_def running del: take_events.simps(2))
  qed
  moreover have "bound_full is_full (ss_stream ss)"
    using tells by (simp add: tells_def)
  moreover have "wk_phase ?w \<noteq> Phase_Connecting"
    using ok by (intro take_events_phase) (simp add: joint_ok_def)
  ultimately have "joint_ok is_full \<lparr>jo_stream = ss, jo_client = cw, jo_worker = ?w\<rparr>"
    using session by (simp add: joint_ok_def)
  then show ?thesis
    using handled by blast
qed

lemma joint_run_ok:
  assumes "joint_run L is_full B ping (joint_start ctr conn) s" "binds_full is_full B"
  shows "joint_ok is_full s"
  using assms
proof (induction rule: joint_run.induct)
  case jo_start
  then show ?case
    by (simp add: joint_ok_def joint_start_def stream_spawn_def worker_start_def)
next
  case (jo_submit s q)
  then show ?case
    by (simp add: joint_ok_def)
next
  case (jo_poll s input events ss cw clock)
  then obtain out where "stream_poll B ping input (jo_stream s) = Some (out, ss)"
    "client_handle_events L is_full (po_events out) (jo_client s) = Some (events, cw)"
    by (auto simp: client_poll_def bind_eq_Some_conv)
  then show ?case
    using joint_poll [OF jo_poll.IH [OF jo_poll.prems] jo_poll.prems, of ping input out ss L clock] by auto
next
  case (jo_other s i)
  then have "wk_phase (jo_worker s) = Phase_Running"
    by (cases "wk_phase (jo_worker s)") (auto simp: joint_ok_def takes_def)
  then show ?case
    using other_taken [of "jo_worker s" i L] jo_other by (auto simp: joint_ok_def)
qed

section \<open>Rounds of polls\<close>

fun joint_polls ::
  "'e parsers \<Rightarrow> (jid \<Rightarrow> bool) \<Rightarrow> 'e stream_library \<Rightarrow> (u64 \<Rightarrow> 'q) \<Rightarrow> ('e client_event \<Rightarrow> nat \<times> nat \<times> nat)
    \<Rightarrow> 'e stream_input list \<Rightarrow> 'q joint \<Rightarrow> 'q joint option" where
  "joint_polls L is_full B ping clock [] s = Some s"
| "joint_polls L is_full B ping clock (input # inputs) s =
     Option.bind (client_poll L is_full B ping input (jo_stream s, jo_client s)) (\<lambda>(events, (ss, cw)).
       joint_polls L is_full B ping clock inputs
         \<lparr>jo_stream = ss, jo_client = cw, jo_worker = take_events L clock events (jo_worker s)\<rparr>)"

lemma joint_polls_run:
  "joint_polls L is_full B ping clock inputs s = Some s' \<Longrightarrow> joint_run L is_full B ping s0 s
    \<Longrightarrow> joint_run L is_full B ping s0 s'"
proof (induction inputs arbitrary: s)
  case (Cons input inputs)
  from Cons.prems(1) obtain events ss cw
    where "client_poll L is_full B ping input (jo_stream s, jo_client s) = Some (events, (ss, cw))"
      and "joint_polls L is_full B ping clock inputs
        \<lparr>jo_stream = ss, jo_client = cw, jo_worker = take_events L clock events (jo_worker s)\<rparr> = Some s'"
    by (auto simp: bind_eq_Some_conv)
  then show ?case
    using Cons.IH jo_poll [OF Cons.prems(2)] by blast
qed simp

text \<open>An ending stream does nothing but report, and the second report at the latest suspends it.\<close>

lemma ending_waits:
  assumes "ending (ss_stream ss)" "input \<noteq> In_Report"
  shows "stream_poll B ping input ss = Some (\<lparr>po_tokens = [], po_requests = [], po_events = [], po_redial = False\<rparr>, ss)"
  using assms
  by (cases "ss_stream ss" rule: ending.cases; cases input)
    (auto simp: stream_poll_def stream_force_disconnect_def connected_force_disconnect_def)

lemma report_reports:
  "ss_stream ss = WS_Connected (CS_SendStreamError e) f i \<Longrightarrow> stream_poll B ping In_Report ss
     = Some (\<lparr>po_tokens = [], po_requests = [], po_events = [], po_redial = False\<rparr>, ss\<lparr>ss_stream := WS_Connected (CS_Failed None) f i\<rparr>)"
  "ss_stream ss = WS_Connecting sm \<Longrightarrow> stream_poll B ping In_Report ss
     = Some (\<lparr>po_tokens = [], po_requests = [], po_events = [], po_redial = False\<rparr>, ss)"
  by (simp_all add: stream_poll_def report_def stream_connected_def polled_def)

lemma report_suspends:
  assumes "ss_stream ss = WS_Connected state f i" "state = CS_Failed sm \<or> state = CS_RemoteShutdown sm"
  obtains out ss' where "stream_poll B ping In_Report ss = Some (out, ss')"
    "po_events out = [Ev_Stream Str_Suspended]" "po_tokens out = []"
    "ss_stream ss' = WS_Connecting sm" "ss_queue ss' = ss_queue ss"
    "ss_running ss' = (ss_running ss \<and> \<not> tq_closed (ss_queue ss))"
  using assms
  by (cases "tq_closed (ss_queue ss)")
    (auto simp: stream_poll_def report_def stream_connected_def stream_lost_def polled_def Let_def)

lemma suspended_taken:
  "client_handle_events L is_full [Ev_Stream Str_Suspended] cw
     = Some ([Ev_Disconnected (XE_Io (lit ''XMPP connection suspended''))], cw)"
  by (simp add: client_handle_event_def List.map_filter_simps)

lemma disconnected_taken:
  "wk_phase w = Phase_Running \<Longrightarrow> \<not> wk_session_live (take_events L clock [Ev_Disconnected e] w)"
  by (simp add: take_event_live del: take_events.simps)

lemma suspending_poll:
  assumes "ss_stream ss = WS_Connected state f i" "state = CS_Failed sm \<or> state = CS_RemoteShutdown sm"
  obtains ss' where "client_poll L is_full B ping In_Report (ss, cw)
      = Some ([Ev_Disconnected (XE_Io (lit ''XMPP connection suspended''))], (ss', cw))"
    "ss_stream ss' = WS_Connecting sm"
proof -
  obtain out ss' where "stream_poll B ping In_Report ss = Some (out, ss')"
    "po_events out = [Ev_Stream Str_Suspended]" "ss_stream ss' = WS_Connecting sm"
    by (rule report_suspends [OF assms])
  then show ?thesis
    using that by (simp add: client_poll_def suspended_taken del: client_handle_events.simps(2))
qed

lemma ending_polls:
  assumes "ending (ss_stream (jo_stream s))" "wk_phase (jo_worker s) = Phase_Running"
  shows "\<exists>s'. joint_polls L is_full B ping clock [In_Report, In_Report] s = Some s' \<and> \<not> wk_session_live (jo_worker s')"
proof -
  have idle: "client_poll L is_full B ping In_Report (ss, cw) = Some ([], (ss, cw))"
    if "ss_stream ss = WS_Connecting sm" for ss sm cw
    using that by (simp add: client_poll_def report_reports)
  have suspending: ?thesis
    if down: "ss_stream (jo_stream s) = WS_Connected state f i" "state = CS_Failed sm \<or> state = CS_RemoteShutdown sm" for state f i sm
  proof -
    obtain ss' where "client_poll L is_full B ping In_Report (jo_stream s, jo_client s)
        = Some ([Ev_Disconnected (XE_Io (lit ''XMPP connection suspended''))], (ss', jo_client s))"
      "ss_stream ss' = WS_Connecting sm"
      by (rule suspending_poll [OF down])
    then show ?thesis
      using idle disconnected_taken [OF assms(2)] by (simp del: take_events.simps(2))
  qed
  show ?thesis
  proof (cases "ss_stream (jo_stream s)" rule: ending.cases)
    case (1 e f i)
    let ?ss = "(jo_stream s)\<lparr>ss_stream := WS_Connected (CS_Failed None) f i\<rparr>"
    have "client_poll L is_full B ping In_Report (jo_stream s, jo_client s) = Some ([], (?ss, jo_client s))"
      using 1 by (simp add: client_poll_def report_reports)
    moreover have up: "ss_stream ?ss = WS_Connected (CS_Failed None) f i" by simp
    obtain ss' where "client_poll L is_full B ping In_Report (?ss, jo_client s)
        = Some ([Ev_Disconnected (XE_Io (lit ''XMPP connection suspended''))], (ss', jo_client s))"
      by (rule suspending_poll [OF up, of None L is_full B ping "jo_client s"]) auto
    ultimately show ?thesis
      using disconnected_taken [OF assms(2)] by (simp del: take_events.simps(2))
  qed (use suspending assms(1) in auto)
qed

text \<open>C30: What an account shows is what its stream is. In every joint run of a stream, its client and the
  worker of an account, whatever the servers, the network and the commands do, a running worker whose session is
  live, once it has taken the events so far, has a stream that transmits and reads: not one that is being
  dialled or negotiated. Or the stream has just come to its end - it failed, its server shut it down, or a
  stream error is to be sent - and then nothing but its reports moves it, and the second of them at the latest
  ends the session that the worker shows. And the worker of the client can handle the events of every further
  poll: the addresses it unwraps are there.\<close>

theorem online_is_established:
  assumes "joint_run L is_full B ping (joint_start ctr conn) s" and "binds_full is_full B"
  shows "(wk_phase (jo_worker s) = Phase_Running \<and> wk_session_live (jo_worker s) \<longrightarrow>
      (case ss_stream (jo_stream s) of
         WS_Connected (CS_Ready _) _ _ \<Rightarrow> True
       | WS_Connected (CS_Negotiating _) _ _ \<Rightarrow> False
       | WS_Connected _ _ _ \<Rightarrow>
           (\<forall>quiet. quiet \<noteq> In_Report \<longrightarrow> stream_poll B ping quiet (jo_stream s)
              = Some (\<lparr>po_tokens = [], po_requests = [], po_events = [], po_redial = False\<rparr>, jo_stream s))
         \<and> (\<exists>s'. joint_polls L is_full B ping clock [In_Report, In_Report] s = Some s'
              \<and> \<not> (wk_phase (jo_worker s') = Phase_Running \<and> wk_session_live (jo_worker s')))
       | _ \<Rightarrow> False))
    \<and> (stream_poll B ping input (jo_stream s) \<noteq> None \<longrightarrow> client_poll L is_full B ping input (jo_stream s, jo_client s) \<noteq> None)"
proof -
  note ok = joint_run_ok [OF assms]
  have "client_poll L is_full B ping input (jo_stream s, jo_client s) \<noteq> None"
    if "stream_poll B ping input (jo_stream s) = Some (out, ss)" for out ss
    using joint_poll [OF ok assms(2) that, of L "\<lambda>_. (0, 0, 0)"] that by (auto simp: client_poll_def)
  moreover have "transmitting (ss_stream (jo_stream s)) \<or> ending (ss_stream (jo_stream s))"
    if "wk_phase (jo_worker s) = Phase_Running" "wk_session_live (jo_worker s)"
    using ok that by (simp add: joint_ok_def established_iff)
  ultimately show ?thesis
    using ending_waits [of "jo_stream s" _ B ping] ending_polls [of s L is_full B ping clock]
    by (cases "ss_stream (jo_stream s)" rule: ending.cases) auto
qed

text \<open>An account that comes online over a new connection, with an address that its server binds.\<close>

definition demo_binding :: "(ustr \<times> ustr) stream_library" where
  "demo_binding = \<lparr>sb_bind_response = (\<lambda>payload. Inr (snd payload)), sb_debug = (\<lambda>_. []), sb_resource = (\<lambda>_. None)\<rparr>"

definition demo_account :: worker_connection where
  "demo_account = \<lparr>wc_account_id = 1, wc_jid = [], wc_password = [], wc_server = [], wc_auto_reconnect = True,
     wc_connect_strategy = ST_Direct, wc_proxy = None, wc_proxy_password = None\<rparr>"

definition demo_sign_in :: "(ustr \<times> ustr) stream_input list" where
  "demo_sign_in = [In_Slot (Some (Inr demo_connection)), In_Negotiation_Write None,
     In_Negotiation_Read None (Some (Inr (El_Ok (El_Stanza (St_Iq
       (Iq_Result None None BIND_REQ_ID (Some ([], lit ''alice@example.org/desk'')))))))),
     In_Negotiation_Write None, In_Negotiation_Read None (Some (Inr (El_Ok (El_Enabled demo_enabled))))]"

text \<open>Then a write fails: the account still shows its session, until the reports of the stream.\<close>

lemma demo_failed_write:
  obtains s where "joint_polls demo_parsers (\<lambda>_. True) demo_binding unat (\<lambda>_. (0, 0, 0)) (demo_sign_in @ [In_Write_Failed])
      (joint_start 0 demo_account) = Some s"
    "wk_phase (jo_worker s) = Phase_Running" "wk_session_live (jo_worker s)" "ending (ss_stream (jo_stream s))"
  by (simp add: demo_sign_in_def client_poll_def poll_defs receive_bind_def BIND_REQ_ID_def demo_binding_def demo_connection_def
      demo_features_def joint_start_def stream_spawn_def client_worker_new_def client_handle_event_def List.map_filter_simps
      worker_start_def worker_step_def running_step_def handle_client_event_def after_action_def demo_account_def)

theorem online_is_established_witness:
  "\<exists>s s'. joint_run demo_parsers (\<lambda>_. True) demo_binding unat (joint_start 0 demo_account) s
    \<and> wk_phase (jo_worker s) = Phase_Running \<and> wk_session_live (jo_worker s)
    \<and> joint_polls demo_parsers (\<lambda>_. True) demo_binding unat (\<lambda>_. (0, 0, 0)) [In_Report, In_Report] s = Some s'
    \<and> \<not> (wk_phase (jo_worker s') = Phase_Running \<and> wk_session_live (jo_worker s'))"
proof -
  obtain s where s: "joint_polls demo_parsers (\<lambda>_. True) demo_binding unat (\<lambda>_. (0, 0, 0)) (demo_sign_in @ [In_Write_Failed])
      (joint_start 0 demo_account) = Some s"
    "wk_phase (jo_worker s) = Phase_Running" "wk_session_live (jo_worker s)" "ending (ss_stream (jo_stream s))"
    by (rule demo_failed_write)
  have run: "joint_run demo_parsers (\<lambda>_. True) demo_binding unat (joint_start 0 demo_account) s"
    by (rule joint_polls_run [OF s(1) jo_start])
  have "binds_full (\<lambda>_. True) demo_binding"
    by (simp add: binds_full_def)
  from online_is_established [OF run this, of "\<lambda>_. (0, 0, 0)"]
  have "\<exists>s'. joint_polls demo_parsers (\<lambda>_. True) demo_binding unat (\<lambda>_. (0, 0, 0)) [In_Report, In_Report] s = Some s'
      \<and> \<not> (wk_phase (jo_worker s') = Phase_Running \<and> wk_session_live (jo_worker s'))"
    using s(2-4) by (cases "ss_stream (jo_stream s)" rule: ending.cases) (simp_all del: joint_polls.simps)
  then show ?thesis
    using run s(2,3) by blast
qed

end
