(* ===== verification/Client_Close.thy ===== *)
theory Client_Close
  imports Client_Joint "HOL-Library.Sublist"
begin

text \<open>
  How a client is closed: \<^verbatim>\<open>send_end\<close> ends its worker and the queue of its stream (\<^verbatim>\<open>client/mod.rs\<close>,
  \<^verbatim>\<open>stanzastream/mod.rs\<close>); the worker of the stream transmits what is left, leaves its loop and shuts the
  connection down in both directions, for at most ten seconds (\<^verbatim>\<open>poll_close\<close> of \<^verbatim>\<open>stanzastream/connected.rs\<close>
  and \<^verbatim>\<open>stanzastream/worker.rs\<close>). A stream error is sent under the same deadline.
\<close>

section \<open>The end of the loop\<close>

text \<open>\<^verbatim>\<open>StanzaStream::close\<close> drops the only sender of the queue and then waits until the worker has ended.\<close>

definition stream_close :: "'q stanza_stream \<Rightarrow> 'q stanza_stream" where
  "stream_close ss = ss\<lparr>ss_queue := (ss_queue ss)\<lparr>tq_closed := True\<rparr>\<rparr>"

text \<open>
  The writes of an established stream are done once its queue is closed and empty and what is buffered was flushed:
  the stream asks for its own shutdown, and the loop of the worker ends. \<^const>\<open>None\<close>: it is not that far.
\<close>

definition stream_drained :: "'q stanza_stream \<Rightarrow> 'q stanza_stream option" where
  "stream_drained ss =
     (case ss_stream ss of
        WS_Connected (CS_Ready _) _ _ \<Rightarrow>
          (case fst (tq_poll_next (ss_queue ss)) of
             Poll_Ready None \<Rightarrow> Some (ss\<lparr>ss_running := False\<rparr>)
           | _ \<Rightarrow> None)
      | _ \<Rightarrow> None)"

section \<open>The shutdown of the connection\<close>

datatype rx_shutdown = Rx_AwaitingFooter | Rx_AwaitingEof | Rx_Done

text \<open>\<^verbatim>\<open>LocalShutdown\<close>: whether the sending side is closed, the state of the receiving side, and the deadline.\<close>

datatype closing = Local_Shutdown bool rx_shutdown nat | Shutdown_Complete

definition LOCAL_SHUTDOWN_TIMEOUT :: nat where "LOCAL_SHUTDOWN_TIMEOUT = 10 * 1000"

text \<open>What \<^verbatim>\<open>poll_close\<close> makes of the stream first, once the loop has ended at the time \<open>now\<close>; its result is ignored.\<close>

definition close_start :: "nat \<Rightarrow> 'q worker_stream \<Rightarrow> closing" where
  "close_start now ws =
     (case ws of
        WS_Connected (CS_Failed _) _ _ \<Rightarrow> Shutdown_Complete
      | WS_Connected _ _ _ \<Rightarrow> Local_Shutdown False Rx_AwaitingFooter (now + LOCAL_SHUTDOWN_TIMEOUT)
      | _ \<Rightarrow> Shutdown_Complete)"

text \<open>
  The inner loop reads what has arrived. The second component says whether the receiving side is done, \<^const>\<open>False\<close>
  that it waits for more; \<^const>\<open>None\<close> is the panic of a second stream footer.
\<close>

fun close_reads :: "'e stream_read list \<Rightarrow> rx_shutdown \<Rightarrow> (rx_shutdown \<times> bool) option" where
  "close_reads [] rx = Some (rx, False)"
| "close_reads (r # rs) rx =
     (case r of
        None \<Rightarrow> Some (Rx_Done, True)
      | Some (Inl (Re_HardError _)) \<Rightarrow> Some (Rx_Done, True)
      | Some (Inl Re_StreamFooterReceived) \<Rightarrow>
          (case rx of Rx_AwaitingFooter \<Rightarrow> close_reads rs Rx_AwaitingEof | _ \<Rightarrow> None)
      | _ \<Rightarrow> close_reads rs rx)"

text \<open>A poll: its time, whether the sending side is closed now, what has arrived, and how the close of the sink goes.\<close>

record 'e close_input =
  ci_now :: nat
  ci_shutdown :: bool
  ci_reads :: "'e stream_read list"
  ci_sink :: "(ustr + unit) option"

text \<open>An error of the sink also ends the shutdown, as \<^verbatim>\<open>WorkerStream::poll_close\<close> terminates the stream on every result.\<close>

definition poll_close :: "'e close_input \<Rightarrow> closing \<Rightarrow> closing option" where
  "poll_close input state =
     (case state of
        Shutdown_Complete \<Rightarrow> Some Shutdown_Complete
      | Local_Shutdown tx_closed rx deadline \<Rightarrow>
          if deadline \<le> ci_now input then Some Shutdown_Complete
          else
            let tx_closed = (tx_closed \<or> ci_shutdown input);
                finish = (case ci_sink input of
                    None \<Rightarrow> Local_Shutdown True Rx_Done deadline
                  | Some _ \<Rightarrow> Shutdown_Complete)
            in if rx = Rx_Done then Some (if tx_closed then finish else Local_Shutdown False Rx_Done deadline)
               else (case close_reads (ci_reads input) rx of
                       None \<Rightarrow> None
                     | Some (rx, False) \<Rightarrow> Some (Local_Shutdown tx_closed rx deadline)
                     | Some (_, True) \<Rightarrow> Some (if tx_closed then finish else Local_Shutdown False Rx_Done deadline)))"

fun poll_closes :: "'e close_input list \<Rightarrow> closing \<Rightarrow> closing option" where
  "poll_closes [] state = Some state"
| "poll_closes (input # inputs) state = Option.bind (poll_close input state) (poll_closes inputs)"

text \<open>Whether the receiving side of a connection has ended in a list of reads, and how many footers come before that.\<close>

definition ends_rx :: "'e stream_read \<Rightarrow> bool" where
  "ends_rx r = (case r of None \<Rightarrow> True | Some (Inl (Re_HardError _)) \<Rightarrow> True | _ \<Rightarrow> False)"

definition is_footer :: "'e stream_read \<Rightarrow> bool" where
  "is_footer r = (case r of Some (Inl Re_StreamFooterReceived) \<Rightarrow> True | _ \<Rightarrow> False)"

abbreviation footers :: "'e stream_read list \<Rightarrow> nat" where
  "footers rs \<equiv> length (filter is_footer rs)"

fun footers_seen :: "rx_shutdown \<Rightarrow> nat" where
  "footers_seen Rx_AwaitingEof = 1"
| "footers_seen _ = 0"

lemma close_reads_spec:
  assumes "footers rs + footers_seen rx \<le> 1" "rx \<noteq> Rx_Done"
  shows "\<exists>rx'. close_reads rs rx = Some (rx', \<exists>r\<in>set rs. ends_rx r) \<and> (rx' = Rx_Done \<longleftrightarrow> (\<exists>r\<in>set rs. ends_rx r))
    \<and> (rx' \<noteq> Rx_Done \<longrightarrow> footers_seen rx' = footers rs + footers_seen rx)"
  using assms
proof (induction rs arbitrary: rx)
  case (Cons r rs)
  consider "ends_rx r" | "is_footer r" | "\<not> ends_rx r" "\<not> is_footer r" by blast
  then show ?case
  proof cases
    case 1
    then show ?thesis
      by (auto simp: ends_rx_def split: option.splits sum.splits read_error.splits)
  next
    case 2
    then have r: "r = Some (Inl Re_StreamFooterReceived)" "\<not> ends_rx r"
      by (auto simp: is_footer_def ends_rx_def split: option.splits sum.splits read_error.splits)
    have "rx = Rx_AwaitingFooter" "footers rs = 0"
      using Cons.prems 2 by (cases rx; simp)+
    then show ?thesis
      using Cons.IH [of Rx_AwaitingEof] 2 r(2) by (simp add: r(1))
  next
    case 3
    then have "close_reads (r # rs) rx = close_reads rs rx"
      by (auto simp: ends_rx_def is_footer_def split: option.splits sum.splits read_error.splits)
    then show ?thesis
      using Cons.IH [of rx] Cons.prems 3 by simp
  qed
qed simp

text \<open>What one poll makes of a shutdown that has not come to its deadline.\<close>

lemma poll_close_step:
  assumes "rx \<noteq> Rx_Done \<longrightarrow> footers (ci_reads input) + footers_seen rx \<le> 1" "ci_now input < deadline"
  shows "\<exists>rx'. poll_close input (Local_Shutdown tx rx deadline)
      = Some (if (tx \<or> ci_shutdown input) \<and> rx' = Rx_Done \<and> ci_sink input \<noteq> None then Shutdown_Complete
              else Local_Shutdown (tx \<or> ci_shutdown input) rx' deadline)
    \<and> (rx' = Rx_Done \<longleftrightarrow> rx = Rx_Done \<or> (\<exists>r\<in>set (ci_reads input). ends_rx r))
    \<and> (rx' \<noteq> Rx_Done \<longrightarrow> footers_seen rx' = footers (ci_reads input) + footers_seen rx)"
proof (cases "rx = Rx_Done")
  case True
  then show ?thesis
    using assms(2) by (intro exI [of _ Rx_Done]) (auto simp: poll_close_def split: option.split)
next
  case False
  let ?over = "\<exists>r\<in>set (ci_reads input). ends_rx r"
  obtain rx' where rx': "close_reads (ci_reads input) rx = Some (rx', ?over)" "rx' = Rx_Done \<longleftrightarrow> ?over"
    "rx' \<noteq> Rx_Done \<longrightarrow> footers_seen rx' = footers (ci_reads input) + footers_seen rx"
    using close_reads_spec [of "ci_reads input" rx] assms(1) False by blast
  have "poll_close input (Local_Shutdown tx rx deadline)
      = Some (if (tx \<or> ci_shutdown input) \<and> rx' = Rx_Done \<and> ci_sink input \<noteq> None then Shutdown_Complete
              else Local_Shutdown (tx \<or> ci_shutdown input) rx' deadline)"
  proof (cases "?over")
    case True
    then have "close_reads (ci_reads input) rx = Some (Rx_Done, True)" "rx' = Rx_Done"
      using rx'(1,2) by simp_all
    then show ?thesis
      using assms(2) False by (simp add: poll_close_def split: option.split)
  next
    case no: False
    then have "close_reads (ci_reads input) rx = Some (rx', False)" "rx' \<noteq> Rx_Done"
      using rx'(1,2) by simp_all
    then show ?thesis
      using assms(2) False by (simp add: poll_close_def)
  qed
  then show ?thesis
    using rx' False by blast
qed

lemma poll_closes_complete: "poll_closes inputs Shutdown_Complete = Some Shutdown_Complete"
  by (induction inputs) (simp_all add: poll_close_def)

lemma poll_closes_spec:
  assumes "rx \<noteq> Rx_Done \<longrightarrow> footers (concat (map ci_reads inputs)) + footers_seen rx \<le> 1"
  shows "\<exists>state. poll_closes inputs (Local_Shutdown tx rx deadline) = Some state
    \<and> ((\<exists>i\<in>set inputs. deadline \<le> ci_now i) \<longrightarrow> state = Shutdown_Complete)
    \<and> (state = Shutdown_Complete \<longrightarrow> (\<exists>i\<in>set inputs. deadline \<le> ci_now i)
        \<or> (tx \<or> (\<exists>i\<in>set inputs. ci_shutdown i)) \<and> (rx = Rx_Done \<or> (\<exists>i\<in>set inputs. \<exists>r\<in>set (ci_reads i). ends_rx r)))
    \<and> (inputs \<noteq> [] \<and> (tx \<or> (\<exists>i\<in>set inputs. ci_shutdown i))
        \<and> (rx = Rx_Done \<or> (\<exists>i\<in>set inputs. \<exists>r\<in>set (ci_reads i). ends_rx r)) \<and> ci_sink (last inputs) \<noteq> None
        \<longrightarrow> state = Shutdown_Complete)"
  using assms
proof (induction inputs arbitrary: tx rx)
  case (Cons input inputs)
  show ?case
  proof (cases "deadline \<le> ci_now input")
    case True
    then show ?thesis
      by (simp add: poll_close_def poll_closes_complete)
  next
    case False
    let ?tx = "tx \<or> ci_shutdown input"
    have "rx \<noteq> Rx_Done \<longrightarrow> footers (ci_reads input) + footers_seen rx \<le> 1"
      using Cons.prems by auto
    moreover have "ci_now input < deadline"
      using False by simp
    ultimately obtain rx' where step: "poll_close input (Local_Shutdown tx rx deadline)
        = Some (if ?tx \<and> rx' = Rx_Done \<and> ci_sink input \<noteq> None then Shutdown_Complete else Local_Shutdown ?tx rx' deadline)"
      and rx': "rx' = Rx_Done \<longleftrightarrow> rx = Rx_Done \<or> (\<exists>r\<in>set (ci_reads input). ends_rx r)"
        "rx' \<noteq> Rx_Done \<longrightarrow> footers_seen rx' = footers (ci_reads input) + footers_seen rx"
      using poll_close_step [of rx input deadline tx] by blast
    show ?thesis
    proof (cases "?tx \<and> rx' = Rx_Done \<and> ci_sink input \<noteq> None")
      case True
      then show ?thesis
        using step rx'(1) by (auto simp: poll_closes_complete)
    next
      case more: False
      have "rx' \<noteq> Rx_Done \<longrightarrow> footers (concat (map ci_reads inputs)) + footers_seen rx' \<le> 1"
        using Cons.prems rx' by auto
      from Cons.IH [OF this, of ?tx] obtain state
        where state: "poll_closes inputs (Local_Shutdown ?tx rx' deadline) = Some state"
          and late: "(\<exists>i\<in>set inputs. deadline \<le> ci_now i) \<longrightarrow> state = Shutdown_Complete"
          and early: "state = Shutdown_Complete \<longrightarrow> (\<exists>i\<in>set inputs. deadline \<le> ci_now i)
            \<or> (?tx \<or> (\<exists>i\<in>set inputs. ci_shutdown i)) \<and> (rx' = Rx_Done \<or> (\<exists>i\<in>set inputs. \<exists>r\<in>set (ci_reads i). ends_rx r))"
          and sink: "inputs \<noteq> [] \<and> (?tx \<or> (\<exists>i\<in>set inputs. ci_shutdown i))
            \<and> (rx' = Rx_Done \<or> (\<exists>i\<in>set inputs. \<exists>r\<in>set (ci_reads i). ends_rx r)) \<and> ci_sink (last inputs) \<noteq> None
            \<longrightarrow> state = Shutdown_Complete"
        by blast
      show ?thesis
      proof (intro exI [of _ state] conjI)
        show "poll_closes (input # inputs) (Local_Shutdown tx rx deadline) = Some state"
          using state step by (simp only: poll_closes.simps if_not_P [OF more] bind.bind_lunit)
        show "(\<exists>i\<in>set (input # inputs). deadline \<le> ci_now i) \<longrightarrow> state = Shutdown_Complete"
          using late False by auto
        show "state = Shutdown_Complete \<longrightarrow> (\<exists>i\<in>set (input # inputs). deadline \<le> ci_now i)
            \<or> (tx \<or> (\<exists>i\<in>set (input # inputs). ci_shutdown i))
              \<and> (rx = Rx_Done \<or> (\<exists>i\<in>set (input # inputs). \<exists>r\<in>set (ci_reads i). ends_rx r))"
          using early rx'(1) by auto
        show "input # inputs \<noteq> [] \<and> (tx \<or> (\<exists>i\<in>set (input # inputs). ci_shutdown i))
            \<and> (rx = Rx_Done \<or> (\<exists>i\<in>set (input # inputs). \<exists>r\<in>set (ci_reads i). ends_rx r)) \<and> ci_sink (last (input # inputs)) \<noteq> None
            \<longrightarrow> state = Shutdown_Complete"
        proof (cases "inputs = []")
          case True
          then show ?thesis using more rx'(1) by auto
        next
          case False
          then show ?thesis using sink rx'(1) by auto
        qed
      qed
    qed
  qed
qed simp

section \<open>A stream error\<close>

text \<open>
  \<^verbatim>\<open>SendStreamError\<close>, which \<^const>\<open>report\<close> takes as one step: the error that is still to be sent, and the deadline. A
  poll drops what it reads; it has a time, whether the stream is ready, how the sending goes, and how the flush does.
\<close>

datatype error_sending = Sending_Error "stream_error option" nat | Error_Failed

record error_input =
  ei_now :: nat
  ei_ready :: "(ustr + unit) option"
  ei_send :: "ustr + unit"
  ei_flush :: "(ustr + unit) option"

definition error_start :: "nat \<Rightarrow> stream_error \<Rightarrow> error_sending" where
  "error_start now e = Sending_Error (Some e) (now + LOCAL_SHUTDOWN_TIMEOUT)"

text \<open>The first result is what the poll sends.\<close>

definition poll_send_error :: "error_input \<Rightarrow> error_sending \<Rightarrow> stream_error list \<times> error_sending" where
  "poll_send_error input state =
     (case state of
        Error_Failed \<Rightarrow> ([], Error_Failed)
      | Sending_Error stream_error deadline \<Rightarrow>
          if deadline \<le> ei_now input then ([], Error_Failed)
          else
            let flush = (case ei_flush input of None \<Rightarrow> Sending_Error None deadline | Some _ \<Rightarrow> Error_Failed)
            in (case stream_error of
                  None \<Rightarrow> ([], flush)
                | Some e \<Rightarrow>
                    (case ei_ready input of
                       None \<Rightarrow> ([], Sending_Error (Some e) deadline)
                     | Some (Inl _) \<Rightarrow> ([], Error_Failed)
                     | Some (Inr _) \<Rightarrow>
                         (case ei_send input of Inl _ \<Rightarrow> ([], Error_Failed) | Inr _ \<Rightarrow> ([e], flush)))))"

fun poll_send_errors :: "error_input list \<Rightarrow> error_sending \<Rightarrow> stream_error list \<times> error_sending" where
  "poll_send_errors [] state = ([], state)"
| "poll_send_errors (input # inputs) state =
     (let (sent, state) = poll_send_error input state; (more, state) = poll_send_errors inputs state
      in (sent @ more, state))"

text \<open>
  The error is sent at most once, and by its deadline the connection has failed, without a session to resume. So
  \<^const>\<open>report\<close> is where all polls come to.
\<close>

lemma error_failed: "poll_send_errors inputs Error_Failed = ([], Error_Failed)"
  by (induction inputs) (simp_all add: poll_send_error_def)

lemma error_sent_once:
  "fst (poll_send_errors inputs (Sending_Error (Some e) deadline)) \<in> {[], [e]}
    \<and> fst (poll_send_errors inputs (Sending_Error None deadline)) = []"
proof (induction inputs)
  case (Cons input inputs)
  then show ?case
    by (auto simp: poll_send_error_def error_failed Let_def split: prod.splits option.splits sum.splits)
qed simp

lemma error_fails:
  "\<exists>i\<in>set inputs. deadline \<le> ei_now i \<Longrightarrow> snd (poll_send_errors inputs (Sending_Error e deadline)) = Error_Failed"
proof (induction inputs arbitrary: e)
  case (Cons input inputs)
  show ?case
  proof (cases "snd (poll_send_error input (Sending_Error e deadline)) = Error_Failed")
    case True
    then show ?thesis
      by (cases "poll_send_error input (Sending_Error e deadline)") (simp add: error_failed)
  next
    case False
    then have "ei_now input < deadline" and "\<exists>e'. snd (poll_send_error input (Sending_Error e deadline)) = Sending_Error e' deadline"
      by (auto simp: poll_send_error_def Let_def split: if_splits option.splits sum.splits)
    then obtain e' where "snd (poll_send_error input (Sending_Error e deadline)) = Sending_Error e' deadline" by blast
    moreover have "snd (poll_send_errors inputs (Sending_Error e' deadline)) = Error_Failed"
      using Cons \<open>ei_now input < deadline\<close> by auto
    ultimately show ?thesis
      by (simp add: case_prod_beta)
  qed
qed simp

section \<open>Closing a stream\<close>

text \<open>The queue stays closed, and a stream whose queue is closed never asks for another connection.\<close>

lemma tq_closed_simps [simp]:
  "tq_closed (snd (tq_fail q)) = tq_closed q" "tq_closed (requeue_all items q) = tq_closed q"
  "tq_closed (tq_take q) = tq_closed q" "tq_closed (tq_enqueue v q) = tq_closed q"
  by (simp_all add: tq_fail_def requeue_all_def tq_take_def tq_enqueue_def split: prod.splits)

lemma tq_poll_closed: "tq_poll_next q = (r, q') \<Longrightarrow> tq_closed q' = tq_closed q"
  using tq.next_closed [of q] by simp

lemma connected_closed:
  assumes "stream_connected ping state event ss = (events, redial, ss')" "tq_closed (ss_queue ss)"
  shows "\<not> redial \<and> tq_closed (ss_queue ss')"
  using assms
  by (auto simp: stream_connected_def stream_lost_def Let_def
      split: worker_stream.splits option.splits connected_event.splits worker_event.splits prod.splits bool.splits)

lemma receive_closed:
  "negotiation_receive B flushed r neg q = (tokens, step, q') \<Longrightarrow> tq_closed q' = tq_closed q"
  by (auto simp: negotiation_receive_def receive_sm_def Let_def
      split: negotiation_state.splits option.splits sum.splits stream_element.splits read_error.splits prod.splits)

lemma transmit_closed:
  "transmit_next failure sm q = Some (Some (token, sm', q')) \<Longrightarrow> tq_closed q' = tq_closed q"
  by (auto simp: transmit_next_def dest: tq_poll_closed split: prod.splits poll.splits option.splits)

lemma poll_closed:
  assumes "stream_poll B ping input ss = Some (out, ss')" "tq_closed (ss_queue ss)"
  shows "\<not> po_redial out \<and> tq_closed (ss_queue ss')"
proof (cases "ss_stream ss")
  case (WS_Connecting sm)
  then show ?thesis
    using assms
    by (cases input) (auto simp: stream_poll_def stream_slot_def stream_force_disconnect_def bind_eq_Some_conv
        split: option.splits sum.splits)
next
  case WS_Terminated
  then show ?thesis
    using assms by (cases input) (auto simp: stream_poll_def stream_force_disconnect_def)
next
  case up: (WS_Connected state f i)
  have conn: ?thesis
    if "polled tokens requests (stream_connected ping state' event (ss\<lparr>ss_queue := q\<rparr>)) = Some (out, ss')" "tq_closed q"
    for tokens requests state' event q
    using that connected_closed [of ping state' event "ss\<lparr>ss_queue := q\<rparr>"]
    by (cases "stream_connected ping state' event (ss\<lparr>ss_queue := q\<rparr>)") auto
  have conn': ?thesis if "polled tokens requests (stream_connected ping state' event ss) = Some (out, ss')" for tokens requests state' event
    using conn [of tokens requests state' event "ss_queue ss"] that assms(2) by simp
  show ?thesis
  proof (cases input)
    case (In_Negotiation_Read flushed r)
    then show ?thesis
      using up assms
      by (cases state)
        (auto simp: stream_poll_def bind_eq_Some_conv split: prod.splits dest!: receive_closed dest: conn)
  next
    case (In_Transmit failure)
    then show ?thesis
      using up assms
      by (cases state)
        (auto simp: stream_poll_def bind_eq_Some_conv split: option.splits prod.splits dest!: transmit_closed dest: conn)
  next
    case In_Watchdog
    then show ?thesis
      using up assms
      by (auto simp: stream_poll_def stream_force_disconnect_def connected_force_disconnect_def stream_lost_def Let_def
          split: connected_state.splits)
  qed (use up assms in \<open>cases state; auto simp: stream_poll_def bind_eq_Some_conv split: prod.splits dest: conn'\<close>)+
qed

text \<open>
  A poll of a stream whose queue is closed: the round of writes that finds nothing left ends the loop, and a loop that has ended polls
  nothing. The tokens that it updates are collected.
\<close>

definition close_poll ::
  "'e stream_library \<Rightarrow> (u64 \<Rightarrow> 'q) \<Rightarrow> 'e stream_input \<Rightarrow> 'q stanza_stream
    \<Rightarrow> ('q token_update list \<times> 'q stanza_stream) option" where
  "close_poll B ping input ss =
     (if \<not> ss_running ss then Some ([], ss)
      else case (input, stream_drained ss) of
        (In_Transmit _, Some ended) \<Rightarrow> Some ([], ended)
      | _ \<Rightarrow> map_option (\<lambda>(out, ss'). (po_tokens out, ss')) (stream_poll B ping input ss))"

fun close_polls ::
  "'e stream_library \<Rightarrow> (u64 \<Rightarrow> 'q) \<Rightarrow> 'e stream_input list \<Rightarrow> 'q stanza_stream
    \<Rightarrow> ('q token_update list \<times> 'q stanza_stream) option" where
  "close_polls B ping [] ss = Some ([], ss)"
| "close_polls B ping (input # inputs) ss =
     Option.bind (close_poll B ping input ss) (\<lambda>(tokens, ss).
       map_option (\<lambda>(more, ss). (tokens @ more, ss)) (close_polls B ping inputs ss))"

text \<open>What the stream was handed, in order, sent or failed; the rounds of writes; the timeouts that may queue a probe.\<close>

fun handed_token :: "'q token_update \<Rightarrow> 'q list" where
  "handed_token (Token_Sent v) = [v]"
| "handed_token (Token_Failed v) = [v]"
| "handed_token (Token_Acked v) = []"

abbreviation handed :: "'q token_update list \<Rightarrow> 'q list" where
  "handed tokens \<equiv> concat (map handed_token tokens)"

fun is_transmit :: "'e stream_input \<Rightarrow> bool" where
  "is_transmit (In_Transmit _) = True"
| "is_transmit _ = False"

fun is_timeout :: "'e stream_input \<Rightarrow> bool" where
  "is_timeout (In_Read (Some (Inl Re_SoftTimeout))) = True"
| "is_timeout _ = False"

abbreviation transmits :: "'e stream_input list \<Rightarrow> nat" where
  "transmits inputs \<equiv> length (filter is_transmit inputs)"

abbreviation timeouts :: "'e stream_input list \<Rightarrow> nat" where
  "timeouts inputs \<equiv> length (filter is_timeout inputs)"

lemma handed_acked [simp]: "handed (map Token_Acked acked) = []"
  by (induction acked) simp_all

text \<open>There is room for \<open>n\<close> more unacknowledged stanzas.\<close>

definition has_room :: "nat \<Rightarrow> 'q sm_state option \<Rightarrow> bool" where
  "has_room n sm = (case sm of None \<Rightarrow> True | Some sm \<Rightarrow> length (sm_unacked sm) + n \<le> MAX_QUEUE_SIZE)"

lemma drained_iff:
  assumes "ss_stream ss = WS_Connected (CS_Ready sm) f i" "tq_closed (ss_queue ss)"
  shows "stream_drained ss = (if tq_content (ss_queue ss) = [] then Some (ss\<lparr>ss_running := False\<rparr>) else None)"
  using assms by (cases "ss_queue ss" rule: tq_poll_cases) (auto simp: stream_drained_def)

text \<open>The counter of answers that are still to be written does not overflow in \<open>n\<close> more reads.\<close>

definition acks_room :: "nat \<Rightarrow> 'q sm_state option \<Rightarrow> bool" where
  "acks_room n sm = (case sm of None \<Rightarrow> True | Some sm \<Rightarrow> sm_pending_acks sm + n < 2 ^ 64)"

text \<open>What one poll makes of what is queued: nothing, it takes the first stanza, or it puts a probe somewhere.\<close>

definition moves :: "'e stream_input \<Rightarrow> 'q token_update list \<Rightarrow> 'q list \<Rightarrow> 'q list \<Rightarrow> bool" where
  "moves input tokens vs vs' \<longleftrightarrow>
     (if is_transmit input then \<exists>v. handed tokens = [v] \<and> vs = v # vs'
      else handed tokens = [] \<and> (vs' = vs \<or> is_timeout input \<and> (\<exists>a b p. vs = a @ b \<and> vs' = a @ p # b)))"

definition still_ready ::
  "nat \<Rightarrow> 'e stream_input \<Rightarrow> 'q list \<Rightarrow> 'q token_update list \<Rightarrow> 'q stanza_stream \<Rightarrow> bool" where
  "still_ready n input vs tokens ss' \<longleftrightarrow> (\<exists>sm' f i. ss_stream ss' = WS_Connected (CS_Ready sm') f i \<and> ss_running ss'
     \<and> tq_closed (ss_queue ss') \<and> has_room (length (tq_content (ss_queue ss'))) sm' \<and> acks_room n sm'
     \<and> moves input tokens vs (tq_content (ss_queue ss')))"

definition comes_to_end :: "'q list \<Rightarrow> 'q token_update list \<Rightarrow> 'q stanza_stream \<Rightarrow> bool" where
  "comes_to_end vs tokens ss' \<longleftrightarrow> handed tokens = [] \<and> tq_content (ss_queue ss') = vs \<and> tq_closed (ss_queue ss')
     \<and> (if ss_running ss' then ending (ss_stream ss')
        else transmitting (ss_stream ss') \<and> vs = [] \<or> (\<exists>sm. ss_stream ss' = WS_Connecting sm))"

lemma subseq_insert: "subseq (a @ b) (a @ p # b)"
  by (intro list_emb_append_mono subseq_order.refl list_emb_Cons)

lemma enqueue_content:
  "\<exists>a b. tq_content q = a @ b \<and> tq_content (tq_enqueue p q) = a @ p # b"
  by (intro exI [of _ "tq_peek q"] exI [of _ "tq_inner q"]) (simp add: tq_content_def tq_enqueue_def)

lemma transmit_step:
  assumes up: "ss_stream ss = WS_Connected (CS_Ready sm) f i" "ss_running ss" "tq_closed (ss_queue ss)"
    and room: "has_room (length (tq_content (ss_queue ss))) sm" "acks_room (Suc n) sm"
  shows "\<exists>tokens ss'. close_poll B ping (In_Transmit failure) ss = Some (tokens, ss')
    \<and> (still_ready n (In_Transmit failure) (tq_content (ss_queue ss)) tokens ss' \<or> comes_to_end (tq_content (ss_queue ss)) tokens ss')"
proof (cases "tq_content (ss_queue ss)")
  case Nil
  then have "close_poll B ping (In_Transmit failure) ss = Some ([], ss\<lparr>ss_running := False\<rparr>)"
    using up by (simp add: close_poll_def drained_iff)
  then show ?thesis
    using up Nil by (simp add: comes_to_end_def)
next
  case (Cons v vs)
  obtain q' where q': "tq_poll_next (ss_queue ss) = (Poll_Ready (Some v), q')" "tq_content (tq_take q') = vs"
    using Cons by (cases "ss_queue ss" rule: tq_poll_cases) auto
  have "\<exists>token sm'. transmit_next failure sm (ss_queue ss) = Some (Some (token, sm', tq_take q'))
    \<and> handed_token token = [v] \<and> has_room (length vs) sm' \<and> acks_room n sm'"
    using room q'(1) Cons
    by (cases sm; cases failure) (auto simp: transmit_next_def has_room_def acks_room_def sm_enqueue_def)
  then obtain token sm' where sm': "transmit_next failure sm (ss_queue ss) = Some (Some (token, sm', tq_take q'))"
    "handed_token token = [v]" "has_room (length vs) sm'" "acks_room n sm'" by blast
  let ?ss = "ss\<lparr>ss_stream := WS_Connected (CS_Ready sm') f i, ss_queue := tq_take q'\<rparr>"
  have "stream_poll B ping (In_Transmit failure) ss
      = Some (\<lparr>po_tokens = [token], po_requests = [], po_events = [], po_redial = False\<rparr>, ?ss)"
    using up(1) sm'(1) by (simp add: stream_poll_def stream_connected_def polled_def)
  then have "close_poll B ping (In_Transmit failure) ss = Some ([token], ?ss)"
    using up Cons by (simp add: close_poll_def drained_iff)
  moreover have "still_ready n (In_Transmit failure) (tq_content (ss_queue ss)) [token] ?ss"
    using up sm' q' Cons tq_poll_closed [OF q'(1)] by (simp add: still_ready_def moves_def)
  ultimately show ?thesis by blast
qed

lemma acked_shrinks:
  assumes "remote_acked h sm = (Inr acked, sm')"
  shows "length (sm_unacked sm') \<le> length (sm_unacked sm) \<and> sm_pending_acks sm' = sm_pending_acks sm"
  using assms unfolding remote_acked_def Let_def
  by (simp split: if_splits) auto

lemma acked_room:
  assumes "remote_acked h sm = (Inr acked, sm')"
  shows "has_room n (Some sm) \<Longrightarrow> has_room n (Some sm')" and "acks_room (Suc k) (Some sm) \<Longrightarrow> acks_room k (Some sm')"
  using acked_shrinks [OF assms] by (simp_all add: has_room_def acks_room_def)

lemma read_step:
  assumes up: "ss_stream ss = WS_Connected (CS_Ready sm) f i" "ss_running ss" "tq_closed (ss_queue ss)"
    and room: "has_room (length (tq_content (ss_queue ss))) sm" "acks_room (Suc n) sm"
  shows "\<exists>tokens ss'. close_poll B ping (In_Read r) ss = Some (tokens, ss')
    \<and> (still_ready n (In_Read r) (tq_content (ss_queue ss)) tokens ss' \<or> comes_to_end (tq_content (ss_queue ss)) tokens ss')"
proof -
  note defs = close_poll_def stream_poll_def stream_connected_def polled_def still_ready_def comes_to_end_def moves_def
    connected_send_stream_error_def connected_queue_sm_request_def stream_lost_def
  have keep: "has_room k (map_option sm_received sm) = has_room k sm" "acks_room n (map_option sm_received sm)" "acks_room n sm" for k
    using room(2) by (auto simp: has_room_def acks_room_def sm_received_def split: option.splits)
  show ?thesis
  proof (cases "read_item r")
    case (Inl e)
    show ?thesis
    proof (cases e)
      case Re_SoftTimeout
      then have timeout: "is_timeout (In_Read r)"
        using Inl by (auto simp: read_item_def split: option.splits)
      show ?thesis
      proof (cases sm)
        case None
        then show ?thesis
          using up Inl Re_SoftTimeout timeout enqueue_content [of "ss_queue ss"]
          by (auto simp: defs ready_read_def has_room_def acks_room_def Let_def)
      next
        case (Some st)
        then show ?thesis
          using up room Inl Re_SoftTimeout keep by (simp add: defs ready_read_def has_room_def acks_room_def)
      qed
    qed (use up room Inl keep in \<open>simp_all add: defs ready_read_def\<close>)
  next
    case (Inr el)
    show ?thesis
    proof (cases el)
      case (El_Ok v)
      show ?thesis
      proof (cases v)
        case (El_Ack h)
        show ?thesis
        proof (cases sm)
          case None
          then show ?thesis
            using up room keep Inr El_Ok El_Ack by (simp add: defs ready_read_def)
        next
          case (Some st)
          obtain res sm' where acked: "remote_acked h st = (res, sm')" by fastforce
          show ?thesis
          proof (cases res)
            case (Inl err)
            then show ?thesis
              using up Inr El_Ok El_Ack Some acked by (simp add: defs ready_read_def)
          next
            case ok: (Inr l)
            then show ?thesis
              using up room Inr El_Ok El_Ack Some acked acked_room [of h st l sm'] by (simp add: defs ready_read_def)
          qed
        qed
      next
        case El_Request
        then show ?thesis
          using up room Inr El_Ok by (cases sm) (simp_all add: defs ready_read_def has_room_def acks_room_def)
      qed (use up room Inr El_Ok keep in \<open>simp_all add: defs ready_read_def\<close>)
    qed (use up room Inr keep in \<open>simp_all add: defs ready_read_def\<close>)
  qed
qed

text \<open>A poll of a stream that still transmits.\<close>

lemma ready_step:
  assumes up: "ss_stream ss = WS_Connected (CS_Ready sm) f i" "ss_running ss" "tq_closed (ss_queue ss)"
    and room: "has_room (length (tq_content (ss_queue ss))) sm" "acks_room (Suc n) sm"
  shows "\<exists>tokens ss'. close_poll B ping input ss = Some (tokens, ss')
    \<and> (still_ready n input (tq_content (ss_queue ss)) tokens ss' \<or> comes_to_end (tq_content (ss_queue ss)) tokens ss')"
proof -
  have "acks_room n sm"
    using room(2) by (auto simp: acks_room_def split: option.splits)
  note same = this
  consider failure where "input = In_Transmit failure" | r where "input = In_Read r"
    | "\<not> is_transmit input" "\<forall>r. input \<noteq> In_Read r"
    by (cases input) auto
  then show ?thesis
  proof cases
    case 1
    then show ?thesis using transmit_step [OF up room, of B ping failure] by simp
  next
    case 2
    then show ?thesis using read_step [OF up room, of B ping r] by simp
  next
    case 3
    then show ?thesis
      using same up room
      by (cases input)
        (auto simp: close_poll_def stream_poll_def stream_connected_def polled_def still_ready_def comes_to_end_def moves_def
          report_def stream_force_disconnect_def connected_force_disconnect_def stream_lost_def)
  qed
qed

text \<open>Of one that has come to its end.\<close>

lemma end_poll:
  assumes "comes_to_end vs tokens ss" "ss_running ss"
  shows "close_poll B ping input ss = map_option (\<lambda>(out, ss'). (po_tokens out, ss')) (stream_poll B ping input ss)"
proof -
  have "ending (ss_stream ss)"
    using assms by (simp add: comes_to_end_def)
  then have "stream_drained ss = None"
    by (cases "ss_stream ss" rule: ending.cases) (simp_all add: stream_drained_def)
  then show ?thesis
    using assms(2) by (cases input) (simp_all add: close_poll_def)
qed

lemma end_report:
  assumes "comes_to_end vs tokens ss" "ss_running ss"
  obtains ss' where "close_poll B ping In_Report ss = Some ([], ss')" "comes_to_end vs [] ss'"
    "ss_running ss' \<longrightarrow> (\<exists>e f i. ss_stream ss = WS_Connected (CS_SendStreamError e) f i)
       \<and> (\<exists>f i. ss_stream ss' = WS_Connected (CS_Failed None) f i)"
proof -
  note found = that
  have ending: "ending (ss_stream ss)" and queue: "tq_content (ss_queue ss) = vs" "tq_closed (ss_queue ss)"
    using assms by (simp_all add: comes_to_end_def)
  have suspends: thesis if up: "ss_stream ss = WS_Connected state f i" "state = CS_Failed sm \<or> state = CS_RemoteShutdown sm" for state f i sm
  proof -
    obtain out ss' where "stream_poll B ping In_Report ss = Some (out, ss')" "po_tokens out = []"
      "ss_stream ss' = WS_Connecting sm" "ss_queue ss' = ss_queue ss" "\<not> ss_running ss'"
      using report_suspends [OF up, of B ping] queue(2) by metis
    then show thesis
      using found [of ss'] end_poll [OF assms, of B ping In_Report] queue by (simp add: comes_to_end_def)
  qed
  show thesis
  proof (cases "ss_stream ss" rule: ending.cases)
    case (1 e f i)
    then show thesis
      using found end_poll [OF assms, of B ping In_Report] report_reports(1) [OF 1, of B ping] queue assms(2)
      by (simp add: comes_to_end_def)
  qed (use suspends ending in auto)
qed

lemma end_step:
  assumes "comes_to_end vs tokens ss"
  shows "\<exists>ss'. close_poll B ping input ss = Some ([], ss') \<and> comes_to_end vs [] ss'"
proof (cases "ss_running ss")
  case False
  then show ?thesis
    using assms by (simp add: close_poll_def comes_to_end_def)
next
  case True
  show ?thesis
  proof (cases "input = In_Report")
    case report: True
    then show ?thesis
      using end_report [OF assms True] by metis
  next
    case False
    moreover have "ending (ss_stream ss)"
      using assms True by (simp add: comes_to_end_def)
    ultimately show ?thesis
      using ending_waits [of ss input B ping] end_poll [OF assms True, of B ping input] assms by (simp add: comes_to_end_def)
  qed
qed

lemma end_steps:
  "comes_to_end vs tokens ss \<Longrightarrow> \<exists>ss'. close_polls B ping inputs ss = Some ([], ss') \<and> comes_to_end vs [] ss'"
proof (induction inputs arbitrary: tokens ss)
  case Nil
  then show ?case by (simp add: comes_to_end_def)
next
  case (Cons input inputs)
  obtain ss1 where "close_poll B ping input ss = Some ([], ss1)" "comes_to_end vs [] ss1"
    using end_step [OF Cons.prems] by blast
  with Cons.IH [OF this(2)] show ?case by auto
qed

lemma end_reports:
  assumes "comes_to_end vs tokens ss"
  shows "\<exists>ended. close_polls B ping [In_Report, In_Report] ss = Some ([], ended) \<and> \<not> ss_running ended"
proof -
  have over: "close_poll B ping In_Report ss' = Some ([], ss')" if "\<not> ss_running ss'" for ss'
    using that by (simp add: close_poll_def)
  show ?thesis
  proof (cases "ss_running ss")
    case True
    obtain ss1 where ss1: "close_poll B ping In_Report ss = Some ([], ss1)" "comes_to_end vs [] ss1"
      "ss_running ss1 \<longrightarrow> (\<exists>f i. ss_stream ss1 = WS_Connected (CS_Failed None) f i)"
      using end_report [OF assms True] by metis
    show ?thesis
    proof (cases "ss_running ss1")
      case True
      obtain ss2 where "close_poll B ping In_Report ss1 = Some ([], ss2)"
        "ss_running ss2 \<longrightarrow> (\<exists>e f i. ss_stream ss1 = WS_Connected (CS_SendStreamError e) f i)"
        using end_report [OF ss1(2) True, of B ping] by metis
      then show ?thesis using ss1(1,3) True by auto
    qed (use ss1(1) over in simp)
  qed (use over in simp)
qed

text \<open>Any polls at all: nothing that was queued is lost or turned around, and the rounds of writes are counted.\<close>

lemma closing_polls:
  assumes "ss_stream ss = WS_Connected (CS_Ready sm) f i" "ss_running ss" "tq_closed (ss_queue ss)"
    "has_room (length (tq_content (ss_queue ss))) sm" "acks_room (length inputs) sm"
  shows "\<exists>tokens ss'. close_polls B ping inputs ss = Some (tokens, ss')
    \<and> subseq (tq_content (ss_queue ss)) (handed tokens @ tq_content (ss_queue ss'))
    \<and> length (handed tokens @ tq_content (ss_queue ss')) \<le> length (tq_content (ss_queue ss)) + timeouts inputs
    \<and> (transmitting (ss_stream ss') \<and> ss_running ss' \<and> length (handed tokens) = transmits inputs
       \<or> comes_to_end (tq_content (ss_queue ss')) [] ss')"
  using assms
proof (induction inputs arbitrary: ss sm f i)
  case (Cons input inputs)
  let ?vs = "tq_content (ss_queue ss)"
  obtain tokens ss1 where poll: "close_poll B ping input ss = Some (tokens, ss1)"
    and step: "still_ready (length inputs) input ?vs tokens ss1 \<or> comes_to_end ?vs tokens ss1"
    using ready_step [OF Cons.prems(1-4), of "length inputs" B ping input] Cons.prems(5) by auto
  from step show ?case
  proof
    assume ended: "comes_to_end ?vs tokens ss1"
    from end_steps [OF ended, of B ping inputs] obtain ss' where rest: "close_polls B ping inputs ss1 = Some ([], ss')"
      "comes_to_end ?vs [] ss'" by blast
    have none: "handed tokens = []" and queue: "tq_content (ss_queue ss') = ?vs"
      using ended rest(2) by (simp_all only: comes_to_end_def)
    have "close_polls B ping (input # inputs) ss = Some (tokens, ss')"
      using poll rest(1) by simp
    then show ?thesis
      by (intro exI [of _ tokens] exI [of _ ss']) (use rest(2) in \<open>simp add: none queue del: close_polls.simps\<close>)
  next
    assume ready: "still_ready (length inputs) input ?vs tokens ss1"
    then obtain sm' f' i' where up: "ss_stream ss1 = WS_Connected (CS_Ready sm') f' i'" "ss_running ss1"
      "tq_closed (ss_queue ss1)" "has_room (length (tq_content (ss_queue ss1))) sm'" "acks_room (length inputs) sm'"
      and moves: "moves input tokens ?vs (tq_content (ss_queue ss1))"
      by (auto simp: still_ready_def)
    from Cons.IH [OF up] obtain more ss' where rest: "close_polls B ping inputs ss1 = Some (more, ss')"
      "subseq (tq_content (ss_queue ss1)) (handed more @ tq_content (ss_queue ss'))"
      "length (handed more @ tq_content (ss_queue ss')) \<le> length (tq_content (ss_queue ss1)) + timeouts inputs"
      "transmitting (ss_stream ss') \<and> ss_running ss' \<and> length (handed more) = transmits inputs
       \<or> comes_to_end (tq_content (ss_queue ss')) [] ss'"
      by blast
    have first: "subseq ?vs (handed tokens @ tq_content (ss_queue ss1))
      \<and> length (handed tokens @ tq_content (ss_queue ss1)) \<le> length ?vs + timeouts [input]
      \<and> length (handed tokens) = transmits [input]"
      using moves by (auto simp: moves_def subseq_insert split: if_splits)
    have "subseq ?vs (handed (tokens @ more) @ tq_content (ss_queue ss'))"
      using subseq_order.order_trans [OF first [THEN conjunct1] list_emb_append_mono [OF subseq_order.refl rest(2)]] by simp
    then show ?thesis
      using poll rest first by auto
  qed
qed (simp add: comes_to_end_def)

text \<open>
  A stream that is dialling again is not closed by the end of its queue: only what the reconnector leaves in the slot
  moves it, and a connection it leaves there is negotiated first. So who waits for the close waits for the reconnector,
  though a closed stream never asks for another connection.
\<close>

lemma close_waits_for_link:
  assumes "ss_stream ss = WS_Connecting sm"
  shows "stream_drained (stream_close ss) = None"
    and "\<forall>v. input \<noteq> In_Slot v \<Longrightarrow> stream_poll B ping input (stream_close ss)
      = Some (\<lparr>po_tokens = [], po_requests = [], po_events = [], po_redial = False\<rparr>, stream_close ss)"
    and "stream_poll B ping (In_Slot (Some (Inr conn))) (stream_close ss) = Some (out, ss')
      \<Longrightarrow> (\<exists>neg. ss_stream ss' = WS_Connected (CS_Negotiating neg) (co_features conn) (co_identity conn))
        \<and> ss_running ss' = ss_running ss \<and> stream_drained ss' = None"
    and "stream_poll B ping input (stream_close ss) = Some (out, ss') \<Longrightarrow> \<not> po_redial out"
proof -
  have close: "ss_stream (stream_close ss) = WS_Connecting sm" "ss_running (stream_close ss) = ss_running ss"
    "tq_closed (ss_queue (stream_close ss))"
    using assms by (simp_all add: stream_close_def)
  show "stream_drained (stream_close ss) = None"
    using close(1) by (simp add: stream_drained_def)
  show "\<forall>v. input \<noteq> In_Slot v \<Longrightarrow> stream_poll B ping input (stream_close ss)
      = Some (\<lparr>po_tokens = [], po_requests = [], po_events = [], po_redial = False\<rparr>, stream_close ss)"
    using close(1) by (cases input) (auto simp: stream_poll_def stream_force_disconnect_def)
  show "stream_poll B ping (In_Slot (Some (Inr conn))) (stream_close ss) = Some (out, ss')
      \<Longrightarrow> (\<exists>neg. ss_stream ss' = WS_Connected (CS_Negotiating neg) (co_features conn) (co_identity conn))
        \<and> ss_running ss' = ss_running ss \<and> stream_drained ss' = None"
    using close(1,2) by (auto simp: stream_poll_def stream_slot_def stream_drained_def split: sum.splits)
  show "stream_poll B ping input (stream_close ss) = Some (out, ss') \<Longrightarrow> \<not> po_redial out"
    using poll_closed close(3) by blast
qed

text \<open>The shutdown of a connection, from its start.\<close>

lemma shutdown_polls:
  fixes polls :: "'r close_input list"
  assumes "footers (concat (map ci_reads polls)) \<le> 1" and "transmitting ws"
  shows "let late = (\<exists>poll\<in>set polls. now + LOCAL_SHUTDOWN_TIMEOUT \<le> ci_now poll);
        both = (\<exists>poll\<in>set polls. ci_shutdown poll) \<and> (\<exists>poll\<in>set polls. \<exists>r\<in>set (ci_reads poll). ends_rx r)
    in \<exists>state. poll_closes polls (close_start now ws) = Some state
      \<and> (late \<or> both \<and> ci_sink (last polls) \<noteq> None \<longrightarrow> state = Shutdown_Complete)
      \<and> (state = Shutdown_Complete \<longrightarrow> late \<or> both)"
proof -
  let ?start = "Local_Shutdown False Rx_AwaitingFooter (now + LOCAL_SHUTDOWN_TIMEOUT)"
  have start: "close_start now ws = ?start"
    using assms(2) by (cases ws rule: transmitting.cases) (simp_all add: close_start_def)
  have few: "Rx_AwaitingFooter \<noteq> Rx_Done \<longrightarrow> footers (concat (map ci_reads polls)) + footers_seen Rx_AwaitingFooter \<le> 1"
    using assms(1) by simp
  have "\<exists>state. poll_closes polls ?start = Some state
    \<and> ((\<exists>p\<in>set polls. now + LOCAL_SHUTDOWN_TIMEOUT \<le> ci_now p) \<longrightarrow> state = Shutdown_Complete)
    \<and> (state = Shutdown_Complete \<longrightarrow> (\<exists>p\<in>set polls. now + LOCAL_SHUTDOWN_TIMEOUT \<le> ci_now p)
      \<or> (\<exists>p\<in>set polls. ci_shutdown p) \<and> (\<exists>p\<in>set polls. \<exists>r\<in>set (ci_reads p). ends_rx r))
    \<and> (polls \<noteq> [] \<and> (\<exists>p\<in>set polls. ci_shutdown p) \<and> (\<exists>p\<in>set polls. \<exists>r\<in>set (ci_reads p). ends_rx r)
      \<and> ci_sink (last polls) \<noteq> None \<longrightarrow> state = Shutdown_Complete)"
    using poll_closes_spec [OF few, of False "now + LOCAL_SHUTDOWN_TIMEOUT"] by simp
  then obtain state where state: "poll_closes polls ?start = Some state"
    "(\<exists>p\<in>set polls. now + LOCAL_SHUTDOWN_TIMEOUT \<le> ci_now p) \<longrightarrow> state = Shutdown_Complete"
    "state = Shutdown_Complete \<longrightarrow> (\<exists>p\<in>set polls. now + LOCAL_SHUTDOWN_TIMEOUT \<le> ci_now p)
      \<or> (\<exists>p\<in>set polls. ci_shutdown p) \<and> (\<exists>p\<in>set polls. \<exists>r\<in>set (ci_reads p). ends_rx r)"
    "polls \<noteq> [] \<and> (\<exists>p\<in>set polls. ci_shutdown p) \<and> (\<exists>p\<in>set polls. \<exists>r\<in>set (ci_reads p). ends_rx r)
      \<and> ci_sink (last polls) \<noteq> None \<longrightarrow> state = Shutdown_Complete"
    by (elim exE conjE) (rule that)
  then show ?thesis
    unfolding Let_def start by (intro exI [of _ state]) (cases "polls = []"; simp)
qed

text \<open>C31: Closing a client with an established stream ends. However the polls of the closed stream are mixed -
  rounds of writes that send a stanza or fail to serialise it, writes that fail, whatever is read, the watchdog -
  the worker does not panic, and what was queued has been handed to the stream in its order or is still queued in
  it, with at most one probe for each timeout in between. The loop runs on only while there were no more rounds
  of writes than stanzas and timeouts, or while the connection is ending, and then two reports end it. A loop
  that ended has handed everything over, or it has lost the connection, and what is still queued goes with it.
  Then the connection is shut down, whatever the server sends or does not send: at the first poll ten seconds
  later, or once both directions are closed and the sink answers, and not before. What the server must not do is
  to send a second stream footer meanwhile, or to leave so many stanzas without an acknowledgement, or ask for so
  many, that their queue or their counter is full: these are panics.\<close>

theorem closed_stream_ends:
  fixes ss :: "'q stanza_stream" and B :: "'e stream_library" and polls :: "'r close_input list"
  assumes "ss_stream ss = WS_Connected (CS_Ready sm) f i" and "ss_running ss"
    and "has_room (length (tq_content (ss_queue ss))) sm" and "acks_room (length inputs) sm"
    and "length (filter is_footer (concat (map ci_reads polls))) \<le> 1"
  shows "\<exists>tokens ss'. close_polls B ping inputs (stream_close ss) = Some (tokens, ss')
    \<and> subseq (tq_content (ss_queue ss)) (handed tokens @ tq_content (ss_queue ss'))
    \<and> length (handed tokens @ tq_content (ss_queue ss')) \<le> length (tq_content (ss_queue ss)) + timeouts inputs
    \<and> (if ss_running ss'
       then transmitting (ss_stream ss') \<and> transmits inputs \<le> length (tq_content (ss_queue ss)) + timeouts inputs
         \<or> (\<exists>ended. close_polls B ping [In_Report, In_Report] ss' = Some ([], ended) \<and> \<not> ss_running ended)
       else transmitting (ss_stream ss') \<and> tq_content (ss_queue ss') = [] \<or> (\<exists>sm. ss_stream ss' = WS_Connecting sm))
    \<and> (transmitting (ss_stream ss') \<longrightarrow>
        (let late = (\<exists>poll\<in>set polls. now + LOCAL_SHUTDOWN_TIMEOUT \<le> ci_now poll);
             both = (\<exists>poll\<in>set polls. ci_shutdown poll) \<and> (\<exists>poll\<in>set polls. \<exists>r\<in>set (ci_reads poll). ends_rx r)
         in \<exists>state. poll_closes polls (close_start now (ss_stream ss')) = Some state
           \<and> (late \<or> both \<and> ci_sink (last polls) \<noteq> None \<longrightarrow> state = Shutdown_Complete)
           \<and> (state = Shutdown_Complete \<longrightarrow> late \<or> both)))
    \<and> (\<not> transmitting (ss_stream ss') \<and> \<not> ss_running ss' \<longrightarrow> poll_closes polls (close_start now (ss_stream ss')) = Some Shutdown_Complete)"
proof -
  have close: "ss_stream (stream_close ss) = WS_Connected (CS_Ready sm) f i" "ss_running (stream_close ss)"
    "tq_closed (ss_queue (stream_close ss))" "tq_content (ss_queue (stream_close ss)) = tq_content (ss_queue ss)"
    using assms(1,2) by (simp_all add: stream_close_def tq_content_def)
  obtain tokens ss' where polls: "close_polls B ping inputs (stream_close ss) = Some (tokens, ss')"
    "subseq (tq_content (ss_queue ss)) (handed tokens @ tq_content (ss_queue ss'))"
    "length (handed tokens @ tq_content (ss_queue ss')) \<le> length (tq_content (ss_queue ss)) + timeouts inputs"
    and settled: "transmitting (ss_stream ss') \<and> ss_running ss' \<and> length (handed tokens) = transmits inputs
       \<or> comes_to_end (tq_content (ss_queue ss')) [] ss'"
    using closing_polls [OF close(1-3), unfolded close(4), OF assms(3,4), of B ping] by blast
  have over: "poll_closes polls (close_start now (ss_stream ss')) = Some Shutdown_Complete"
    if "\<not> transmitting (ss_stream ss')" "\<not> ss_running ss'"
    using that settled by (auto simp: comes_to_end_def close_start_def poll_closes_complete)
  have loop: "if ss_running ss'
     then transmitting (ss_stream ss') \<and> transmits inputs \<le> length (tq_content (ss_queue ss)) + timeouts inputs
       \<or> (\<exists>ended. close_polls B ping [In_Report, In_Report] ss' = Some ([], ended) \<and> \<not> ss_running ended)
     else transmitting (ss_stream ss') \<and> tq_content (ss_queue ss') = [] \<or> (\<exists>sm. ss_stream ss' = WS_Connecting sm)"
    using settled polls(3) end_reports [of "tq_content (ss_queue ss')" "[]" ss' B ping]
    by (auto simp: comes_to_end_def simp del: close_polls.simps)
  show ?thesis
    by (intro exI [of _ tokens] exI [of _ ss'] conjI polls loop)
      (use shutdown_polls [OF assms(5)] over in blast)+
qed

text \<open>
  Two stanzas are queued; between their writes the server acknowledges one and asks for an answer. Then it answers
  the end of the stream with its own and closes.
\<close>

definition demo_polls :: "unit close_input list" where
  "demo_polls = [\<lparr>ci_now = 20, ci_shutdown = True, ci_reads = [], ci_sink = None\<rparr>,
     \<lparr>ci_now = 35, ci_shutdown = False, ci_reads = [Some (Inl Re_StreamFooterReceived), None], ci_sink = Some (Inr ())\<rparr>]"

definition demo_mixed :: "unit stream_input list" where
  "demo_mixed = [In_Transmit None, In_Read (Some (Inr (El_Ok (El_Ack 1)))), In_Transmit (Some []),
     In_Read (Some (Inr (El_Ok El_Request))), In_Transmit None]"

lemma demo_closed:
  obtains tokens ss' where "close_polls demo_library unat demo_mixed (stream_close (demo_session [10, 20])) = Some (tokens, ss')"
    "\<not> ss_running ss'" "transmitting (ss_stream ss')"
  by (simp add: demo_mixed_def close_poll_def stream_drained_def stream_close_def poll_defs ready_read_def read_item_def
      demo_session_def demo_enabled_def tq_wrap_def sm_from_enabled_def remote_acked_def stream_connected_def polled_def)

theorem closed_stream_ends_witness:
  "\<exists>tokens ss'. close_polls demo_library unat demo_mixed (stream_close (demo_session [10, 20])) = Some (tokens, ss')
    \<and> \<not> ss_running ss' \<and> subseq [10, 20] (handed tokens)
    \<and> poll_closes demo_polls (close_start 5 (ss_stream ss')) = Some Shutdown_Complete"
proof -
  let ?ss = "demo_session [10, 20]"
  have up: "ss_stream ?ss = WS_Connected (CS_Ready (Some (sm_from_enabled demo_enabled))) demo_features []"
    and running: "ss_running ?ss" and content: "tq_content (ss_queue ?ss) = [10, 20]"
    by (simp_all add: demo_session_def tq_content_def tq_wrap_def)
  have room: "has_room (length (tq_content (ss_queue ?ss))) (Some (sm_from_enabled demo_enabled))"
    "acks_room (length demo_mixed) (Some (sm_from_enabled demo_enabled))"
    by (simp_all add: has_room_def acks_room_def content sm_from_enabled_def demo_enabled_def MAX_QUEUE_SIZE_def demo_mixed_def)
  have footers: "length (filter is_footer (concat (map ci_reads demo_polls))) \<le> 1"
    by (simp add: demo_polls_def is_footer_def)
  have over: "\<exists>poll\<in>set demo_polls. ci_shutdown poll" "\<exists>poll\<in>set demo_polls. \<exists>r\<in>set (ci_reads poll). ends_rx r"
    "ci_sink (last demo_polls) \<noteq> None"
    by (simp_all add: demo_polls_def ends_rx_def)
  obtain tokens ss' where closed: "close_polls demo_library unat demo_mixed (stream_close ?ss) = Some (tokens, ss')"
    "\<not> ss_running ss'" "transmitting (ss_stream ss')"
    by (rule demo_closed)
  have "tq_content (ss_queue ss') = [] \<and> subseq [10, 20] (handed tokens @ tq_content (ss_queue ss'))
    \<and> poll_closes demo_polls (close_start 5 (ss_stream ss')) = Some Shutdown_Complete"
    using closed_stream_ends [OF up running room footers, of demo_library unat 5] closed over
    by (cases "ss_stream ss'" rule: transmitting.cases) (auto simp: content Let_def simp del: poll_closes.simps close_polls.simps)
  then show ?thesis
    using closed by auto
qed

end
