(* ===== verification/Spec2Isabelle.thy ===== *)
theory Spec2Isabelle
  imports Ffi_Lifecycle Session_Status Xmpp_Tunnel Client_Login Client_Joint Client_Close
begin

text \<open>
  MindChat: the platform-neutral core of an XMPP chat client (\<^verbatim>\<open>src/crates/mindchat-core\<close>), as HOL
  functions translated from the Rust source, with the theorems that make it correct.

  \<^bold>\<open>The program.\<close> \<^verbatim>\<open>MindChatCore\<close> (\<^verbatim>\<open>lib.rs\<close>) is the domain state machine: accounts, contacts,
  conversations, messages and reactions in hash maps, four identifier counters and a queue of change
  notifications. A transport (trait \<^verbatim>\<open>XmppTransport\<close>, \<^verbatim>\<open>transport.rs\<close>) turns a server's stanzas into
  normalised events; \<^verbatim>\<open>TransportCoordinator\<close> (\<^verbatim>\<open>lib.rs\<close>) puts a core beside a transport, connects accounts,
  sends what is queued and projects events. \<^verbatim>\<open>TokioXmppTransport\<close> (\<^verbatim>\<open>xmpp.rs\<close>) is the transport of the
  application: one thread per account, which resolves the server, races its addresses or goes through a
  proxy (\<^verbatim>\<open>proxy.rs\<close>), and then serves commands, stanzas and two timers until it ends; it also runs the
  in-band registration. The client of a worker is the vendored crate \<^verbatim>\<open>tokio-xmpp\<close>
  (\<^verbatim>\<open>src/vendor/tokio-xmpp\<close>) with MindChat's patches: it signs in, keeps a stream of stanzas over one connection
  after another, and dials again when one is lost. \<^verbatim>\<open>persistence.rs\<close> and \<^verbatim>\<open>state_cipher.rs\<close> save and load the state.
  \<^verbatim>\<open>MindChatCoreHandle\<close> (\<^verbatim>\<open>ffi.rs\<close>) is what Kotlin calls: a session of all of these under a mutex.

  \<^bold>\<open>The theories\<close>, in the order of their imports:
  \<^item> \<open>Prelude\<close>: maps with an insertion order as \<^verbatim>\<open>HashMap\<close> (the locale \<open>hash_map\<close> and its interpretation),
    tables keyed by their identifiers, allocation of identifiers, the operator \<^verbatim>\<open>?\<close>; \<open>Rust_Text\<close>: strings
    as lists of code points, with \<^verbatim>\<open>trim\<close>, \<^verbatim>\<open>split\<close>, \<^verbatim>\<open>strip_prefix\<close> and decimal numbers;
    \<open>Net_Addr\<close>: the parsers and printers of IP and socket addresses.
  \<^item> \<open>Domain_Types\<close>, \<open>Validation\<close>: the structs, enums and errors of \<^verbatim>\<open>lib.rs\<close> and \<^verbatim>\<open>transport.rs\<close>; the checks
    of addresses, names and message bodies.
  \<^item> \<open>Core_State\<close>, \<open>Core_Wf\<close>, \<open>Core_Contract\<close>: the core's record, its private helpers and snapshots; the invariant
    \<open>wf_core\<close> (every table is keyed by its identifiers, every reference resolves, addresses and bodies are
    valid, conversations are unique); the locale \<open>core_operation\<close>: an operation keeps the invariant, changes
    nothing when it fails, only appends to the queue and uses up at most one identifier of each kind.
    \<open>Core_Accounts\<close>, \<open>Core_Chats\<close>, \<open>Core_Events\<close> hold the operations, each with its interpretation;
    \<open>Core_Runs\<close> runs of them; \<open>Samples\<close> the concrete state of the witnesses.
  \<^item> \<open>Core_Snapshot\<close>, \<open>Core_Properties\<close>, \<open>Core_Delivery\<close>: snapshots, their restoration and the store of the
    tests (the locale \<open>core_store\<close>); the invariant along runs,
    atomic errors, exact effects of the deletions; incoming texts, receipts, and the outgoing queue.
  \<^item> \<open>Coordinator\<close>: the coordinator over an arbitrary transport, with \<open>poll_transport_events\<close> and \<open>flush_outbox\<close>
    equal to their reference forms (the events pulled, then projected; the messages sent, then marked), and the
    locale \<open>event_source\<close> for a transport with a queue.
  \<^item> \<open>Proxy_Config\<close>, \<open>Proxy_Codec\<close>, \<open>Proxy_Handshake\<close>: configurations and targets; the SOCKS5 and HTTP CONNECT messages
    with round trips against reference decoders; the handshakes over a stream that delivers its bytes in any
    portions, with what is disclosed and exactly which lines of a response are read. A write that fails hands over nothing in the model: what
    it may have sent before its error is not recorded.
  \<^item> \<open>State_File\<close>: the encrypted format, atomic writes as a chain of system calls, any of which may fail, the final
    removal of the staging file too, with every disk state a reader or a crash can see; saving
    and loading, sanitising, and the state after a restart.
  \<^item> \<open>Xmpp_Endpoint\<close> (endpoint syntax, resolution, SRV order, grouping), \<open>Xmpp_Stanza\<close> (classification of errors,
    stanzas and their translation, receipts), \<open>Xmpp_Connect\<close> (the race of addresses in milliseconds, attempts,
    proxies), \<open>Xmpp_Worker\<close> (the loop of \<^verbatim>\<open>run_worker\<close> as a step function and the runs it has), \<open>Xmpp_Session\<close> (what a
    run tells the domain), \<open>Xmpp_Transport\<close> (threads, channels and tickets behind the four operations, the
    invariant \<open>tokio_ok\<close>, reachable states), \<open>Xmpp_Shutdown\<close> (the stronger invariant \<open>tokio_tidy\<close>: no open channel without
    an owner; how a closed channel ends its worker), \<open>Xmpp_Tunnel\<close> (the connector through a proxy), \<open>Xmpp_Register\<close>
    (the XEP-0077 exchange over the candidates).
  \<^item> \<open>Client_Backoff\<close> (the jittered backoff with its budget, and the reconnector, a \<open>partial_function\<close> that is proved
    to return), \<open>Client_Login\<close> (the choice of a SASL mechanism, and the exchange against its reference form without a loop), \<open>Client_Resume\<close> (the transmit queue, with the locale
    \<open>retransmit_queue\<close> for its contract, and the counters of stream management modulo \<open>2 ^ 32\<close>), \<open>Client_Stream\<close> (negotiation, the established stream and its worker, as one
    poll function), \<open>Client_Delivery\<close> (its runs with a peer, over which a resumed session delivers every stanza
    exactly once), \<open>Client_Events\<close> (the client's worker, and how a lost link is settled for the account), \<open>Client_Joint\<close> (the joint runs of a
    stream, its client and the worker of the account: who is shown online has a stream that transmits and reads, or one whose next two
    reports take the session down), \<open>Client_Close\<close> (the orderly close of a client over any mix of polls: what is queued is handed over in order,
    the loop ends, and the connection is shut down within ten seconds; a close waits for the reconnector where no stream is established).
  \<^item> \<open>Session_Wf\<close> (the locale \<open>sound_transport\<close>: every coordinator operation keeps core and transport in their
    invariants, interpreted on the Tokio transport), \<open>Session_Status\<close> (what is shown of an account against
    what its worker tells, and where that leaves an account online without a worker; what a disconnect leaves behind).
  \<^item> \<open>Ffi_Types\<close> (the values of the boundary; the locale \<open>conversion\<close> for every enum that crosses it both ways;
    the errors), \<open>Ffi_Handle\<close> (every operation of the handle), \<open>Ffi_Runs\<close> (the locale \<open>handle_operation\<close> and
    its interpretations), \<open>Ffi_Calls\<close> (calls, loads of state files and moves of threads as runs), \<open>Ffi_Properties\<close>
    (the invariant along such runs, restarts, deletion, registration), \<open>Ffi_Lifecycle\<close> (the typing of what is handed out, honest
    flushes, the end of the workers when the handle is dropped).

  \<^bold>\<open>Correspondence.\<close> A Rust function \<open>f\<close> of the core is the HOL function \<open>f\<close>, that takes the state and returns
  its result with the new state. A method that exists in several types has a prefix: \<open>tc_\<close> for the
  coordinator, \<open>tokio_\<close> for the transport, \<open>ffi_\<close> for the handle. Fields carry a prefix for their struct and
  constructors one for their enum. \<^verbatim>\<open>u8\<close> to \<^verbatim>\<open>u64\<close> are words, with the wrap-around and saturation of the source.
  A \<^verbatim>\<open>Result\<close> is a sum with the error on the left. A loop is a recursion on what it consumes. Time is
  in milliseconds.

  \<^bold>\<open>Bounds.\<close> Nothing runs on fuel: the race and the reads of a stream end by their measures, the worker is a
  relation over the inputs its \<^verbatim>\<open>select!\<close> picks, and the reconnector, defined without a bound, returns because
  every sleep uses up at least half a second of its budget. An identifier counter is assumed below its end by at least the number of
  operations considered (\<open>budget\<close>); for the handle this is proved for \<open>2 ^ 55\<close> calls.

  \<^bold>\<open>Parameters\<close>, with what is assumed of them only where a theorem says so: the crates \<^verbatim>\<open>xmpp_parsers\<close> and
  \<^verbatim>\<open>jid\<close> (the record \<open>parsers\<close>), the network and the name services (\<open>network\<close>, \<open>name_service\<close>), the servers of a
  registration, \<^verbatim>\<open>ring\<close> (\<open>aead\<close>), \<^verbatim>\<open>serde_json\<close> (\<open>serde\<close>), the disk with its faults, the clocks, and the order
  in which threads run (\<open>scheduler\<close>).

  \<^bold>\<open>Not modelled.\<close> The Android application in Kotlin, the build scripts and the tests; of the vendored crate
  \<^verbatim>\<open>tokio-xmpp\<close> the XML streams, connectors and components, which MindChat uses as they are; the time a send or a close of the
  client takes, so that its outcome is an input of the worker; the TLS connectors and resolvers, which only configure libraries; panics that poison a mutex, whose flags are part of the handle's
  state but are never set by a step; \<^verbatim>\<open>mindchat_binding_version\<close>, a constant of the build.
\<close>

end
